theory Spec2Isabelle
  imports Main
begin

section \<open>The gym membership system of final.c\<close>

text \<open>
  The program keeps its members in a singly linked list (\<open>head\<close>, \<open>tail\<close>), counts
  them in \<open>member_count\<close>, hands out card numbers from \<open>next_card_id\<close> and writes the
  list to members.txt through the staging file members.tmp.

  Conventions of the embedding:
  \<^item> a C string is the list of its bytes before the terminating NUL; the Chinese
    literals of the source are their UTF-8 bytes;
  \<^item> \<open>int\<close> is 32 bits wide and \<open>long\<close> 64 bits; a value of either type is the
    integer it denotes, arithmetic in \<open>int\<close> and in \<open>long\<close> wraps around (two's
    complement, what the compiled program does where C leaves overflow undefined), a
    conversion to \<open>int\<close> keeps the low 32 bits, and division and remainder truncate
    towards zero;
  \<^item> the linked list is a HOL list in list order, a pointer into it is an index;
  \<^item> what the source reads from the clock, from the keyboard and from the file system
    is a parameter; the message a function prints is the outcome it returns.
\<close>

subsection \<open>Machine integers\<close>

definition wrap32 :: "int \<Rightarrow> int" where
  "wrap32 x = (x + 2147483648) mod 4294967296 - 2147483648"

definition wrap64 :: "int \<Rightarrow> int" where
  "wrap64 x = (x + 9223372036854775808) mod 18446744073709551616 - 9223372036854775808"

definition LONG_MAX :: int where
  "LONG_MAX = 9223372036854775807"

definition LONG_MIN :: int where
  "LONG_MIN = - 9223372036854775808"

text \<open>Addition, subtraction and multiplication in \<open>long\<close>, addition and subtraction in
  \<open>int\<close>.\<close>

definition ladd :: "int \<Rightarrow> int \<Rightarrow> int" where
  "ladd a b = wrap64 (a + b)"

definition lsub :: "int \<Rightarrow> int \<Rightarrow> int" where
  "lsub a b = wrap64 (a - b)"

definition lmul :: "int \<Rightarrow> int \<Rightarrow> int" where
  "lmul a b = wrap64 (a * b)"

definition iadd :: "int \<Rightarrow> int \<Rightarrow> int" where
  "iadd a b = wrap32 (a + b)"

definition isub :: "int \<Rightarrow> int \<Rightarrow> int" where
  "isub a b = wrap32 (a - b)"

subsection \<open>C library\<close>

definition c_div :: "int \<Rightarrow> int \<Rightarrow> int" where
  "c_div a b = (if (a < 0) = (b < 0) then \<bar>a\<bar> div \<bar>b\<bar> else - (\<bar>a\<bar> div \<bar>b\<bar>))"

definition c_mod :: "int \<Rightarrow> int \<Rightarrow> int" where
  "c_mod a b = a - b * c_div a b"

definition isspace :: "char \<Rightarrow> bool" where
  "isspace c = (c = CHR 0x20 \<or> c = CHR 0x09 \<or> c = CHR 0x0A \<or> c = CHR 0x0B
     \<or> c = CHR 0x0C \<or> c = CHR 0x0D)"

definition isdigit :: "char \<Rightarrow> bool" where
  "isdigit c = ((48::nat) \<le> of_char c \<and> of_char c \<le> (57::nat))"

fun digits_value :: "int \<Rightarrow> string \<Rightarrow> int" where
  "digits_value acc [] = acc"
| "digits_value acc (c # cs) = digits_value (acc * 10 + (int (of_char c) - 48)) cs"

definition scan_unsigned :: "string \<Rightarrow> (int \<times> string) option" where
  "scan_unsigned s =
     (if takeWhile isdigit s = [] then None
      else Some (digits_value 0 (takeWhile isdigit s), dropWhile isdigit s))"

text \<open>The decimal number at the start of a string, as \<open>strtol\<close> and the conversion \<open>%d\<close>
  read it: white space is skipped, a sign is optional, at least one digit is needed. The
  number is returned as written, with the rest of the input.\<close>

definition scan_decimal :: "string \<Rightarrow> (int \<times> string) option" where
  "scan_decimal s =
     (case dropWhile isspace s of
        [] \<Rightarrow> None
      | c # r \<Rightarrow>
          if c = CHR ''-'' then
            (case scan_unsigned r of None \<Rightarrow> None | Some (v, t) \<Rightarrow> Some (- v, t))
          else if c = CHR ''+'' then scan_unsigned r
          else scan_unsigned (c # r))"

text \<open>\<open>strtol\<close> delivers a \<open>long\<close>: a number beyond the range is replaced by \<open>LONG_MAX\<close>
  or \<open>LONG_MIN\<close>.\<close>

definition strtol_range :: "int \<Rightarrow> int" where
  "strtol_range v = (if v > LONG_MAX then LONG_MAX else if v < LONG_MIN then LONG_MIN else v)"

text \<open>\<open>atol(s)\<close> is \<open>strtol(s, NULL, 10)\<close>, 0 when there is no number; \<open>atoi(s)\<close> is the
  same value converted to \<open>int\<close>.\<close>

definition atol :: "string \<Rightarrow> int" where
  "atol s = (case scan_decimal s of None \<Rightarrow> 0 | Some (v, t) \<Rightarrow> strtol_range v)"

definition atoi :: "string \<Rightarrow> int" where
  "atoi s = wrap32 (atol s)"

text \<open>The conversion \<open>%d\<close> of sscanf: the number is converted as by \<open>strtol\<close> and stored
  into an \<open>int\<close>; the rest of the input is returned with it.\<close>

definition scan_int :: "string \<Rightarrow> (int \<times> string) option" where
  "scan_int s =
     (case scan_decimal s of
        None \<Rightarrow> None
      | Some (v, t) \<Rightarrow> Some (wrap32 (strtol_range v), t))"

text \<open>\<open>sscanf(date, "%d-%d-%d", &y, &m, &d) == 3\<close>: the three values when all three
  conversions succeed, \<open>None\<close> when the call returns anything but 3.\<close>

definition sscanf_date :: "string \<Rightarrow> (int \<times> int \<times> int) option" where
  "sscanf_date s =
     (case scan_int s of
        None \<Rightarrow> None
      | Some (y, r1) \<Rightarrow>
          (case r1 of
             [] \<Rightarrow> None
           | c1 # r2 \<Rightarrow>
               if c1 \<noteq> CHR ''-'' then None
               else
                 (case scan_int r2 of
                    None \<Rightarrow> None
                  | Some (m, r3) \<Rightarrow>
                      (case r3 of
                         [] \<Rightarrow> None
                       | c2 # r4 \<Rightarrow>
                           if c2 \<noteq> CHR ''-'' then None
                           else
                             (case scan_int r4 of
                                None \<Rightarrow> None
                              | Some (d, r5) \<Rightarrow> Some (y, m, d))))))"

text \<open>\<open>printf("%d")\<close> and \<open>printf("%ld")\<close>.\<close>

fun digit_chars :: "nat \<Rightarrow> string" where
  "digit_chars n =
     (if n < 10 then [char_of (48 + n)]
      else digit_chars (n div 10) @ [char_of (48 + n mod 10)])"

definition show_int :: "int \<Rightarrow> string" where
  "show_int i = (if i < 0 then CHR ''-'' # digit_chars (nat (- i)) else digit_chars (nat i))"

subsection \<open>Calendar: isLeapYear, daysInMonth, dateToDays, getDurationDays\<close>

definition isLeapYear :: "int \<Rightarrow> bool" where
  "isLeapYear y = ((c_mod y 4 = 0 \<and> c_mod y 100 \<noteq> 0) \<or> c_mod y 400 = 0)"

definition mdays :: "int list" where
  "mdays = [0, 31, 28, 31, 30, 31, 30, 31, 31, 30, 31, 30, 31]"

text \<open>\<open>daysInMonth\<close> is only called with \<open>1 \<le> m \<le> 12\<close> (the guard of \<open>dateToDays\<close> and the
  bounds of its loop), so the table is never read out of range.\<close>

definition daysInMonth :: "int \<Rightarrow> int \<Rightarrow> int" where
  "daysInMonth y m =
     (if m = 2 then mdays ! nat m + (if isLeapYear y then 1 else 0) else mdays ! nat m)"

text \<open>The loop \<open>for (i = 1; i < m; i++) days += daysInMonth(y, i)\<close>.\<close>

function monthsLoop :: "int \<Rightarrow> int \<Rightarrow> int \<Rightarrow> int \<Rightarrow> int" where
  "monthsLoop y m i days =
     (if i < m then monthsLoop y m (i + 1) (ladd days (daysInMonth y i)) else days)"
  by pat_completeness auto
termination
  by (relation "measure (\<lambda>(y, m, i, days). nat (m - i))") auto

text \<open>The body of \<open>dateToDays\<close> after the call of sscanf. \<open>y\<close>, \<open>m\<close> and \<open>d\<close> are of type
  \<open>int\<close>; \<open>y - 1\<close> is computed in \<open>int\<close>, the rest in \<open>long\<close>.\<close>

definition daysOfYMD :: "int \<Rightarrow> int \<Rightarrow> int \<Rightarrow> int" where
  "daysOfYMD y m d =
     (if m < 1 \<or> m > 12 then 0
      else if d < 1 \<or> d > daysInMonth y m then 0
      else
        (let y1 = isub y 1;
             leapCount = ladd (lsub (c_div y1 4) (c_div y1 100)) (c_div y1 400);
             days = ladd 0 (ladd (lmul y 365) leapCount)
         in ladd (monthsLoop y m 1 days) d))"

definition dateToDays :: "string \<Rightarrow> int" where
  "dateToDays date =
     (case sscanf_date date of None \<Rightarrow> 0 | Some (y, m, d) \<Rightarrow> daysOfYMD y m d)"

definition type_month :: string where
  "type_month = [CHR 0xE6, CHR 0x9C, CHR 0x88, CHR 0xE5, CHR 0x8D, CHR 0xA1]"

definition type_season :: string where
  "type_season = [CHR 0xE5, CHR 0xAD, CHR 0xA3, CHR 0xE5, CHR 0x8D, CHR 0xA1]"

definition type_year :: string where
  "type_year = [CHR 0xE5, CHR 0xB9, CHR 0xB4, CHR 0xE5, CHR 0x8D, CHR 0xA1]"

definition gender_male :: string where
  "gender_male = [CHR 0xE7, CHR 0x94, CHR 0xB7]"

definition gender_female :: string where
  "gender_female = [CHR 0xE5, CHR 0xA5, CHR 0xB3]"

definition getDurationDays :: "string \<Rightarrow> int" where
  "getDurationDays t =
     (if t = type_month then 30
      else if t = type_season then 90
      else if t = type_year then 365
      else 0)"

definition isValidAge :: "int \<Rightarrow> bool" where
  "isValidAge age = (age \<ge> 18 \<and> age \<le> 80)"

definition isValidPhone :: "string \<Rightarrow> bool" where
  "isValidPhone phone = (length phone = 11 \<and> list_all isdigit phone)"

subsection \<open>The Gregorian calendar as the specification words it\<close>

text \<open>A year is a leap year when it is divisible by 4 and not by 100, unless it is also
  divisible by 400. The day after a date is the next day of the month, or the first of
  the next month, or the first of January of the next year.\<close>

definition gregorian_leap :: "int \<Rightarrow> bool" where
  "gregorian_leap y = (4 dvd y \<and> (\<not> 100 dvd y \<or> 400 dvd y))"

definition gregorian_month_length :: "int \<Rightarrow> int \<Rightarrow> int" where
  "gregorian_month_length y m =
     (if m = 2 then (if gregorian_leap y then 29 else 28)
      else if m = 4 \<or> m = 6 \<or> m = 9 \<or> m = 11 then 30
      else 31)"

definition gregorian_valid :: "int \<times> int \<times> int \<Rightarrow> bool" where
  "gregorian_valid dt =
     (case dt of (y, m, d) \<Rightarrow>
        1 \<le> m \<and> m \<le> 12 \<and> 1 \<le> d \<and> d \<le> gregorian_month_length y m)"

definition date_before :: "int \<times> int \<times> int \<Rightarrow> int \<times> int \<times> int \<Rightarrow> bool" where
  "date_before a b =
     (case a of (y1, m1, d1) \<Rightarrow> case b of (y2, m2, d2) \<Rightarrow>
        y1 < y2 \<or> (y1 = y2 \<and> (m1 < m2 \<or> (m1 = m2 \<and> d1 < d2))))"

definition next_day :: "int \<times> int \<times> int \<Rightarrow> int \<times> int \<times> int" where
  "next_day dt =
     (case dt of (y, m, d) \<Rightarrow>
        if d < gregorian_month_length y m then (y, m, d + 1)
        else if m < 12 then (y, m + 1, 1)
        else (y + 1, 1, 1))"

definition ordinal :: "int \<times> int \<times> int \<Rightarrow> int" where
  "ordinal dt = (case dt of (y, m, d) \<Rightarrow> daysOfYMD y m d)"

subsection \<open>Data: Member, Node and the globals\<close>

record Member =
  card_id :: int
  name :: string
  gender :: string
  age :: int
  phone :: string
  join_date :: string
  membership_type :: string
  is_active :: int

record Node =
  data :: Member
  bonus_days :: int

text \<open>The globals \<open>head\<close>/\<open>tail\<close> (the list), \<open>member_count\<close> and \<open>next_card_id\<close>, together
  with the files of the working directory (file name to contents).\<close>

record state =
  members :: "Node list"
  member_count :: int
  next_card_id :: int
  disk :: "string \<Rightarrow> string option"

text \<open>What a call takes from its environment: the date string \<open>getSystemDate\<close> writes,
  how many calls of \<open>malloc\<close> succeed before it returns NULL, and whether the calls of
  \<open>fopen(TEMP_FILE, "wb")\<close>, \<open>remove(filename)\<close>, \<open>rename\<close> and \<open>remove(TEMP_FILE)\<close> in
  \<open>saveToFile\<close> succeed.\<close>

record env =
  current_date_str :: string
  mallocs :: nat
  fopen_temp_ok :: bool
  remove_data_ok :: bool
  rename_ok :: bool
  remove_temp_ok :: bool

definition MAX_MEMBERS :: int where
  "MAX_MEMBERS = 100"

definition DATA_FILE :: string where
  "DATA_FILE = ''members.txt''"

definition TEMP_FILE :: string where
  "TEMP_FILE = ''members.tmp''"

text \<open>The menu choice with which the prompt loops of \<open>addMember\<close> and \<open>renewMember\<close>
  exit: they repeat until 1, 2 or 3 is entered.\<close>

datatype type_choice = Choice1 | Choice2 | Choice3

fun choiceType :: "type_choice \<Rightarrow> string" where
  "choiceType Choice1 = type_month"
| "choiceType Choice2 = type_season"
| "choiceType Choice3 = type_year"

fun choiceDuration :: "type_choice \<Rightarrow> int" where
  "choiceDuration Choice1 = 30"
| "choiceDuration Choice2 = 90"
| "choiceDuration Choice3 = 365"

subsection \<open>List management\<close>

definition createNode :: "nat \<Rightarrow> Member \<Rightarrow> Node option" where
  "createNode k m = (if k = 0 then None else Some \<lparr>data = m, bonus_days = 0\<rparr>)"

text \<open>\<open>appendNode\<close> is called for a node that exists, behind a check of \<open>member_count\<close>
  against \<open>MAX_MEMBERS\<close> or right after \<open>freeAllMembers\<close>, so its increment stays in range.\<close>

definition appendNode :: "Node \<Rightarrow> state \<Rightarrow> state" where
  "appendNode node s = s\<lparr>members := members s @ [node], member_count := member_count s + 1\<rparr>"

text \<open>\<open>findByCardID\<close> returns the first node with the card number; the pointer is the
  node's position in the list.\<close>

fun findByCardID :: "int \<Rightarrow> Node list \<Rightarrow> nat option" where
  "findByCardID i [] = None"
| "findByCardID i (p # ps) =
     (if card_id (data p) = i then Some 0
      else (case findByCardID i ps of None \<Rightarrow> None | Some j \<Rightarrow> Some (Suc j)))"

definition freeAllMembers :: "state \<Rightarrow> state" where
  "freeAllMembers s = s\<lparr>members := [], member_count := 0\<rparr>"

definition calcExpireDays :: "Node \<Rightarrow> int" where
  "calcExpireDays p =
     (let join_days = dateToDays (join_date (data p));
          duration = getDurationDays (membership_type (data p))
      in ladd (ladd join_days duration) (bonus_days p))"

subsection \<open>syncAutoExpire\<close>

fun syncLoop :: "int \<Rightarrow> Node list \<Rightarrow> Node list" where
  "syncLoop current_days [] = []"
| "syncLoop current_days (p # ps) =
     (if is_active (data p) = 1 then
        (if lsub (calcExpireDays p) current_days < 0
         then p\<lparr>data := (data p)\<lparr>is_active := 0\<rparr>\<rparr>
         else p)
      else p) # syncLoop current_days ps"

definition syncAutoExpire :: "env \<Rightarrow> state \<Rightarrow> state" where
  "syncAutoExpire e s =
     (if members s = [] then s
      else s\<lparr>members := syncLoop (dateToDays (current_date_str e)) (members s)\<rparr>)"

subsection \<open>saveToFile\<close>

definition LF :: char where
  "LF = CHR 0x0A"

definition CR :: char where
  "CR = CHR 0x0D"

definition NUL :: char where
  "NUL = CHR 0x00"

text \<open>One call of \<open>fprintf(fp, "%d|%s|%s|%d|%s|%s|%s|%d|%ld\n", ...)\<close>.\<close>

definition record_line :: "Node \<Rightarrow> string" where
  "record_line p =
     show_int (card_id (data p)) @ ''|'' @ name (data p) @ ''|'' @ gender (data p) @ ''|''
     @ show_int (age (data p)) @ ''|'' @ phone (data p) @ ''|'' @ join_date (data p) @ ''|''
     @ membership_type (data p) @ ''|'' @ show_int (is_active (data p)) @ ''|''
     @ show_int (bonus_days p) @ [LF]"

text \<open>\<open>remove\<close> deletes an existing file unless the call fails; \<open>rename\<close> moves the source
  onto the destination unless the call fails or the source is missing.\<close>

definition c_remove :: "bool \<Rightarrow> string \<Rightarrow> (string \<Rightarrow> string option) \<Rightarrow> (string \<Rightarrow> string option)" where
  "c_remove ok f d = (if ok \<and> d f \<noteq> None then d(f := None) else d)"

definition c_rename ::
  "bool \<Rightarrow> string \<Rightarrow> string \<Rightarrow> (string \<Rightarrow> string option) \<Rightarrow> (string \<Rightarrow> string option) option" where
  "c_rename ok src dst d =
     (if ok \<and> d src \<noteq> None then (if src = dst then Some d else Some (d(dst := d src, src := None)))
      else None)"

definition saveToFile :: "env \<Rightarrow> string \<Rightarrow> state \<Rightarrow> int \<times> state" where
  "saveToFile e filename s =
     (if \<not> fopen_temp_ok e then (0, s)
      else
        (let d1 = (disk s)(TEMP_FILE := Some (concat (map record_line (members s))));
             d2 = c_remove (remove_data_ok e) filename d1
         in case c_rename (rename_ok e) TEMP_FILE filename d2 of
              None \<Rightarrow> (0, s\<lparr>disk := c_remove (remove_temp_ok e) TEMP_FILE d2\<rparr>)
            | Some d3 \<Rightarrow> (1, s\<lparr>disk := d3\<rparr>)))"

subsection \<open>loadFromFile\<close>

text \<open>\<open>fgets(line, n, fp)\<close> on the unread rest of the file: at most \<open>n - 1\<close> bytes, up
  to and including the first line feed; \<open>None\<close> at the end of the file. The second
  component is what stays unread.\<close>

definition fgets :: "nat \<Rightarrow> string \<Rightarrow> (string \<times> string) option" where
  "fgets n inp =
     (if inp = [] then None
      else
        (let t = take (n - 1) inp;
             l = takeWhile (\<lambda>c. c \<noteq> LF) t;
             chunk = (if length l < length t then l @ [LF] else t)
         in Some (chunk, drop (length chunk) inp)))"

text \<open>The buffer as the string functions see it: the bytes before the first NUL.\<close>

definition c_str :: "string \<Rightarrow> string" where
  "c_str buf = takeWhile (\<lambda>c. c \<noteq> NUL) buf"

definition trim_newline :: "string \<Rightarrow> string" where
  "trim_newline s = takeWhile (\<lambda>c. c \<noteq> CR \<and> c \<noteq> LF) s"

text \<open>\<open>strtok(_, "|")\<close> on the rest of the buffer: leading delimiters are skipped, the token
  runs to the next delimiter; \<open>None\<close> when nothing but delimiters is left.\<close>

definition strtok :: "string \<Rightarrow> (string \<times> string) option" where
  "strtok s =
     (let s1 = dropWhile (\<lambda>c. c = CHR ''|'') s
      in if s1 = [] then None
         else Some (takeWhile (\<lambda>c. c \<noteq> CHR ''|'') s1,
                    drop 1 (dropWhile (\<lambda>c. c \<noteq> CHR ''|'') s1)))"

text \<open>One step \<open>tok = strtok(..., "|"); if (!tok) continue;\<close>: the token and the rest
  are handed on, a missing token ends the line.\<close>

definition next_field :: "string \<Rightarrow> (string \<Rightarrow> string \<Rightarrow> 'a option) \<Rightarrow> 'a option" where
  "next_field s f = (case strtok s of None \<Rightarrow> None | Some (t, r) \<Rightarrow> f t r)"

text \<open>The nine \<open>strtok\<close> steps of the loop body, with \<open>atoi\<close>/\<open>atol\<close> and the truncating
  \<open>strncpy\<close>; \<open>None\<close> when a field is missing.\<close>

definition split_fields :: "string \<Rightarrow> Node option" where
  "split_fields buf =
     next_field buf (\<lambda>t1 r1.
     next_field r1 (\<lambda>t2 r2.
     next_field r2 (\<lambda>t3 r3.
     next_field r3 (\<lambda>t4 r4.
     next_field r4 (\<lambda>t5 r5.
     next_field r5 (\<lambda>t6 r6.
     next_field r6 (\<lambda>t7 r7.
     next_field r7 (\<lambda>t8 r8.
     next_field r8 (\<lambda>t9 r9.
       Some \<lparr>data = \<lparr>card_id = atoi t1, name = take 29 t2, gender = take 9 t3,
                      age = atoi t4, phone = take 14 t5, join_date = take 11 t6,
                      membership_type = take 9 t7, is_active = atoi t8\<rparr>,
             bonus_days = atol t9\<rparr>)))))))))"

text \<open>The seven checks after the split; each failing check is a \<open>continue\<close>.\<close>

definition line_checks :: "Node \<Rightarrow> bool" where
  "line_checks p =
     (\<not> card_id (data p) \<le> 0
      \<and> isValidAge (age (data p))
      \<and> isValidPhone (phone (data p))
      \<and> (gender (data p) = gender_male \<or> gender (data p) = gender_female)
      \<and> \<not> getDurationDays (membership_type (data p)) = 0
      \<and> (is_active (data p) = 0 \<or> is_active (data p) = 1)
      \<and> \<not> dateToDays (join_date (data p)) = 0)"

text \<open>What one line contributes: the node it describes, or nothing.\<close>

definition parse_line :: "string \<Rightarrow> Node option" where
  "parse_line line =
     (if line = [] then None
      else (case split_fields line of
              None \<Rightarrow> None
            | Some p \<Rightarrow> if line_checks p then Some p else None))"

text \<open>The \<open>while (fgets(line, sizeof(line), fp))\<close> loop. Its variables are the unread rest
  of the file, the allocations left, the list built so far, \<open>member_count\<close>, \<open>loaded\<close> and
  \<open>max_id\<close>. Both counters start at 0 and are incremented only below \<open>MAX_MEMBERS\<close>, far
  from the end of the \<open>int\<close> range; \<open>max_id\<close> holds a card number read by \<open>atoi\<close>, and
  \<open>max_id + 1\<close> after the loop is computed in \<open>int\<close>.\<close>

function loadLoop ::
  "string \<Rightarrow> nat \<Rightarrow> Node list \<Rightarrow> int \<Rightarrow> int \<Rightarrow> int \<Rightarrow> Node list \<times> int \<times> int \<times> int" where
  "loadLoop inp k acc cnt loaded max_id =
     (case fgets 512 inp of
        None \<Rightarrow> (acc, cnt, loaded, max_id)
      | Some (chunk, rest) \<Rightarrow>
          (case parse_line (trim_newline (c_str chunk)) of
             None \<Rightarrow> loadLoop rest k acc cnt loaded max_id
           | Some p \<Rightarrow>
               if cnt \<ge> MAX_MEMBERS then (acc, cnt, loaded, max_id)
               else (case createNode k (data p) of
                       None \<Rightarrow> (acc, cnt, loaded, max_id)
                     | Some node \<Rightarrow>
                         loadLoop rest (k - 1) (acc @ [node\<lparr>bonus_days := bonus_days p\<rparr>])
                           (cnt + 1) (loaded + 1)
                           (if card_id (data p) > max_id then card_id (data p) else max_id))))"
  by pat_completeness auto
termination
  by (relation "measure (\<lambda>(inp, k, acc, cnt, loaded, max_id). length inp)")
     (auto simp: fgets_def Let_def neq_Nil_conv split: if_splits)

definition loadFromFile :: "env \<Rightarrow> string \<Rightarrow> state \<Rightarrow> int \<times> state" where
  "loadFromFile e filename s =
     (case disk s filename of
        None \<Rightarrow> (0, s)
      | Some content \<Rightarrow>
          (case loadLoop content (mallocs e) [] (member_count (freeAllMembers s)) 0 1000 of
             (ms, cnt, loaded, max_id) \<Rightarrow>
               (loaded,
                syncAutoExpire e
                  (s\<lparr>members := ms, member_count := cnt, next_card_id := iadd max_id 1\<rparr>))))"

subsection \<open>The operations of the menu\<close>

text \<open>Each operation takes what its prompts read: the card number \<open>scanf("%d", &id)\<close>
  delivers (\<open>None\<close> when the conversion fails) and the values with which the retry loops
  exit. The result of \<open>saveToFile\<close> is ignored by every caller.\<close>

datatype add_result = AddFull | AddNoMemory | AddOK

definition addMember ::
  "env \<Rightarrow> string \<Rightarrow> string \<Rightarrow> int \<Rightarrow> string \<Rightarrow> type_choice \<Rightarrow> state \<Rightarrow> add_result \<times> state" where
  "addMember e nm gd ag ph choice s =
     (if member_count s \<ge> MAX_MEMBERS then (AddFull, s)
      else
        (let m = \<lparr>card_id = next_card_id s, name = nm, gender = gd, age = ag, phone = ph,
                   join_date = current_date_str e, membership_type = choiceType choice,
                   is_active = 1\<rparr>;
             s1 = s\<lparr>next_card_id := iadd (next_card_id s) 1\<rparr>
         in case createNode (mallocs e) m of
              None \<Rightarrow> (AddNoMemory, s1)
            | Some node \<Rightarrow> (AddOK, snd (saveToFile e DATA_FILE (appendNode node s1)))))"

datatype update_result = UpdateInputError | UpdateNotFound | UpdateOK

definition updateMemberPhone ::
  "env \<Rightarrow> int option \<Rightarrow> string \<Rightarrow> state \<Rightarrow> update_result \<times> state" where
  "updateMemberPhone e input newPhone s =
     (case input of
        None \<Rightarrow> (UpdateInputError, s)
      | Some i \<Rightarrow>
          (case findByCardID i (members s) of
             None \<Rightarrow> (UpdateNotFound, s)
           | Some j \<Rightarrow>
               (let p = members s ! j;
                    s1 = s\<lparr>members := (members s)[j := p\<lparr>data := (data p)\<lparr>phone := newPhone\<rparr>\<rparr>]\<rparr>
                in (UpdateOK, snd (saveToFile e DATA_FILE s1)))))"

datatype delete_result = DeleteInputError | DeleteNotFound | DeleteStillActive | DeleteOK

text \<open>The search loop of \<open>deleteExpiredMember\<close> stops at the first node with the card
  number, as \<open>findByCardID\<close> does; unlinking the node at position \<open>j\<close> leaves the nodes
  before and after it.\<close>

definition deleteExpiredMember :: "env \<Rightarrow> int option \<Rightarrow> state \<Rightarrow> delete_result \<times> state" where
  "deleteExpiredMember e input s =
     (let s1 = syncAutoExpire e s
      in case input of
           None \<Rightarrow> (DeleteInputError, s1)
         | Some i \<Rightarrow>
             (case findByCardID i (members s1) of
                None \<Rightarrow> (DeleteNotFound, s1)
              | Some j \<Rightarrow>
                  if is_active (data (members s1 ! j)) = 1 then (DeleteStillActive, s1)
                  else
                    (DeleteOK,
                     snd (saveToFile e DATA_FILE
                       (s1\<lparr>members := take j (members s1) @ drop (Suc j) (members s1),
                           member_count := member_count s1 - 1\<rparr>)))))"

datatype renew_result =
  RenewInputError | RenewNotFound | RenewRestarted | RenewTypeMismatch | RenewExtended

text \<open>The part of \<open>renewMember\<close> after the prompts (from \<open>getSystemDate\<close> on), for the
  node at position \<open>j\<close>.\<close>

definition renewDecision :: "env \<Rightarrow> nat \<Rightarrow> type_choice \<Rightarrow> state \<Rightarrow> renew_result \<times> state" where
  "renewDecision e j choice s =
     (let p = members s ! j;
          newType = choiceType choice;
          newDuration = choiceDuration choice;
          current_days = dateToDays (current_date_str e);
          expire_days = calcExpireDays p
      in if is_active (data p) = 0 \<or> expire_days < current_days then
           (RenewRestarted,
            snd (saveToFile e DATA_FILE
              (s\<lparr>members := (members s)[j :=
                   \<lparr>data = (data p)\<lparr>join_date := current_date_str e,
                                     membership_type := newType, is_active := 1\<rparr>,
                    bonus_days = 0\<rparr>]\<rparr>)))
         else if newType \<noteq> membership_type (data p) then (RenewTypeMismatch, s)
         else
           (RenewExtended,
            snd (saveToFile e DATA_FILE
              (s\<lparr>members := (members s)[j :=
                   \<lparr>data = (data p)\<lparr>is_active := 1\<rparr>,
                    bonus_days = ladd (bonus_days p) newDuration\<rparr>]\<rparr>))))"

definition renewMember ::
  "env \<Rightarrow> int option \<Rightarrow> type_choice \<Rightarrow> state \<Rightarrow> renew_result \<times> state" where
  "renewMember e input choice s =
     (let s1 = syncAutoExpire e s
      in case input of
           None \<Rightarrow> (RenewInputError, s1)
         | Some i \<Rightarrow>
             (case findByCardID i (members s1) of
                None \<Rightarrow> (RenewNotFound, s1)
              | Some j \<Rightarrow> renewDecision e j choice s1))"

datatype status_result =
  StatusInputError | StatusNotFound | StatusAlreadyInactive | StatusOK

definition updateMemberStatus :: "env \<Rightarrow> int option \<Rightarrow> state \<Rightarrow> status_result \<times> state" where
  "updateMemberStatus e input s =
     (case input of
        None \<Rightarrow> (StatusInputError, s)
      | Some i \<Rightarrow>
          (case findByCardID i (members s) of
             None \<Rightarrow> (StatusNotFound, s)
           | Some j \<Rightarrow>
               (let p = members s ! j
                in if is_active (data p) = 0 then (StatusAlreadyInactive, s)
                   else
                     (StatusOK,
                      snd (saveToFile e DATA_FILE
                        (s\<lparr>members := (members s)[j := p\<lparr>data := (data p)\<lparr>is_active := 0\<rparr>\<rparr>]\<rparr>))))))"

text \<open>\<open>showAllMembers\<close>, \<open>searchByCardID\<close>, \<open>searchByName\<close> and \<open>showStatistics\<close> print; what
  they change is what their leading \<open>syncAutoExpire\<close> changes.\<close>

definition showAllMembers :: "env \<Rightarrow> state \<Rightarrow> state" where
  "showAllMembers e s = syncAutoExpire e s"

definition searchByCardID :: "env \<Rightarrow> state \<Rightarrow> state" where
  "searchByCardID e s = syncAutoExpire e s"

definition searchByName :: "env \<Rightarrow> state \<Rightarrow> state" where
  "searchByName e s = syncAutoExpire e s"

definition showStatistics :: "env \<Rightarrow> state \<Rightarrow> state" where
  "showStatistics e s = syncAutoExpire e s"

subsection \<open>Start of the program\<close>

definition test_members :: "Member list" where
  "test_members =
     [\<lparr>card_id = 1001, name = [CHR 0xE5, CHR 0xBC, CHR 0xA0, CHR 0xE4, CHR 0xB8, CHR 0x89],
       gender = gender_male, age = 25, phone = ''13800138000'', join_date = ''2025-12-01'',
       membership_type = type_year, is_active = 1\<rparr>,
      \<lparr>card_id = 1002, name = [CHR 0xE6, CHR 0x9D, CHR 0x8E, CHR 0xE5, CHR 0x9B, CHR 0x9B],
       gender = gender_female, age = 30, phone = ''13912345678'', join_date = ''2024-06-15'',
       membership_type = type_month, is_active = 0\<rparr>,
      \<lparr>card_id = 1003, name = [CHR 0xE7, CHR 0x8E, CHR 0x8B, CHR 0xE4, CHR 0xBA, CHR 0x94],
       gender = gender_male, age = 45, phone = ''13666666666'', join_date = ''2026-01-01'',
       membership_type = type_month, is_active = 1\<rparr>,
      \<lparr>card_id = 1004, name = [CHR 0xE8, CHR 0xB5, CHR 0xB5, CHR 0xE5, CHR 0x85, CHR 0xAD],
       gender = gender_female, age = 22, phone = ''13777777777'', join_date = ''2025-11-01'',
       membership_type = type_season, is_active = 1\<rparr>]"

definition initTestData :: "env \<Rightarrow> state \<Rightarrow> state" where
  "initTestData e s =
     (let s0 = freeAllMembers s
      in if mallocs e < 4 then s0
         else
           (let s1 = foldl (\<lambda>t m. appendNode \<lparr>data = m, bonus_days = 0\<rparr> t) s0 test_members;
                s2 = s1\<lparr>next_card_id := 1005\<rparr>
            in snd (saveToFile e DATA_FILE (syncAutoExpire e s2))))"

text \<open>The globals as initialised, over the files found on disk, and the first lines of
  \<open>main\<close>: load members.txt, fall back to the test data when nothing was loaded.\<close>

definition initial_state :: "(string \<Rightarrow> string option) \<Rightarrow> state" where
  "initial_state d = \<lparr>members = [], member_count = 0, next_card_id = 1001, disk = d\<rparr>"

definition startup :: "env \<Rightarrow> env \<Rightarrow> (string \<Rightarrow> string option) \<Rightarrow> state" where
  "startup e e' d =
     (case loadFromFile e DATA_FILE (initial_state d) of
        (loaded, s) \<Rightarrow> if loaded \<le> 0 then initTestData e' s else s)"

text \<open>The operations the menus of \<open>main\<close> offer, and the states the program can be in
  between two of them.\<close>

datatype menu_call =
  CallShowAll
  | CallAdd string string int string type_choice
  | CallUpdatePhone "int option" string
  | CallDelete "int option"
  | CallRenew "int option" type_choice
  | CallSearchByCardID
  | CallSearchByName
  | CallUpdateStatus "int option"
  | CallStatistics

fun menu_step :: "env \<Rightarrow> menu_call \<Rightarrow> state \<Rightarrow> state" where
  "menu_step e CallShowAll s = showAllMembers e s"
| "menu_step e (CallAdd nm gd ag ph choice) s = snd (addMember e nm gd ag ph choice s)"
| "menu_step e (CallUpdatePhone input ph) s = snd (updateMemberPhone e input ph s)"
| "menu_step e (CallDelete input) s = snd (deleteExpiredMember e input s)"
| "menu_step e (CallRenew input choice) s = snd (renewMember e input choice s)"
| "menu_step e CallSearchByCardID s = searchByCardID e s"
| "menu_step e CallSearchByName s = searchByName e s"
| "menu_step e (CallUpdateStatus input) s = snd (updateMemberStatus e input s)"
| "menu_step e CallStatistics s = showStatistics e s"

text \<open>A session after the start: menu operations one after the other, each with the
  environment it finds.\<close>

fun menu_run :: "(env \<times> menu_call) list \<Rightarrow> state \<Rightarrow> state" where
  "menu_run [] s = s"
| "menu_run (ec # cs) s = menu_run cs (menu_step (fst ec) (snd ec) s)"

inductive reachable :: "state \<Rightarrow> bool" where
  reachable_startup: "reachable (startup e e' d)"
| reachable_step: "reachable s \<Longrightarrow> reachable (menu_step e c s)"

subsection \<open>The expire day and the postures, as the specification words them\<close>

text \<open>The specification computes with integers: the expire day is the ordinal of the join
  date plus the duration of the type plus the bonus days, and a record is Active-Current or
  Expired-or-Inactive by its flag and by the expire day against today's ordinal.\<close>

definition expire_day :: "Node \<Rightarrow> int" where
  "expire_day p =
     dateToDays (join_date (data p)) + getDurationDays (membership_type (data p)) + bonus_days p"

definition Active_Current :: "int \<Rightarrow> Node \<Rightarrow> bool" where
  "Active_Current today p = (is_active (data p) = 1 \<and> expire_day p \<ge> today)"

definition Expired_or_Inactive :: "int \<Rightarrow> Node \<Rightarrow> bool" where
  "Expired_or_Inactive today p = (is_active (data p) = 0 \<or> expire_day p < today)"

text \<open>The program computes the expire day and its distance to today in \<open>long\<close>. Its
  results are those of the specification when both numbers fit into a \<open>long\<close>.\<close>

definition fits_long :: "int \<Rightarrow> bool" where
  "fits_long x = (LONG_MIN \<le> x \<and> x \<le> LONG_MAX)"

definition long_safe :: "int \<Rightarrow> Node \<Rightarrow> bool" where
  "long_safe today p = (fits_long (expire_day p) \<and> fits_long (expire_day p - today))"

text \<open>The record a card number denotes is the first one in the list that carries it.\<close>

definition first_with_card :: "int \<Rightarrow> Node list \<Rightarrow> nat \<Rightarrow> bool" where
  "first_with_card i ms j =
     (j < length ms \<and> card_id (data (ms ! j)) = i
      \<and> list_all (\<lambda>p. card_id (data p) \<noteq> i) (take j ms))"

subsection \<open>Notions the statements use\<close>

text \<open>What one pass of the synchronizer does to one node; when a node counts as
  reactivated or as changed in type between two states; which menu calls are renewals,
  additions and deletions; and the lines of a file as the loop of \<open>loadFromFile\<close> sees them (one per call
  of \<open>fgets\<close>, cut at the first NUL, carriage return or line feed).\<close>

definition expire_flip :: "int \<Rightarrow> Node \<Rightarrow> Node" where
  "expire_flip today p =
     (if is_active (data p) = 1 \<and> lsub (calcExpireDays p) today < 0
      then p\<lparr>data := (data p)\<lparr>is_active := 0\<rparr>\<rparr> else p)"

definition reactivated :: "Node \<Rightarrow> Node \<Rightarrow> bool" where
  "reactivated p p' = (is_active (data p) = 0 \<and> is_active (data p') \<noteq> 0)"

definition type_changed :: "Node \<Rightarrow> Node \<Rightarrow> bool" where
  "type_changed p p' = (membership_type (data p') \<noteq> membership_type (data p))"

fun is_renew :: "menu_call \<Rightarrow> bool" where
  "is_renew (CallRenew input c) = True"
| "is_renew other = False"

fun is_add :: "menu_call \<Rightarrow> bool" where
  "is_add (CallAdd nm gd ag ph c) = True"
| "is_add other = False"

fun is_delete :: "menu_call \<Rightarrow> bool" where
  "is_delete (CallDelete input) = True"
| "is_delete other = False"

function file_lines :: "string \<Rightarrow> string list" where
  "file_lines inp =
     (case fgets 512 inp of
        None \<Rightarrow> []
      | Some (chunk, rest) \<Rightarrow> trim_newline (c_str chunk) # file_lines rest)"
  by pat_completeness auto

termination
  by (relation "measure length")
     (auto simp: fgets_def Let_def neq_Nil_conv split: if_splits)

subsection \<open>Closed forms and invariants the proofs use\<close>

text \<open>The days before a month and before a year in closed form, the node a restart
  produces, the relations between a node before and after an operation, the valid records
  of a file, the running maximum and the remaining capacity of the load loop, and the
  invariant of the store.\<close>

definition days_before_month :: "int \<Rightarrow> int \<Rightarrow> int" where
  "days_before_month y m =
     (if m = 1 then 0 else if m = 2 then 31
      else (if gregorian_leap y then 1 else 0) +
        (if m = 3 then 59 else if m = 4 then 90 else if m = 5 then 120
         else if m = 6 then 151 else if m = 7 then 181 else if m = 8 then 212
         else if m = 9 then 243 else if m = 10 then 273 else if m = 11 then 304
         else 334))"

definition leaps_before :: "int \<Rightarrow> int" where
  "leaps_before y = (y - 1) div 4 - (y - 1) div 100 + (y - 1) div 400"

definition year_start :: "int \<Rightarrow> int" where
  "year_start y = 365 * y + leaps_before y"

definition restarted :: "env \<Rightarrow> type_choice \<Rightarrow> Node \<Rightarrow> Node" where
  "restarted e c p =
     \<lparr>data = (data p)\<lparr>join_date := current_date_str e, membership_type := choiceType c,
                       is_active := 1\<rparr>,
      bonus_days = 0\<rparr>"

definition stays :: "Node \<Rightarrow> Node \<Rightarrow> bool" where
  "stays p p' = (\<not> reactivated p p' \<and> \<not> type_changed p p')"

definition renew_trace :: "env \<Rightarrow> type_choice \<Rightarrow> Node \<Rightarrow> Node \<Rightarrow> bool" where
  "renew_trace e c p p' =
     (stays p p'
      \<or> ((long_safe (dateToDays (current_date_str e)) p
            \<longrightarrow> Expired_or_Inactive (dateToDays (current_date_str e)) p)
          \<and> p' = restarted e c p))"

definition card_ids :: "Node list \<Rightarrow> int set" where
  "card_ids ps = (\<lambda>p. card_id (data p)) ` set ps"

definition valid_records :: "string \<Rightarrow> Node list" where
  "valid_records content = List.map_filter parse_line (file_lines content)"

definition max_card_id :: "int \<Rightarrow> Node list \<Rightarrow> int" where
  "max_card_id m ps = Max (insert m (card_ids ps))"

definition room :: "nat \<Rightarrow> int \<Rightarrow> nat" where
  "room k cnt = min k (nat (MAX_MEMBERS - cnt))"

definition store_inv :: "state \<Rightarrow> bool" where
  "store_inv s = (length (members s) \<le> 100 \<and> member_count s = int (length (members s)))"

subsection \<open>Stores, environments and files of the examples\<close>

text \<open>The record of scenario 1 (monthly, joined 2025-01-01), environments in which every
  call succeeds or only the rename fails, small stores, and data files built from one
  line pattern.\<close>

definition scenario_member :: Node where
  "scenario_member =
     \<lparr>data = \<lparr>card_id = 1001, name = ''A'', gender = gender_male, age = 30,
               phone = ''13800138000'', join_date = ''2025-01-01'',
               membership_type = type_month, is_active = 1\<rparr>,
      bonus_days = 0\<rparr>"

definition all_ok_env :: "string \<Rightarrow> env" where
  "all_ok_env today =
     \<lparr>current_date_str = today, mallocs = 1000, fopen_temp_ok = True, remove_data_ok = True,
      rename_ok = True, remove_temp_ok = True\<rparr>"

definition single_state :: "Node \<Rightarrow> state" where
  "single_state p =
     \<lparr>members = [p], member_count = 1, next_card_id = 1002, disk = (\<lambda>f. None)\<rparr>"

definition inactive_member :: Node where
  "inactive_member = scenario_member\<lparr>data := (data scenario_member)\<lparr>is_active := 0\<rparr>\<rparr>"

definition bonus_member :: Node where
  "bonus_member =
     \<lparr>data = (data scenario_member)\<lparr>card_id := 1002, name := ''B''\<rparr>, bonus_days = 30\<rparr>"

definition lapsed_member :: Node where
  "lapsed_member =
     \<lparr>data = (data scenario_member)\<lparr>card_id := 1003, name := ''C'', is_active := 0\<rparr>,
      bonus_days = 0\<rparr>"

definition example_store :: state where
  "example_store =
     \<lparr>members = [scenario_member, bonus_member, lapsed_member], member_count = 3,
      next_card_id = 1004, disk = (\<lambda>f. None)\<rparr>"

text \<open>Records at the ends of the \<open>long\<close> range, and the lines of a data file that load
  as these records.\<close>

definition overflow_member :: Node where
  "overflow_member = scenario_member\<lparr>bonus_days := 9223372036854775807\<rparr>"

definition far_member :: Node where
  "far_member = scenario_member\<lparr>bonus_days := 9223372036854036190\<rparr>"

definition underflow_member :: Node where
  "underflow_member =
     \<lparr>data = (data scenario_member)\<lparr>join_date := ''-999-01-01''\<rparr>,
      bonus_days = - 9223372036854775808\<rparr>"

definition line_with :: "string \<Rightarrow> string \<Rightarrow> string" where
  "line_with jd bonus =
     ''1001|A|'' @ gender_male @ ''|30|13800138000|'' @ jd @ ''|'' @ type_month @ ''|1|'' @ bonus"

definition line_of :: "string \<Rightarrow> string \<Rightarrow> string \<Rightarrow> string" where
  "line_of cid nm ag =
     cid @ ''|'' @ nm @ ''|'' @ gender_male @ ''|'' @ ag @ ''|13800138000|2025-01-01|''
       @ type_month @ ''|1|0''"

definition node_of :: "int \<Rightarrow> string \<Rightarrow> int \<Rightarrow> Node" where
  "node_of cid nm ag =
     \<lparr>data = \<lparr>card_id = cid, name = nm, gender = gender_male, age = ag,
               phone = ''13800138000'', join_date = ''2025-01-01'',
               membership_type = type_month, is_active = 1\<rparr>,
      bonus_days = 0\<rparr>"

definition low_id_file :: string where
  "low_id_file = line_of ''5'' ''A'' ''30'' @ [LF]"

definition high_id_file :: string where
  "high_id_file = line_of ''2000'' ''A'' ''30'' @ [LF]"

definition max_id_file :: string where
  "max_id_file = line_of ''2147483647'' ''A'' ''30'' @ [LF]"

definition age15_file :: string where
  "age15_file =
     line_of ''1001'' ''A'' ''30'' @ [LF] @ line_of ''1002'' ''B'' ''15'' @ [LF]
       @ line_of ''1003'' ''C'' ''30'' @ [LF]"

definition wide_age_file :: string where
  "wide_age_file = line_of ''1001'' ''A'' ''4294967326'' @ [LF]"

definition long_file :: string where
  "long_file = concat (replicate 101 (line_of ''7'' ''A'' ''30'' @ [LF]))"

definition state_with_file :: "string \<Rightarrow> state" where
  "state_with_file content =
     initial_state (\<lambda>f. if f = DATA_FILE then Some content else None)"

definition full_state :: state where
  "full_state =
     \<lparr>members = replicate 100 scenario_member, member_count = 100, next_card_id = 1101,
      disk = (\<lambda>f. None)\<rparr>"

definition rename_fails_env :: env where
  "rename_fails_env = (all_ok_env ''2025-01-15'')\<lparr>rename_ok := False\<rparr>"

definition saving_state :: state where
  "saving_state =
     \<lparr>members = [scenario_member], member_count = 1, next_card_id = 1002,
      disk = (\<lambda>f. if f = DATA_FILE then Some (record_line inactive_member) else None)\<rparr>"

definition restart_env :: env where
  "restart_env = all_ok_env ''2026-01-10''"

definition bar_member :: Node where
  "bar_member =
     \<lparr>data = \<lparr>card_id = 1005, name = ''a|b'', gender = gender_male, age = 30,
               phone = ''13800138000'', join_date = ''2026-01-10'',
               membership_type = type_month, is_active = 1\<rparr>,
      bonus_days = 0\<rparr>"

definition test_nodes :: "Node list" where
  "test_nodes = map (\<lambda>m. \<lparr>data = m, bonus_days = 0\<rparr>) test_members"

definition store_with_bar_name :: state where
  "store_with_bar_name =
     snd (addMember restart_env ''a|b'' gender_male 30 ''13800138000'' Choice1
       (startup restart_env restart_env (\<lambda>f. None)))"

section \<open>Properties\<close>

declare monthsLoop.simps [simp del]

declare digit_chars.simps [simp del]

declare file_lines.simps [simp del]

declare loadLoop.simps [simp del]

subsection \<open>Machine integers\<close>

lemma mod_window:
  fixes x n :: int
  assumes "0 \<le> x" "x < n"
  shows "x mod n = x"
  using assms by (rule mod_pos_pos_trivial)

lemma wrap32_id: "- 2147483648 \<le> x \<Longrightarrow> x \<le> 2147483647 \<Longrightarrow> wrap32 x = x"
proof -
  assume a: "- 2147483648 \<le> x" "x \<le> 2147483647"
  have "(x + 2147483648) mod 4294967296 = x + 2147483648"
    by (rule mod_window) (use a in simp_all)
  then show ?thesis unfolding wrap32_def by simp
qed

lemma wrap64_id:
  "- 9223372036854775808 \<le> x \<Longrightarrow> x \<le> 9223372036854775807 \<Longrightarrow> wrap64 x = x"
proof -
  assume a: "- 9223372036854775808 \<le> x" "x \<le> 9223372036854775807"
  have "(x + 9223372036854775808) mod 18446744073709551616 = x + 9223372036854775808"
    by (rule mod_window) (use a in simp_all)
  then show ?thesis unfolding wrap64_def by simp
qed

lemma wrap32_range: "- 2147483648 \<le> wrap32 x \<and> wrap32 x \<le> 2147483647"
proof -
  define r where "r = (x + 2147483648) mod 4294967296"
  have "0 \<le> r" "r < 4294967296"
    unfolding r_def by (rule pos_mod_sign, simp) (rule pos_mod_bound, simp)
  moreover have "wrap32 x = r - 2147483648" by (simp only: wrap32_def r_def)
  ultimately show ?thesis by simp
qed

lemma wrap64_range: "- 9223372036854775808 \<le> wrap64 x \<and> wrap64 x \<le> 9223372036854775807"
proof -
  define r where "r = (x + 9223372036854775808) mod 18446744073709551616"
  have "0 \<le> r" "r < 18446744073709551616"
    unfolding r_def by (rule pos_mod_sign, simp) (rule pos_mod_bound, simp)
  moreover have "wrap64 x = r - 9223372036854775808" by (simp only: wrap64_def r_def)
  ultimately show ?thesis by simp
qed

lemma wrap32_high:
  assumes "2147483648 \<le> x" "x \<le> 6442450943"
  shows "wrap32 x = x - 4294967296"
proof -
  have "(x + 2147483648 - 4294967296) mod 4294967296 = x + 2147483648 - 4294967296"
    by (rule mod_window) (use assms in simp_all)
  moreover have "(x + 2147483648 - 4294967296) mod 4294967296 = (x + 2147483648) mod 4294967296"
    using mod_diff_right_eq [of "x + 2147483648" 4294967296 4294967296] by simp
  ultimately have "(x + 2147483648) mod 4294967296 = x + 2147483648 - 4294967296" by simp
  then show ?thesis unfolding wrap32_def by simp
qed

lemma wrap64_high:
  assumes "9223372036854775808 \<le> x" "x \<le> 27670116110564327423"
  shows "wrap64 x = x - 18446744073709551616"
proof -
  have "(x + 9223372036854775808 - 18446744073709551616) mod 18446744073709551616
      = x + 9223372036854775808 - 18446744073709551616"
    by (rule mod_window) (use assms in simp_all)
  moreover have "(x + 9223372036854775808 - 18446744073709551616) mod 18446744073709551616
      = (x + 9223372036854775808) mod 18446744073709551616"
    using mod_diff_right_eq [of "x + 9223372036854775808" 18446744073709551616
        18446744073709551616] by simp
  ultimately have "(x + 9223372036854775808) mod 18446744073709551616
      = x + 9223372036854775808 - 18446744073709551616" by simp
  then show ?thesis unfolding wrap64_def by simp
qed

lemma wrap64_low:
  assumes "- 27670116110564327424 \<le> x" "x \<le> - 9223372036854775809"
  shows "wrap64 x = x + 18446744073709551616"
proof -
  have "(x + 9223372036854775808 + 18446744073709551616) mod 18446744073709551616
      = x + 9223372036854775808 + 18446744073709551616"
    by (rule mod_window) (use assms in simp_all)
  moreover have "(x + 9223372036854775808 + 18446744073709551616) mod 18446744073709551616
      = (x + 9223372036854775808) mod 18446744073709551616"
    by (rule mod_add_self2)
  ultimately have "(x + 9223372036854775808) mod 18446744073709551616
      = x + 9223372036854775808 + 18446744073709551616" by simp
  then show ?thesis unfolding wrap64_def by simp
qed

lemma wrap32_add_left: "wrap32 (wrap32 x + c) = wrap32 (x + c)"
proof -
  have "((x + 2147483648) mod 4294967296 + c) mod 4294967296
      = (x + 2147483648 + c) mod 4294967296"
    by (rule mod_add_left_eq)
  moreover have "wrap32 x + c + 2147483648 = (x + 2147483648) mod 4294967296 + c"
    unfolding wrap32_def by simp
  moreover have "x + c + 2147483648 = x + 2147483648 + c" by simp
  ultimately show ?thesis by (simp only: wrap32_def)
qed

lemma wrap64_add_left: "wrap64 (wrap64 x + c) = wrap64 (x + c)"
proof -
  have "((x + 9223372036854775808) mod 18446744073709551616 + c) mod 18446744073709551616
      = (x + 9223372036854775808 + c) mod 18446744073709551616"
    by (rule mod_add_left_eq)
  moreover have "wrap64 x + c + 9223372036854775808
      = (x + 9223372036854775808) mod 18446744073709551616 + c"
    unfolding wrap64_def by simp
  moreover have "x + c + 9223372036854775808 = x + 9223372036854775808 + c" by simp
  ultimately show ?thesis by (simp only: wrap64_def)
qed

subsection \<open>Calendar\<close>

lemma c_div_nonneg: "0 \<le> a \<Longrightarrow> 0 < b \<Longrightarrow> c_div a b = a div b"
  by (simp add: c_div_def)

lemma c_mod_zero_iff: "0 < b \<Longrightarrow> (c_mod a b = 0) = (b dvd a)"
proof (cases "a < 0")
  case True
  assume b: "0 < b"
  have "b * (- a div b) + (- a) mod b = - a" by simp
  moreover have "c_mod a b = a + b * (- a div b)"
    using True b by (simp add: c_mod_def c_div_def)
  ultimately have "c_mod a b = - ((- a) mod b)"
    by linarith
  then have "(c_mod a b = 0) = (b dvd - a)" by (simp add: dvd_eq_mod_eq_0)
  then show ?thesis by simp
next
  case False
  assume b: "0 < b"
  have "c_mod a b = a mod b"
    using False b by (simp add: c_mod_def c_div_def minus_mult_div_eq_mod)
  then show ?thesis by (simp add: dvd_eq_mod_eq_0)
qed

lemma isLeapYear_gregorian: "isLeapYear y = gregorian_leap y"
  by (auto simp: isLeapYear_def gregorian_leap_def c_mod_zero_iff)

lemma month_cases: "1 \<le> m \<Longrightarrow> m \<le> 12 \<Longrightarrow>
  m = 1 \<or> m = 2 \<or> m = 3 \<or> m = 4 \<or> m = 5 \<or> m = 6 \<or> m = 7 \<or> m = 8 \<or> m = 9 \<or> m = 10 \<or> m = 11 \<or> m = (12::int)"
  by arith

lemma daysInMonth_gregorian:
  "1 \<le> m \<Longrightarrow> m \<le> 12 \<Longrightarrow> daysInMonth y m = gregorian_month_length y m"
  using month_cases [of m]
  by (auto simp: daysInMonth_def gregorian_month_length_def mdays_def isLeapYear_gregorian)

lemma ladd_id:
  "- 9223372036854775808 \<le> a + b \<Longrightarrow> a + b \<le> 9223372036854775807 \<Longrightarrow> ladd a b = a + b"
  by (simp add: ladd_def wrap64_id)

lemma lsub_id:
  "- 9223372036854775808 \<le> a - b \<Longrightarrow> a - b \<le> 9223372036854775807 \<Longrightarrow> lsub a b = a - b"
  by (simp add: lsub_def wrap64_id)

lemma lmul_id:
  "- 9223372036854775808 \<le> a * b \<Longrightarrow> a * b \<le> 9223372036854775807 \<Longrightarrow> lmul a b = a * b"
  by (simp add: lmul_def wrap64_id)

lemma isub_id: "- 2147483648 \<le> a - b \<Longrightarrow> a - b \<le> 2147483647 \<Longrightarrow> isub a b = a - b"
  by (simp add: isub_def wrap32_id)

lemma iadd_id: "- 2147483648 \<le> a + b \<Longrightarrow> a + b \<le> 2147483647 \<Longrightarrow> iadd a b = a + b"
  by (simp add: iadd_def wrap32_id)

lemma monthsLoop_unrolled:
  assumes "0 \<le> acc" "acc \<le> 1000000000000"
  shows "monthsLoop y 1 1 acc = acc"
    "monthsLoop y 2 1 acc = acc + 31"
    "monthsLoop y 3 1 acc = acc + 59 + (if gregorian_leap y then 1 else 0)"
    "monthsLoop y 4 1 acc = acc + 90 + (if gregorian_leap y then 1 else 0)"
    "monthsLoop y 5 1 acc = acc + 120 + (if gregorian_leap y then 1 else 0)"
    "monthsLoop y 6 1 acc = acc + 151 + (if gregorian_leap y then 1 else 0)"
    "monthsLoop y 7 1 acc = acc + 181 + (if gregorian_leap y then 1 else 0)"
    "monthsLoop y 8 1 acc = acc + 212 + (if gregorian_leap y then 1 else 0)"
    "monthsLoop y 9 1 acc = acc + 243 + (if gregorian_leap y then 1 else 0)"
    "monthsLoop y 10 1 acc = acc + 273 + (if gregorian_leap y then 1 else 0)"
    "monthsLoop y 11 1 acc = acc + 304 + (if gregorian_leap y then 1 else 0)"
    "monthsLoop y 12 1 acc = acc + 334 + (if gregorian_leap y then 1 else 0)"
  using assms
  by (cases "gregorian_leap y";
      simp add: monthsLoop.simps daysInMonth_def mdays_def isLeapYear_gregorian ladd_id)+

lemma monthsLoop_closed:
  "0 \<le> acc \<Longrightarrow> acc \<le> 1000000000000 \<Longrightarrow> 1 \<le> m \<Longrightarrow> m \<le> 12
   \<Longrightarrow> monthsLoop y m 1 acc = acc + days_before_month y m"
  using month_cases [of m]
  by (auto simp: monthsLoop_unrolled days_before_month_def)

lemma days_before_month_step:
  "1 \<le> m \<Longrightarrow> m < 12 \<Longrightarrow>
   days_before_month y (m + 1) = days_before_month y m + gregorian_month_length y m"
  using month_cases [of m]
  by (auto simp: days_before_month_def gregorian_month_length_def)

lemma div_step:
  assumes k: "0 < (k::int)"
  shows "y div k = (y - 1) div k + (if k dvd y then 1 else 0)"
proof (cases "k dvd y")
  case True
  then obtain q where q: "y = k * q" ..
  have "y - 1 = k * (q - 1) + (k - 1)" by (simp add: q algebra_simps)
  then have "(y - 1) div k = q - 1"
    by (rule int_div_pos_eq [where r = "k - 1"]) (use k in simp_all)
  moreover have "y div k = q" using k q by simp
  ultimately show ?thesis using True by simp
next
  case False
  have "0 \<le> y mod k" "y mod k \<noteq> 0" "y mod k < k"
    using k False pos_mod_sign [of k y] pos_mod_bound [of k y] by (simp_all add: dvd_eq_mod_eq_0)
  then have r: "0 < y mod k" "y mod k < k" by simp_all
  have "y - 1 = k * (y div k) + (y mod k - 1)" by simp
  then have "(y - 1) div k = y div k"
    by (rule int_div_pos_eq [where r = "y mod k - 1"]) (use r in simp_all)
  then show ?thesis using False by simp
qed


lemma leap_indicator:
  fixes A B C :: int
  assumes "p400 \<Longrightarrow> p100" "p100 \<Longrightarrow> p4"
  shows "A + (if p4 then 1 else 0) - (B + (if p100 then 1 else 0)) + (C + (if p400 then 1 else 0))
    = A - B + C + (if p4 \<and> (\<not> p100 \<or> p400) then 1 else 0)"
  using assms by (cases p400; cases p100; cases p4; simp)

lemma leaps_before_step:
  "leaps_before (y + 1) = leaps_before y + (if gregorian_leap y then 1 else 0)"
proof -
  have d4: "y div 4 = (y - 1) div 4 + (if 4 dvd y then 1 else 0)"
    by (rule div_step) simp
  have d100: "y div 100 = (y - 1) div 100 + (if 100 dvd y then 1 else 0)"
    by (rule div_step) simp
  have d400: "y div 400 = (y - 1) div 400 + (if 400 dvd y then 1 else 0)"
    by (rule div_step) simp
  have a: "(400::int) dvd y \<Longrightarrow> 100 dvd y" by (rule dvd_trans [of 100 400]) simp_all
  have b: "(100::int) dvd y \<Longrightarrow> 4 dvd y" by (rule dvd_trans [of 4 100]) simp_all
  have "leaps_before (y + 1) = y div 4 - y div 100 + y div 400"
    by (simp add: leaps_before_def)
  also have "\<dots> = (y - 1) div 4 + (if 4 dvd y then 1 else 0)
      - ((y - 1) div 100 + (if 100 dvd y then 1 else 0))
      + ((y - 1) div 400 + (if 400 dvd y then 1 else 0))"
    by (simp only: d4 [symmetric] d100 [symmetric] d400 [symmetric])
  also have "\<dots> = (y - 1) div 4 - (y - 1) div 100 + (y - 1) div 400
      + (if 4 dvd y \<and> (\<not> 100 dvd y \<or> 400 dvd y) then 1 else 0)"
    using a b by (rule leap_indicator)
  finally show ?thesis by (simp only: leaps_before_def gregorian_leap_def)
qed

lemma year_start_step:
  "year_start (y + 1) = year_start y + 365 + (if gregorian_leap y then 1 else 0)"
  by (simp add: year_start_def leaps_before_step)

lemma year_start_mono: "y \<le> y' \<Longrightarrow> year_start y \<le> year_start y'"
  by (induction y' rule: int_ge_induct) (simp_all add: year_start_step)

lemma year_start_lower: "1 \<le> y \<Longrightarrow> 365 \<le> year_start y"
  using year_start_mono [of 1 y] by (simp add: year_start_def leaps_before_def)

lemma div_bounds:
  fixes x k :: int
  assumes "0 \<le> x" "0 < k"
  shows "0 \<le> x div k" "x div k \<le> x"
proof -
  show q: "0 \<le> x div k" using assms by (simp add: pos_imp_zdiv_nonneg_iff)
  have "k * (x div k) + x mod k = x" by simp
  moreover have "0 \<le> x mod k" using assms by simp
  ultimately have "k * (x div k) \<le> x" by linarith
  moreover have "1 * (x div k) \<le> k * (x div k)"
    using assms q by (intro mult_right_mono) simp_all
  ultimately show "x div k \<le> x" by simp
qed

lemma days_before_month_bounds: "0 \<le> days_before_month y m" "days_before_month y m \<le> 335"
  by (simp_all add: days_before_month_def)

lemma daysOfYMD_closed:
  assumes v: "gregorian_valid (y, m, d)" and y: "1 \<le> y" "y \<le> 2147483647"
  shows "daysOfYMD y m d = year_start y + days_before_month y m + d"
proof -
  define a where "a = (y - 1) div 4"
  define b where "b = (y - 1) div 100"
  define c where "c = (y - 1) div 400"
  have m: "1 \<le> m" "m \<le> 12" and d: "1 \<le> d" "d \<le> gregorian_month_length y m"
    using v by (simp_all add: gregorian_valid_def)
  have d31: "d \<le> 31" using d(2) by (simp add: gregorian_month_length_def split: if_splits)
  have ab: "0 \<le> a" "a \<le> y - 1" "0 \<le> b" "b \<le> y - 1" "0 \<le> c" "c \<le> y - 1"
    unfolding a_def b_def c_def using y by (simp_all add: div_bounds)
  have y1: "isub y 1 = y - 1" using y by (simp add: isub_id)
  have cd: "c_div (y - 1) 4 = a" "c_div (y - 1) 100 = b" "c_div (y - 1) 400 = c"
    unfolding a_def b_def c_def using y by (simp_all add: c_div_nonneg)
  have l1: "lsub a b = a - b" using ab y by (intro lsub_id) simp_all
  have l2: "ladd (a - b) c = a - b + c" using ab y by (intro ladd_id) simp_all
  have l3: "lmul y 365 = y * 365" using y by (intro lmul_id) simp_all
  have l4: "ladd (y * 365) (a - b + c) = y * 365 + (a - b + c)"
    using ab y by (intro ladd_id) simp_all
  have l5: "ladd 0 (y * 365 + (a - b + c)) = y * 365 + (a - b + c)"
    using ab y by (simp add: ladd_def wrap64_id)
  have acc: "0 \<le> y * 365 + (a - b + c)" "y * 365 + (a - b + c) \<le> 1000000000000"
    using ab y by simp_all
  have l6: "monthsLoop y m 1 (y * 365 + (a - b + c))
      = y * 365 + (a - b + c) + days_before_month y m"
    using acc m by (rule monthsLoop_closed)
  have l7: "ladd (y * 365 + (a - b + c) + days_before_month y m) d
      = y * 365 + (a - b + c) + days_before_month y m + d"
    using acc days_before_month_bounds [of y m] d(1) d31 by (intro ladd_id) simp_all
  have "daysOfYMD y m d = y * 365 + (a - b + c) + days_before_month y m + d"
    using m d
    by (simp add: daysOfYMD_def daysInMonth_gregorian Let_def y1 cd l1 l2 l3 l4 l5 l6 l7)
  then show ?thesis
    by (simp add: year_start_def leaps_before_def a_def b_def c_def)
qed

lemma daysOfYMD_invalid: "\<not> gregorian_valid (y, m, d) \<Longrightarrow> daysOfYMD y m d = 0"
  by (auto simp: daysOfYMD_def gregorian_valid_def daysInMonth_gregorian)

lemma days_before_month_nonneg: "0 \<le> days_before_month y m"
  by (simp add: days_before_month_def)

lemma days_before_month_mono:
  assumes "m \<le> m'"
  shows "1 \<le> m \<Longrightarrow> m' \<le> 12 \<Longrightarrow> days_before_month y m \<le> days_before_month y m'"
  using assms
proof (induction m' rule: int_ge_induct)
  case base
  then show ?case by simp
next
  case (step i)
  have "0 \<le> gregorian_month_length y i" by (simp add: gregorian_month_length_def)
  with step show ?case by (simp add: days_before_month_step)
qed

lemma day_of_year_upper:
  assumes "gregorian_valid (y, m, d)"
  shows "days_before_month y m + d \<le> 365 + (if gregorian_leap y then 1 else 0)"
proof (cases "m = 12")
  case True
  with assms show ?thesis
    by (simp add: gregorian_valid_def days_before_month_def gregorian_month_length_def)
next
  case False
  with assms have m: "1 \<le> m" "m < 12" and d: "d \<le> gregorian_month_length y m"
    by (simp_all add: gregorian_valid_def)
  have "days_before_month y m + d \<le> days_before_month y (m + 1)"
    using m d by (simp add: days_before_month_step)
  also have "\<dots> \<le> days_before_month y 12"
    using m by (intro days_before_month_mono) simp_all
  also have "\<dots> \<le> 365 + (if gregorian_leap y then 1 else 0)"
    by (simp add: days_before_month_def)
  finally show ?thesis .
qed

lemma ordinal_positive:
  assumes "gregorian_valid (y, m, d)" "1 \<le> y" "y \<le> 2147483647"
  shows "0 < daysOfYMD y m d"
proof -
  have "1 \<le> d" using assms by (simp add: gregorian_valid_def)
  then show ?thesis
    using assms year_start_lower [of y] days_before_month_nonneg [of y m]
    by (simp add: daysOfYMD_closed)
qed

lemma ordinal_mono:
  assumes a: "gregorian_valid (y1, m1, d1)" and b: "gregorian_valid (y2, m2, d2)"
    and y: "1 \<le> y1" and u: "y2 \<le> 2147483647"
    and lt: "date_before (y1, m1, d1) (y2, m2, d2)"
  shows "daysOfYMD y1 m1 d1 < daysOfYMD y2 m2 d2"
proof -
  have y2: "1 \<le> y2" and u1: "y1 \<le> 2147483647" using y u lt by (auto simp: date_before_def)
  have ea: "daysOfYMD y1 m1 d1 = year_start y1 + days_before_month y1 m1 + d1"
    using a y u1 by (rule daysOfYMD_closed)
  have eb: "daysOfYMD y2 m2 d2 = year_start y2 + days_before_month y2 m2 + d2"
    using b y2 u by (rule daysOfYMD_closed)
  consider "y1 < y2" | "y1 = y2" "m1 < m2" | "y1 = y2" "m1 = m2" "d1 < d2"
    using lt by (auto simp: date_before_def)
  then show ?thesis
  proof cases
    case 1
    then have "year_start (y1 + 1) \<le> year_start y2" by (intro year_start_mono) simp
    moreover have "1 \<le> d2" using b by (simp add: gregorian_valid_def)
    ultimately show ?thesis
      using day_of_year_upper [OF a] days_before_month_nonneg [of y2 m2]
      by (simp add: ea eb year_start_step)
  next
    case 2
    have m: "1 \<le> m1" "m1 < 12" "m2 \<le> 12" and d: "d1 \<le> gregorian_month_length y1 m1"
      using a b 2 by (simp_all add: gregorian_valid_def)
    have "days_before_month y1 m1 + d1 \<le> days_before_month y1 (m1 + 1)"
      using m d by (simp add: days_before_month_step)
    also have "\<dots> \<le> days_before_month y1 m2"
      using m 2 by (intro days_before_month_mono) simp_all
    finally have h: "days_before_month y1 m1 + d1 \<le> days_before_month y1 m2" .
    have "1 \<le> d2" using b by (simp add: gregorian_valid_def)
    then show ?thesis
      unfolding ea eb using h 2(1) by simp
  next
    case 3
    then show ?thesis unfolding ea eb by simp
  qed
qed

lemma next_day_valid: "gregorian_valid dt \<Longrightarrow> gregorian_valid (next_day dt)"
  by (auto simp: gregorian_valid_def next_day_def gregorian_month_length_def split: prod.splits)

lemma next_day_year: "1 \<le> fst dt \<Longrightarrow> 1 \<le> fst (next_day dt)"
  by (auto simp: next_day_def split: prod.splits)

lemma next_day_year_le: "fst dt \<le> fst (next_day dt)"
  by (auto simp: next_day_def split: prod.splits)

lemma ordinal_next_day:
  assumes v: "gregorian_valid dt" and y: "1 \<le> fst dt"
    and u: "fst (next_day dt) \<le> 2147483647"
  shows "ordinal (next_day dt) = ordinal dt + 1"
proof -
  obtain yy m d where dt: "dt = (yy, m, d)" by (cases dt)
  have v': "gregorian_valid (next_day (yy, m, d))" using v dt next_day_valid by simp
  have y1: "1 \<le> yy" using y dt by simp
  have u1: "yy \<le> 2147483647" using u next_day_year_le [of dt] dt by simp
  have e: "daysOfYMD yy m d = year_start yy + days_before_month yy m + d"
    using v y1 u1 unfolding dt by (rule daysOfYMD_closed)
  consider "d < gregorian_month_length yy m"
    | "d = gregorian_month_length yy m" "m < 12"
    | "d = gregorian_month_length yy m" "m = 12"
    using v dt by atomize_elim (auto simp: gregorian_valid_def)
  then show ?thesis
  proof cases
    case 1
    then have n: "next_day (yy, m, d) = (yy, m, d + 1)" by (simp add: next_day_def)
    have "ordinal (next_day dt) = daysOfYMD yy m (d + 1)" by (simp add: dt n ordinal_def)
    also have "\<dots> = year_start yy + days_before_month yy m + (d + 1)"
      using v' [unfolded n] y1 u1 by (rule daysOfYMD_closed)
    finally show ?thesis by (simp add: dt ordinal_def e)
  next
    case 2
    then have n: "next_day (yy, m, d) = (yy, m + 1, 1)" by (simp add: next_day_def)
    have m1: "1 \<le> m" using v dt by (simp add: gregorian_valid_def)
    have "ordinal (next_day dt) = daysOfYMD yy (m + 1) 1" by (simp add: dt n ordinal_def)
    also have "\<dots> = year_start yy + days_before_month yy (m + 1) + 1"
      using v' [unfolded n] y1 u1 by (rule daysOfYMD_closed)
    also have "days_before_month yy (m + 1) = days_before_month yy m + d"
      using m1 2 by (simp add: days_before_month_step)
    finally show ?thesis by (simp add: dt ordinal_def e)
  next
    case 3
    then have n: "next_day (yy, m, d) = (yy + 1, 1, 1)" by (simp add: next_day_def)
    have u2: "yy + 1 \<le> 2147483647" using u by (simp add: dt n)
    have "ordinal (next_day dt) = daysOfYMD (yy + 1) 1 1" by (simp add: dt n ordinal_def)
    also have "\<dots> = year_start (yy + 1) + days_before_month (yy + 1) 1 + 1"
      using v' [unfolded n] by (rule daysOfYMD_closed) (use y1 u2 in simp_all)
    also have "\<dots> = year_start yy + days_before_month yy m + d + 1"
      using 3 by (simp add: year_start_step days_before_month_def gregorian_month_length_def)
    finally show ?thesis by (simp add: dt ordinal_def e)
  qed
qed

lemma ordinal_alt: "ordinal dt = daysOfYMD (fst dt) (fst (snd dt)) (snd (snd dt))"
  by (simp add: ordinal_def split: prod.splits)

lemma date_trichotomy: "date_before a b \<or> a = b \<or> date_before b a"
  by (auto simp: date_before_def split: prod.splits)

lemma date_before_year: "date_before a b \<Longrightarrow> fst a \<le> fst b"
  by (auto simp: date_before_def split: prod.splits)

lemma days_between_exists:
  assumes "gregorian_valid a" "gregorian_valid b" "1 \<le> fst a" "fst b \<le> 2147483647"
    "date_before a b"
  shows "\<exists>n. (next_day ^^ n) a = b \<and> ordinal b - ordinal a = int n"
  using assms
proof (induction "nat (ordinal b - ordinal a)" arbitrary: a rule: less_induct)
  case less
  obtain y1 m1 d1 where a: "a = (y1, m1, d1)" by (cases a)
  obtain y2 m2 d2 where b: "b = (y2, m2, d2)" by (cases b)
  have yb: "1 \<le> fst b" using less.prems date_before_year [of a b] by simp
  have lt: "ordinal a < ordinal b"
    using less.prems ordinal_mono [of y1 m1 d1 y2 m2 d2] by (simp add: a b ordinal_alt)
  let ?a' = "next_day a"
  have va: "gregorian_valid ?a'" using less.prems by (simp add: next_day_valid)
  have ya: "1 \<le> fst ?a'" using less.prems by (simp add: next_day_year)
  have ua: "fst ?a' \<le> 2147483647"
  proof -
    have "fst ?a' \<le> fst b"
      using less.prems(5) less.prems(1) less.prems(2)
      by (auto simp: a b next_day_def date_before_def gregorian_valid_def split: if_splits)
    then show ?thesis using less.prems(4) by simp
  qed
  have oa: "ordinal ?a' = ordinal a + 1" using less.prems ua by (simp add: ordinal_next_day)
  show ?case
  proof (cases "?a' = b")
    case True
    then have "(next_day ^^ 1) a = b \<and> ordinal b - ordinal a = int 1" using oa by simp
    then show ?thesis by blast
  next
    case False
    have "\<not> date_before b ?a'"
    proof
      assume "date_before b ?a'"
      then have "ordinal b < ordinal ?a'"
        using ordinal_mono [of y2 m2 d2 "fst ?a'" "fst (snd ?a')" "snd (snd ?a')"]
          less.prems va yb ua by (simp add: b ordinal_alt)
      then show False using lt oa by simp
    qed
    then have db: "date_before ?a' b" using False date_trichotomy [of ?a' b] by blast
    have "nat (ordinal b - ordinal ?a') < nat (ordinal b - ordinal a)" using lt oa by simp
    from less.hyps [OF this va less.prems(2) ya less.prems(4) db]
    obtain n where n: "(next_day ^^ n) ?a' = b" "ordinal b - ordinal ?a' = int n" by blast
    have "(next_day ^^ Suc n) a = b" using n(1) by (simp add: funpow_swap1)
    moreover have "ordinal b - ordinal a = int (Suc n)" using n(2) oa by simp
    ultimately show ?thesis by blast
  qed
qed

lemma dateToDays_parsed: "sscanf_date s = Some a \<Longrightarrow> dateToDays s = ordinal a"
  by (cases a) (simp add: dateToDays_def ordinal_def)

lemma ordinal_invalid: "\<not> gregorian_valid a \<Longrightarrow> ordinal a = 0"
  by (cases a) (simp add: ordinal_def daysOfYMD_invalid)

lemma scan_int_range:
  "scan_int s = Some (v, t) \<Longrightarrow> - 2147483648 \<le> v \<and> v \<le> 2147483647"
  using wrap32_range by (auto simp: scan_int_def split: option.splits)

lemma sscanf_date_year:
  assumes "sscanf_date s = Some a"
  shows "fst a \<le> 2147483647"
proof -
  obtain t where "scan_int s = Some (fst a, t)"
    using assms unfolding sscanf_date_def
    by (auto split: option.splits list.splits if_splits)
  then show ?thesis using scan_int_range by blast
qed

text \<open>
  From year 1 on \<open>dateToDays\<close> is as the specification wants it: positive, strictly
  increasing in calendar order, and the difference of two ordinals is the number of days
  from the one date to the other (the number of \<open>next_day\<close> steps). The sentinel 0 is
  returned when the string does not parse or the month or the day is out of range.
\<close>

lemma dateToDays_sentinel:
  "sscanf_date s = None \<Longrightarrow> dateToDays s = 0"
  "sscanf_date s = Some a \<Longrightarrow> \<not> gregorian_valid a \<Longrightarrow> dateToDays s = 0"
  by (simp add: dateToDays_def) (simp add: dateToDays_parsed ordinal_invalid)

lemma dateToDays_from_year_one:
  assumes "sscanf_date s = Some a" "sscanf_date t = Some b" "gregorian_valid a"
    "gregorian_valid b" "1 \<le> fst a" "date_before a b"
  shows "0 < dateToDays s" "dateToDays s < dateToDays t"
    "\<exists>n. (next_day ^^ n) a = b \<and> dateToDays t - dateToDays s = int n"
proof -
  have ub: "fst b \<le> 2147483647" using assms(2) by (rule sscanf_date_year)
  have ua: "fst a \<le> 2147483647" using assms(1) by (rule sscanf_date_year)
  show "0 < dateToDays s"
    using ordinal_positive [of "fst a" "fst (snd a)" "snd (snd a)"] assms ua
    by (simp add: dateToDays_parsed ordinal_alt)
  show "dateToDays s < dateToDays t"
    using ordinal_mono [of "fst a" "fst (snd a)" "snd (snd a)" "fst b" "fst (snd b)"
        "snd (snd b)"] assms ub
    by (simp add: dateToDays_parsed ordinal_alt)
  show "\<exists>n. (next_day ^^ n) a = b \<and> dateToDays t - dateToDays s = int n"
    using days_between_exists [of a b] assms ub by (simp add: dateToDays_parsed)
qed

lemma parse_examples:
  "sscanf_date ''2024-02-28'' = Some (2024, 2, 28)"
  "sscanf_date ''2024-03-01'' = Some (2024, 3, 1)"
  "sscanf_date ''2023-02-29'' = Some (2023, 2, 29)"
  "sscanf_date ''2024-02-29'' = Some (2024, 2, 29)"
  "sscanf_date ''20240229'' = None"
  "sscanf_date ''0000-12-31'' = Some (0, 12, 31)"
  "sscanf_date ''0001-01-01'' = Some (1, 1, 1)"
  "sscanf_date ''2025-4294967297-01'' = Some (2025, 1, 1)"
  by code_simp+

lemma valid_examples:
  "gregorian_valid (2024, 2, 28)" "gregorian_valid (2024, 3, 1)" "gregorian_valid (2024, 2, 29)"
  "\<not> gregorian_valid (2023, 2, 29)" "gregorian_valid (0, 12, 31)" "gregorian_valid (1, 1, 1)"
  "date_before (2024, 2, 28) (2024, 3, 1)" "date_before (0, 12, 31) (1, 1, 1)"
  by (simp_all add: gregorian_valid_def gregorian_month_length_def gregorian_leap_def date_before_def)

text \<open>
  Claim C5 at year 0. The dates 0000-12-31 and 0001-01-01 both pass the checks of
  \<open>dateToDays\<close>, the second is the day after the first, and both get the ordinal 366: the
  order is not strict there, and the difference is 0 where one day lies between the two.
  The leap count \<open>y1 / 4 - y1 / 100 + y1 / 400\<close> is announced as the number of leap years
  among the years 0 to \<open>y - 1\<close>, but it leaves out year 0, which \<open>isLeapYear\<close> takes for a
  leap year.
\<close>

theorem dateToDays_year_zero:
  "sscanf_date ''0000-12-31'' = Some (0, 12, 31)
   \<and> sscanf_date ''0001-01-01'' = Some (1, 1, 1)
   \<and> gregorian_valid (0, 12, 31) \<and> gregorian_valid (1, 1, 1)
   \<and> date_before (0, 12, 31) (1, 1, 1)
   \<and> next_day (0, 12, 31) = (1, 1, 1)
   \<and> isLeapYear 0
   \<and> dateToDays ''0000-12-31'' = 366
   \<and> dateToDays ''0001-01-01'' = 366"
proof -
  have "dateToDays ''0000-12-31'' = 366" "dateToDays ''0001-01-01'' = 366"
    by code_simp+
  moreover have "next_day (0, 12, 31) = (1, 1, 1)"
    by (simp add: next_day_def gregorian_month_length_def)
  moreover have "isLeapYear 0"
    by (simp add: isLeapYear_def c_mod_def c_div_def)
  ultimately show ?thesis by (simp add: parse_examples valid_examples)
qed

subsection \<open>Expiration synchronizer\<close>

lemma calcExpireDays_wrap: "calcExpireDays p = wrap64 (expire_day p)"
  by (simp add: calcExpireDays_def expire_day_def ladd_def wrap64_add_left)

lemma fits_long_wrap: "fits_long x \<Longrightarrow> wrap64 x = x"
  by (simp add: fits_long_def LONG_MIN_def LONG_MAX_def wrap64_id)

lemma calcExpireDays_fits: "fits_long (expire_day p) \<Longrightarrow> calcExpireDays p = expire_day p"
  by (simp add: calcExpireDays_wrap fits_long_wrap)

lemma remaining_fits:
  "long_safe t p \<Longrightarrow> lsub (calcExpireDays p) t = expire_day p - t"
  by (simp add: long_safe_def calcExpireDays_fits lsub_def fits_long_wrap)

lemma syncLoop_map: "syncLoop today ps = map (expire_flip today) ps"
  by (induction ps) (auto simp: expire_flip_def)

lemma calcExpireDays_flag:
  "calcExpireDays (p\<lparr>data := (data p)\<lparr>is_active := a\<rparr>\<rparr>) = calcExpireDays p"
  by (simp add: calcExpireDays_def)

lemma expire_flip_idem: "expire_flip today (expire_flip today p) = expire_flip today p"
  by (simp add: expire_flip_def)

lemma expire_flip_fits:
  "long_safe t p \<Longrightarrow>
   expire_flip t p = (if is_active (data p) = 1 \<and> expire_day p < t
                      then p\<lparr>data := (data p)\<lparr>is_active := 0\<rparr>\<rparr> else p)"
  by (simp add: expire_flip_def remaining_fits)

lemma syncAutoExpire_members:
  "members (syncAutoExpire e s) = map (expire_flip (dateToDays (current_date_str e))) (members s)"
  by (simp add: syncAutoExpire_def syncLoop_map)

lemma syncAutoExpire_globals:
  "member_count (syncAutoExpire e s) = member_count s"
  "next_card_id (syncAutoExpire e s) = next_card_id s"
  "disk (syncAutoExpire e s) = disk s"
  by (simp_all add: syncAutoExpire_def)

lemma syncAutoExpire_idem: "syncAutoExpire e (syncAutoExpire e s) = syncAutoExpire e s"
  by (simp add: syncAutoExpire_def syncLoop_map expire_flip_idem)

lemma scenario_dates:
  "dateToDays ''2025-01-01'' = 739617"
  "dateToDays ''2025-01-15'' = 739631"
  "dateToDays ''2025-01-31'' = 739647"
  "dateToDays ''2025-02-01'' = 739648"
  "dateToDays ''2025-02-15'' = 739662"
  "dateToDays ''2025-03-01'' = 739676"
  "dateToDays ''-999-01-01'' = - 364876"
  by code_simp+

lemma durations:
  "getDurationDays type_month = 30" "getDurationDays type_season = 90"
  "getDurationDays type_year = 365"
  by (simp_all add: getDurationDays_def type_month_def type_season_def type_year_def)

lemma example_fields:
  "join_date (data scenario_member) = ''2025-01-01''"
  "membership_type (data scenario_member) = type_month"
  "is_active (data scenario_member) = 1" "bonus_days scenario_member = 0"
  "card_id (data scenario_member) = 1001"
  "join_date (data bonus_member) = ''2025-01-01''"
  "membership_type (data bonus_member) = type_month"
  "is_active (data bonus_member) = 1" "bonus_days bonus_member = 30"
  "card_id (data bonus_member) = 1002"
  "join_date (data lapsed_member) = ''2025-01-01''"
  "membership_type (data lapsed_member) = type_month"
  "is_active (data lapsed_member) = 0" "bonus_days lapsed_member = 0"
  "card_id (data lapsed_member) = 1003"
  by (simp_all add: scenario_member_def bonus_member_def lapsed_member_def)

lemma example_expire:
  "expire_day scenario_member = 739647" "expire_day bonus_member = 739677"
  "expire_day lapsed_member = 739647"
  by (simp_all add: expire_day_def example_fields scenario_dates durations)

lemma env_fields:
  "current_date_str (all_ok_env d) = d" "mallocs (all_ok_env d) = 1000"
  by (simp_all add: all_ok_env_def)

lemma fits_long_numeral:
  "fits_long x = (- 9223372036854775808 \<le> x \<and> x \<le> 9223372036854775807)"
  by (simp add: fits_long_def LONG_MIN_def LONG_MAX_def)

text \<open>
  Claim C2, as the code has it. One pass of \<open>syncAutoExpire\<close> goes through the list and
  clears \<open>is_active\<close> in exactly the nodes with \<open>is_active = 1\<close> whose remaining days,
  computed in \<open>long\<close>, are negative; it changes no other field, no other node, neither
  counter and no file, and a second pass changes nothing. Whenever the expire day
  (ordinal of the join date plus duration of the type plus bonus days) and its distance to
  today's ordinal fit into a \<open>long\<close>, these are exactly the nodes with \<open>is_active = 1\<close> and
  expire day strictly before today's ordinal.
\<close>

theorem syncAutoExpire_pass:
  "list_all2
     (\<lambda>p p'.
        p' = (if is_active (data p) = 1
                \<and> lsub (ladd (ladd (dateToDays (join_date (data p)))
                            (getDurationDays (membership_type (data p)))) (bonus_days p))
                     (dateToDays (current_date_str e)) < 0
              then p\<lparr>data := (data p)\<lparr>is_active := 0\<rparr>\<rparr> else p)
        \<and> (fits_long (dateToDays (join_date (data p))
               + getDurationDays (membership_type (data p)) + bonus_days p)
            \<and> fits_long (dateToDays (join_date (data p))
               + getDurationDays (membership_type (data p)) + bonus_days p
               - dateToDays (current_date_str e))
           \<longrightarrow> p' = (if is_active (data p) = 1
                       \<and> dateToDays (join_date (data p))
                          + getDurationDays (membership_type (data p)) + bonus_days p
                          < dateToDays (current_date_str e)
                     then p\<lparr>data := (data p)\<lparr>is_active := 0\<rparr>\<rparr> else p)))
     (members s) (members (syncAutoExpire e s))
   \<and> member_count (syncAutoExpire e s) = member_count s
   \<and> next_card_id (syncAutoExpire e s) = next_card_id s
   \<and> disk (syncAutoExpire e s) = disk s
   \<and> syncAutoExpire e (syncAutoExpire e s) = syncAutoExpire e s"
proof -
  let ?t = "dateToDays (current_date_str e)"
  have a: "expire_flip ?t p = (if is_active (data p) = 1
                \<and> lsub (ladd (ladd (dateToDays (join_date (data p)))
                            (getDurationDays (membership_type (data p)))) (bonus_days p)) ?t < 0
              then p\<lparr>data := (data p)\<lparr>is_active := 0\<rparr>\<rparr> else p)" for p
    by (simp add: expire_flip_def calcExpireDays_def)
  have b: "fits_long (dateToDays (join_date (data p))
               + getDurationDays (membership_type (data p)) + bonus_days p)
            \<and> fits_long (dateToDays (join_date (data p))
               + getDurationDays (membership_type (data p)) + bonus_days p - ?t)
           \<longrightarrow> expire_flip ?t p = (if is_active (data p) = 1
                       \<and> dateToDays (join_date (data p))
                          + getDurationDays (membership_type (data p)) + bonus_days p < ?t
                     then p\<lparr>data := (data p)\<lparr>is_active := 0\<rparr>\<rparr> else p)" for p
    using expire_flip_fits [of ?t p] by (simp add: long_safe_def expire_day_def)
  have "list_all2 (\<lambda>p p'. p' = expire_flip ?t p) (members s) (members (syncAutoExpire e s))"
    by (simp add: syncAutoExpire_members list_all2_map2 list_all2_same)
  then have "list_all2
     (\<lambda>p p'.
        p' = (if is_active (data p) = 1
                \<and> lsub (ladd (ladd (dateToDays (join_date (data p)))
                            (getDurationDays (membership_type (data p)))) (bonus_days p)) ?t < 0
              then p\<lparr>data := (data p)\<lparr>is_active := 0\<rparr>\<rparr> else p)
        \<and> (fits_long (dateToDays (join_date (data p))
               + getDurationDays (membership_type (data p)) + bonus_days p)
            \<and> fits_long (dateToDays (join_date (data p))
               + getDurationDays (membership_type (data p)) + bonus_days p - ?t)
           \<longrightarrow> p' = (if is_active (data p) = 1
                       \<and> dateToDays (join_date (data p))
                          + getDurationDays (membership_type (data p)) + bonus_days p < ?t
                     then p\<lparr>data := (data p)\<lparr>is_active := 0\<rparr>\<rparr> else p)))
     (members s) (members (syncAutoExpire e s))"
    by (rule list_all2_mono) (use a b in blast)
  then show ?thesis
    by (simp add: syncAutoExpire_globals syncAutoExpire_idem)
qed

text \<open>
  Scenario 1 and its neighbours: on 2025-01-31 the monthly card of 2025-01-01 is still
  active (expire day equal to today), on 2025-02-01 it is switched off, while the same card
  with 30 bonus days stays active and the inactive record is left alone.
\<close>

theorem syncAutoExpire_pass_witness:
  "members (syncAutoExpire (all_ok_env ''2025-01-31'') example_store)
     = [scenario_member, bonus_member, lapsed_member]
   \<and> members (syncAutoExpire (all_ok_env ''2025-02-01'') example_store)
     = [scenario_member\<lparr>data := (data scenario_member)\<lparr>is_active := 0\<rparr>\<rparr>, bonus_member,
        lapsed_member]
   \<and> member_count (syncAutoExpire (all_ok_env ''2025-02-01'') example_store) = 3"
proof -
  have m: "members example_store = [scenario_member, bonus_member, lapsed_member]"
    "member_count example_store = 3"
    by (simp_all add: example_store_def)
  have w1: "members (syncAutoExpire (all_ok_env ''2025-01-31'') example_store)
     = [scenario_member, bonus_member, lapsed_member]"
    using syncAutoExpire_pass [of "all_ok_env ''2025-01-31''" example_store]
    by (simp add: m list_all2_Cons1 env_fields example_fields scenario_dates durations
          fits_long_numeral)
  have w2: "members (syncAutoExpire (all_ok_env ''2025-02-01'') example_store)
     = [scenario_member\<lparr>data := (data scenario_member)\<lparr>is_active := 0\<rparr>\<rparr>, bonus_member,
        lapsed_member]"
    using syncAutoExpire_pass [of "all_ok_env ''2025-02-01''" example_store]
    by (simp add: m list_all2_Cons1 env_fields example_fields scenario_dates durations
          fits_long_numeral)
  have w3: "member_count (syncAutoExpire (all_ok_env ''2025-02-01'') example_store) = 3"
    using syncAutoExpire_pass [of "all_ok_env ''2025-02-01''" example_store] by (simp add: m)
  show ?thesis using w1 w2 w3 by blast
qed

lemma overflow_line_loads:
  "parse_line (line_with ''2025-01-01'' ''9223372036854775807'') = Some overflow_member"
  "parse_line (line_with ''-999-01-01'' ''-9223372036854775808'') = Some underflow_member"
  by code_simp+

text \<open>
  A record with \<open>is_active = 1\<close> and \<open>bonus_days = LONG_MAX\<close>, as \<open>loadFromFile\<close> accepts it
  from a line of the data file: its expire day lies far after 2025-01-15, but the sum wraps
  around in \<open>long\<close> and the pass switches the record off.
\<close>

theorem syncAutoExpire_overflow_counterexample:
  "parse_line (line_with ''2025-01-01'' ''9223372036854775807'') = Some overflow_member
   \<and> is_active (data overflow_member) = 1
   \<and> dateToDays ''2025-01-15''
       \<le> dateToDays (join_date (data overflow_member))
          + getDurationDays (membership_type (data overflow_member)) + bonus_days overflow_member
   \<and> members (syncAutoExpire (all_ok_env ''2025-01-15'') (single_state overflow_member))
       = [overflow_member\<lparr>data := (data overflow_member)\<lparr>is_active := 0\<rparr>\<rparr>]"
proof -
  have f: "join_date (data overflow_member) = ''2025-01-01''"
    "membership_type (data overflow_member) = type_month"
    "is_active (data overflow_member) = 1"
    "bonus_days overflow_member = 9223372036854775807"
    by (simp_all add: overflow_member_def scenario_member_def)
  have c: "calcExpireDays overflow_member = - 9223372036854036162"
    by (simp add: calcExpireDays_wrap expire_day_def f scenario_dates durations wrap64_def)
  have "lsub (calcExpireDays overflow_member) (dateToDays ''2025-01-15'') < 0"
    by (simp add: c scenario_dates lsub_def wrap64_def)
  then have "members (syncAutoExpire (all_ok_env ''2025-01-15'') (single_state overflow_member))
       = [overflow_member\<lparr>data := (data overflow_member)\<lparr>is_active := 0\<rparr>\<rparr>]"
    by (simp add: syncAutoExpire_def single_state_def env_fields f)
  then show ?thesis
    by (simp add: overflow_line_loads f scenario_dates durations)
qed

subsection \<open>Lookup\<close>

lemma findByCardID_Some:
  "findByCardID i ps = Some j \<Longrightarrow> j < length ps \<and> card_id (data (ps ! j)) = i"
proof (induction ps arbitrary: j)
  case Nil
  then show ?case by simp
next
  case (Cons p ps)
  then show ?case by (auto split: if_splits option.splits)
qed

lemma findByCardID_first: "first_with_card i ps j \<Longrightarrow> findByCardID i ps = Some j"
proof (induction ps arbitrary: j)
  case Nil
  then show ?case by (simp add: first_with_card_def)
next
  case (Cons p ps)
  show ?case
  proof (cases j)
    case 0
    then show ?thesis using Cons.prems by (simp add: first_with_card_def)
  next
    case (Suc k)
    then have "first_with_card i ps k" and "card_id (data p) \<noteq> i"
      using Cons.prems by (simp_all add: first_with_card_def)
    then show ?thesis using Cons.IH [of k] Suc by simp
  qed
qed

lemma findByCardID_absent:
  "list_all (\<lambda>p. card_id (data p) \<noteq> i) ps \<Longrightarrow> findByCardID i ps = None"
  by (induction ps) simp_all

lemma first_with_card_bound: "first_with_card i ps j \<Longrightarrow> j < length ps"
  by (simp add: first_with_card_def)

lemma expire_flip_card_id: "card_id (data (expire_flip t p)) = card_id (data p)"
  by (simp add: expire_flip_def)

lemma findByCardID_map_flip:
  "findByCardID i (map (expire_flip t) ps) = findByCardID i ps"
  by (induction ps) (simp_all add: expire_flip_card_id)

lemma findByCardID_sync:
  "findByCardID i (members (syncAutoExpire e s)) = findByCardID i (members s)"
  by (simp add: syncAutoExpire_members findByCardID_map_flip)

subsection \<open>Renewal\<close>

lemma saveToFile_globals:
  "members (snd (saveToFile e f s)) = members s"
  "member_count (snd (saveToFile e f s)) = member_count s"
  "next_card_id (snd (saveToFile e f s)) = next_card_id s"
  by (simp_all add: saveToFile_def Let_def split: option.splits)

lemma choiceDuration_eq: "choiceDuration c = getDurationDays (choiceType c)"
  by (cases c) (simp_all add: getDurationDays_def type_month_def type_season_def type_year_def)

lemma expire_flip_active_current:
  "Active_Current t p \<Longrightarrow> long_safe t p \<Longrightarrow> expire_flip t p = p"
  by (simp add: Active_Current_def expire_flip_fits)

lemma sync_nth:
  "j < length (members s) \<Longrightarrow>
   members (syncAutoExpire e s) ! j = expire_flip (dateToDays (current_date_str e)) (members s ! j)"
  by (simp add: syncAutoExpire_members)

lemma sync_length: "length (members (syncAutoExpire e s)) = length (members s)"
  by (simp add: syncAutoExpire_members)

lemma Node_rebuild: "\<lparr>data = data p, bonus_days = x\<rparr> = p\<lparr>bonus_days := x\<rparr>"
  by (cases p) simp

lemma renewMember_found:
  "first_with_card i (members s) j \<Longrightarrow>
   renewMember e (Some i) c s = renewDecision e j c (syncAutoExpire e s)"
  by (simp add: renewMember_def Let_def findByCardID_sync findByCardID_first)

lemma sync_one_way:
  "list_all2 (\<lambda>p p'. p' = p \<or> (is_active (data p) = 1 \<and> p' = p\<lparr>data := (data p)\<lparr>is_active := 0\<rparr>\<rparr>))
     (members s) (members (syncAutoExpire e s))"
  by (simp add: syncAutoExpire_members list_all2_map2 list_all2_same expire_flip_def)

lemma renewMember_extend:
  assumes f: "first_with_card i (members s) j"
    and a: "Active_Current (dateToDays (current_date_str e)) (members s ! j)"
    and l: "long_safe (dateToDays (current_date_str e)) (members s ! j)"
    and b: "fits_long (bonus_days (members s ! j) + getDurationDays (choiceType c))"
    and t: "choiceType c = membership_type (data (members s ! j))"
  shows "renewMember e (Some i) c s
     = (RenewExtended,
        snd (saveToFile e DATA_FILE
          ((syncAutoExpire e s)\<lparr>members := (members (syncAutoExpire e s))[j :=
             (members s ! j)\<lparr>bonus_days :=
                bonus_days (members s ! j) + getDurationDays (choiceType c)\<rparr>]\<rparr>)))"
proof -
  let ?s1 = "syncAutoExpire e s"
  let ?p = "members s ! j"
  have j: "j < length (members s)" using f by (rule first_with_card_bound)
  have n: "members ?s1 ! j = ?p" using j a l by (simp add: sync_nth expire_flip_active_current)
  have act: "is_active (data ?p) = 1" using a by (simp add: Active_Current_def)
  have cur: "\<not> calcExpireDays ?p < dateToDays (current_date_str e)"
    using a l by (simp add: Active_Current_def long_safe_def calcExpireDays_fits)
  have d: "(data ?p)\<lparr>is_active := 1\<rparr> = data ?p" using act by simp
  have w: "ladd (bonus_days ?p) (choiceDuration c)
      = bonus_days ?p + getDurationDays (choiceType c)"
    using b by (simp add: ladd_def fits_long_wrap choiceDuration_eq)
  have "renewDecision e j c ?s1
     = (RenewExtended,
        snd (saveToFile e DATA_FILE
          (?s1\<lparr>members := (members ?s1)[j :=
             ?p\<lparr>bonus_days := bonus_days ?p + getDurationDays (choiceType c)\<rparr>]\<rparr>)))"
    using act cur t by (simp add: renewDecision_def Let_def n d w Node_rebuild)
  then show ?thesis using f by (simp add: renewMember_found)
qed

lemma renewMember_mismatch:
  assumes f: "first_with_card i (members s) j"
    and a: "Active_Current (dateToDays (current_date_str e)) (members s ! j)"
    and l: "long_safe (dateToDays (current_date_str e)) (members s ! j)"
    and t: "choiceType c \<noteq> membership_type (data (members s ! j))"
  shows "renewMember e (Some i) c s = (RenewTypeMismatch, syncAutoExpire e s)"
    and "members (syncAutoExpire e s) ! j = members s ! j"
proof -
  let ?s1 = "syncAutoExpire e s"
  let ?p = "members s ! j"
  have j: "j < length (members s)" using f by (rule first_with_card_bound)
  show n: "members ?s1 ! j = ?p" using j a l by (simp add: sync_nth expire_flip_active_current)
  have act: "is_active (data ?p) = 1" using a by (simp add: Active_Current_def)
  have cur: "\<not> calcExpireDays ?p < dateToDays (current_date_str e)"
    using a l by (simp add: Active_Current_def long_safe_def calcExpireDays_fits)
  have "renewDecision e j c ?s1 = (RenewTypeMismatch, ?s1)"
    using act cur t by (simp add: renewDecision_def Let_def n)
  then show "renewMember e (Some i) c s = (RenewTypeMismatch, ?s1)"
    using f by (simp add: renewMember_found)
qed

text \<open>
  Claim C3, as the code has it. \<open>renewMember\<close> first runs \<open>syncAutoExpire\<close> over the whole
  list, which may switch other nodes off, and then looks the card number up. Let the node
  found be Active-Current (\<open>is_active = 1\<close>, expire day not before today's ordinal), with an
  expire day and a distance to today that fit into a \<open>long\<close>. A renewal with the node's own
  type, when the new bonus fits into a \<open>long\<close>, adds exactly \<open>getDurationDays\<close> of the type to
  \<open>bonus_days\<close>, changes no other field of the node and saves; the other nodes and the
  counters are those of the synchronized store. A renewal with another type is refused:
  the node is as before and the store is the synchronized one.
\<close>

theorem renew_active_current:
  "(first_with_card i (members s) j
      \<and> Active_Current (dateToDays (current_date_str e)) (members s ! j)
      \<and> long_safe (dateToDays (current_date_str e)) (members s ! j)
      \<and> fits_long (bonus_days (members s ! j) + getDurationDays (choiceType c))
      \<and> choiceType c = membership_type (data (members s ! j))
    \<longrightarrow> renewMember e (Some i) c s
          = (RenewExtended,
             snd (saveToFile e DATA_FILE
               ((syncAutoExpire e s)\<lparr>members := (members (syncAutoExpire e s))[j :=
                  (members s ! j)\<lparr>bonus_days :=
                     bonus_days (members s ! j) + getDurationDays (choiceType c)\<rparr>]\<rparr>)))
        \<and> members (snd (renewMember e (Some i) c s))
            = (members (syncAutoExpire e s))[j :=
                 (members s ! j)\<lparr>bonus_days :=
                    bonus_days (members s ! j) + getDurationDays (choiceType c)\<rparr>]
        \<and> member_count (snd (renewMember e (Some i) c s)) = member_count s
        \<and> next_card_id (snd (renewMember e (Some i) c s)) = next_card_id s)
   \<and> (first_with_card i (members s) j
      \<and> Active_Current (dateToDays (current_date_str e)) (members s ! j)
      \<and> long_safe (dateToDays (current_date_str e)) (members s ! j)
      \<and> choiceType c \<noteq> membership_type (data (members s ! j))
    \<longrightarrow> renewMember e (Some i) c s = (RenewTypeMismatch, syncAutoExpire e s)
        \<and> members (syncAutoExpire e s) ! j = members s ! j)
   \<and> list_all2
        (\<lambda>p p'. p' = p \<or> (is_active (data p) = 1 \<and> p' = p\<lparr>data := (data p)\<lparr>is_active := 0\<rparr>\<rparr>))
        (members s) (members (syncAutoExpire e s))"
proof (intro conjI impI)
  assume h: "first_with_card i (members s) j
      \<and> Active_Current (dateToDays (current_date_str e)) (members s ! j)
      \<and> long_safe (dateToDays (current_date_str e)) (members s ! j)
      \<and> fits_long (bonus_days (members s ! j) + getDurationDays (choiceType c))
      \<and> choiceType c = membership_type (data (members s ! j))"
  then have r: "renewMember e (Some i) c s
          = (RenewExtended,
             snd (saveToFile e DATA_FILE
               ((syncAutoExpire e s)\<lparr>members := (members (syncAutoExpire e s))[j :=
                  (members s ! j)\<lparr>bonus_days :=
                     bonus_days (members s ! j) + getDurationDays (choiceType c)\<rparr>]\<rparr>)))"
    using renewMember_extend [of i s j e c] by blast
  show "renewMember e (Some i) c s
          = (RenewExtended,
             snd (saveToFile e DATA_FILE
               ((syncAutoExpire e s)\<lparr>members := (members (syncAutoExpire e s))[j :=
                  (members s ! j)\<lparr>bonus_days :=
                     bonus_days (members s ! j) + getDurationDays (choiceType c)\<rparr>]\<rparr>)))"
    by (rule r)
  show "members (snd (renewMember e (Some i) c s))
            = (members (syncAutoExpire e s))[j :=
                 (members s ! j)\<lparr>bonus_days :=
                    bonus_days (members s ! j) + getDurationDays (choiceType c)\<rparr>]"
    by (simp add: r saveToFile_globals)
  show "member_count (snd (renewMember e (Some i) c s)) = member_count s"
    by (simp add: r saveToFile_globals syncAutoExpire_globals)
  show "next_card_id (snd (renewMember e (Some i) c s)) = next_card_id s"
    by (simp add: r saveToFile_globals syncAutoExpire_globals)
next
  assume h: "first_with_card i (members s) j
      \<and> Active_Current (dateToDays (current_date_str e)) (members s ! j)
      \<and> long_safe (dateToDays (current_date_str e)) (members s ! j)
      \<and> choiceType c \<noteq> membership_type (data (members s ! j))"
  then show "renewMember e (Some i) c s = (RenewTypeMismatch, syncAutoExpire e s)"
    using renewMember_mismatch(1) [of i s j e c] by blast
  from h show "members (syncAutoExpire e s) ! j = members s ! j"
    using renewMember_mismatch(2) [of i s j e c] by blast
next
  show "list_all2
        (\<lambda>p p'. p' = p \<or> (is_active (data p) = 1 \<and> p' = p\<lparr>data := (data p)\<lparr>is_active := 0\<rparr>\<rparr>))
        (members s) (members (syncAutoExpire e s))"
    by (rule sync_one_way)
qed

lemma example_members:
  "members example_store = [scenario_member, bonus_member, lapsed_member]"
  "member_count example_store = 3" "next_card_id example_store = 1004"
  by (simp_all add: example_store_def)

lemma example_first:
  "first_with_card 1001 (members example_store) 0"
  "first_with_card 1002 (members example_store) 1"
  "first_with_card 1003 (members example_store) 2"
  "list_all (\<lambda>p. card_id (data p) \<noteq> 7) (members example_store)"
  by (simp_all add: first_with_card_def example_members example_fields)

lemma example_flip:
  assumes "739647 < t" "t \<le> 739677"
  shows "expire_flip t scenario_member
      = scenario_member\<lparr>data := (data scenario_member)\<lparr>is_active := 0\<rparr>\<rparr>"
    and "expire_flip t bonus_member = bonus_member"
    and "expire_flip t lapsed_member = lapsed_member"
proof -
  have "long_safe t scenario_member" "long_safe t bonus_member"
    using assms by (simp_all add: long_safe_def example_expire fits_long_numeral)
  then show "expire_flip t scenario_member
      = scenario_member\<lparr>data := (data scenario_member)\<lparr>is_active := 0\<rparr>\<rparr>"
    and "expire_flip t bonus_member = bonus_member"
    using assms by (simp_all add: expire_flip_fits example_expire example_fields)
  show "expire_flip t lapsed_member = lapsed_member"
    by (simp add: expire_flip_def example_fields)
qed

lemma example_sync:
  "members (syncAutoExpire (all_ok_env ''2025-02-15'') example_store)
     = [scenario_member\<lparr>data := (data scenario_member)\<lparr>is_active := 0\<rparr>\<rparr>, bonus_member,
        lapsed_member]"
  "members (syncAutoExpire (all_ok_env ''2025-03-01'') example_store)
     = [scenario_member\<lparr>data := (data scenario_member)\<lparr>is_active := 0\<rparr>\<rparr>, bonus_member,
        lapsed_member]"
  by (simp_all add: syncAutoExpire_members env_fields example_members scenario_dates example_flip)

lemma type_distinct:
  "type_year \<noteq> type_month" "type_season \<noteq> type_month" "type_year \<noteq> type_season"
  by (simp_all add: type_year_def type_month_def type_season_def)

text \<open>
  On 2025-02-15 the card 1002 (monthly of 2025-01-01 with 30 bonus days, second in the
  list) is Active-Current thanks to its bonus days. A monthly renewal gives it 60 bonus
  days; a yearly renewal is refused. In both cases the first record of the list, whose
  time is up, has been switched off by the leading synchronization.
\<close>

theorem renew_active_current_witness:
  "fst (renewMember (all_ok_env ''2025-02-15'') (Some 1002) Choice1 example_store) = RenewExtended
   \<and> members (snd (renewMember (all_ok_env ''2025-02-15'') (Some 1002) Choice1 example_store))
     = [scenario_member\<lparr>data := (data scenario_member)\<lparr>is_active := 0\<rparr>\<rparr>,
        bonus_member\<lparr>bonus_days := 60\<rparr>, lapsed_member]
   \<and> renewMember (all_ok_env ''2025-02-15'') (Some 1002) Choice3 example_store
     = (RenewTypeMismatch, syncAutoExpire (all_ok_env ''2025-02-15'') example_store)"
proof -
  let ?e = "all_ok_env ''2025-02-15''"
  have a: "Active_Current (dateToDays (current_date_str ?e)) (members example_store ! 1)"
    by (simp add: Active_Current_def example_members env_fields scenario_dates example_expire
          example_fields)
  have l: "long_safe (dateToDays (current_date_str ?e)) (members example_store ! 1)"
    by (simp add: long_safe_def example_members env_fields scenario_dates example_expire
          fits_long_numeral)
  have b: "fits_long (bonus_days (members example_store ! 1) + getDurationDays (choiceType Choice1))"
    by (simp add: example_members example_fields durations fits_long_numeral)
  have t: "choiceType Choice1 = membership_type (data (members example_store ! 1))"
    "choiceType Choice3 \<noteq> membership_type (data (members example_store ! 1))"
    by (simp_all add: example_members example_fields type_distinct)
  have w1: "fst (renewMember ?e (Some 1002) Choice1 example_store) = RenewExtended
   \<and> members (snd (renewMember ?e (Some 1002) Choice1 example_store))
     = [scenario_member\<lparr>data := (data scenario_member)\<lparr>is_active := 0\<rparr>\<rparr>,
        bonus_member\<lparr>bonus_days := 60\<rparr>, lapsed_member]"
  proof -
    have "fst (renewMember ?e (Some 1002) Choice1 example_store) = RenewExtended
      \<and> members (snd (renewMember ?e (Some 1002) Choice1 example_store))
            = (members (syncAutoExpire ?e example_store))[1 :=
                 (members example_store ! 1)\<lparr>bonus_days :=
                    bonus_days (members example_store ! 1)
                      + getDurationDays (choiceType Choice1)\<rparr>]"
      using renew_active_current [of 1002 example_store 1 ?e Choice1] example_first(2) a l b t(1)
      by (simp add: saveToFile_globals)
    then show ?thesis
      by (simp add: example_sync example_members example_fields durations)
  qed
  have w2: "renewMember ?e (Some 1002) Choice3 example_store
     = (RenewTypeMismatch, syncAutoExpire ?e example_store)"
    using renew_active_current [of 1002 example_store 1 ?e Choice3] example_first(2) a l t(2)
    by blast
  show ?thesis using w1 w2 by blast
qed

lemma far_member_loads:
  "parse_line (line_with ''2025-01-01'' ''9223372036854036190'') = Some far_member"
  by code_simp

text \<open>
  Two renewals of Active-Current records that do not go as the claim says. A yearly
  renewal of the monthly card 1002 on 2025-02-15 is refused, yet the store is not as it
  was: the first record has been switched off. And a monthly record with
  \<open>bonus_days = 9223372036854036190\<close>, as \<open>loadFromFile\<close> accepts it, has its expire day
  beyond the \<open>long\<close> range: the sum wraps around, and the monthly renewal restarts the
  record with \<open>bonus_days = 0\<close> instead of adding 30.
\<close>

theorem renew_active_current_counterexample:
  "first_with_card 1002 (members example_store) 1
   \<and> Active_Current (dateToDays ''2025-02-15'') (members example_store ! 1)
   \<and> choiceType Choice3 \<noteq> membership_type (data (members example_store ! 1))
   \<and> fst (renewMember (all_ok_env ''2025-02-15'') (Some 1002) Choice3 example_store)
       = RenewTypeMismatch
   \<and> members example_store = [scenario_member, bonus_member, lapsed_member]
   \<and> members (snd (renewMember (all_ok_env ''2025-02-15'') (Some 1002) Choice3 example_store))
       = [scenario_member\<lparr>data := (data scenario_member)\<lparr>is_active := 0\<rparr>\<rparr>, bonus_member,
          lapsed_member]
   \<and> is_active (data scenario_member) = 1
   \<and> parse_line (line_with ''2025-01-01'' ''9223372036854036190'') = Some far_member
   \<and> Active_Current (dateToDays ''2025-01-15'') far_member
   \<and> choiceType Choice1 = membership_type (data far_member)
   \<and> fst (renewMember (all_ok_env ''2025-01-15'') (Some 1001) Choice1 (single_state far_member))
       = RenewRestarted
   \<and> map bonus_days (members (snd (renewMember (all_ok_env ''2025-01-15'') (Some 1001) Choice1
        (single_state far_member)))) = [0]"
proof -
  let ?e = "all_ok_env ''2025-02-15''"
  let ?e' = "all_ok_env ''2025-01-15''"
  have a: "Active_Current (dateToDays ''2025-02-15'') (members example_store ! 1)"
    by (simp add: Active_Current_def example_members scenario_dates example_expire example_fields)
  have t: "choiceType Choice3 \<noteq> membership_type (data (members example_store ! 1))"
    by (simp add: example_members example_fields type_distinct)
  have r: "renewMember ?e (Some 1002) Choice3 example_store
      = (RenewTypeMismatch, syncAutoExpire ?e example_store)"
  proof -
    have a2: "Active_Current (dateToDays (current_date_str ?e)) (members example_store ! 1)"
      using a by (simp add: env_fields)
    have l2: "long_safe (dateToDays (current_date_str ?e)) (members example_store ! 1)"
      by (simp add: long_safe_def example_members env_fields scenario_dates example_expire
            fits_long_numeral)
    show ?thesis by (rule renewMember_mismatch(1) [OF example_first(2) a2 l2 t])
  qed
  have f: "join_date (data far_member) = ''2025-01-01''"
    "membership_type (data far_member) = type_month" "is_active (data far_member) = 1"
    "bonus_days far_member = 9223372036854036190" "card_id (data far_member) = 1001"
    by (simp_all add: far_member_def scenario_member_def)
  have x: "expire_day far_member = 9223372036854775837"
    by (simp add: expire_day_def f scenario_dates durations)
  have fa: "Active_Current (dateToDays ''2025-01-15'') far_member"
    by (simp add: Active_Current_def f x scenario_dates)
  have c: "calcExpireDays far_member = - 9223372036854775779"
    by (simp add: calcExpireDays_wrap x wrap64_def)
  have fl: "expire_flip 739631 far_member = far_member"
    by (simp add: expire_flip_def f c lsub_def wrap64_def)
  have fr: "fst (renewMember ?e' (Some 1001) Choice1 (single_state far_member)) = RenewRestarted"
    "map bonus_days (members (snd (renewMember ?e' (Some 1001) Choice1
        (single_state far_member)))) = [0]"
    by (simp_all add: renewMember_def Let_def syncAutoExpire_members single_state_def env_fields
          scenario_dates fl f c renewDecision_def saveToFile_globals)
  have m: "members (snd (renewMember ?e (Some 1002) Choice3 example_store))
       = [scenario_member\<lparr>data := (data scenario_member)\<lparr>is_active := 0\<rparr>\<rparr>, bonus_member,
          lapsed_member]"
    by (simp add: r example_sync)
  have k: "fst (renewMember ?e (Some 1002) Choice3 example_store) = RenewTypeMismatch"
    by (simp add: r)
  have c1: "choiceType Choice1 = membership_type (data far_member)" by (simp add: f)
  show ?thesis
    using example_first(2) a t k example_members(1) m example_fields(3) far_member_loads fa c1 fr
    by blast
qed

lemma stays_refl: "stays p p"
  by (simp add: stays_def reactivated_def type_changed_def)

lemma stays_flip: "stays p (expire_flip t p)"
  by (simp add: stays_def reactivated_def type_changed_def expire_flip_def)

lemma stays_all_refl: "list_all2 stays ps ps"
  by (simp add: list_all2_same stays_refl)

lemma stays_all_flip: "list_all2 stays ps (map (expire_flip t) ps)"
  by (simp add: list_all2_map2 list_all2_same stays_flip)

lemma stays_all_sync: "list_all2 stays (members s) (members (syncAutoExpire e s))"
  by (simp add: syncAutoExpire_members stays_all_flip)

lemma list_all2_same_update:
  "(\<And>x. P x x) \<Longrightarrow> j < length xs \<Longrightarrow> P (xs ! j) y \<Longrightarrow> list_all2 P xs (xs[j := y])"
  by (auto simp: list_all2_conv_all_nth nth_list_update)

lemma restarted_flip: "restarted e c (expire_flip t p) = restarted e c p"
  by (simp add: restarted_def expire_flip_def)

lemma renewDecision_restart:
  assumes "is_active (data (members s ! j)) = 0
      \<or> calcExpireDays (members s ! j) < dateToDays (current_date_str e)"
  shows "renewDecision e j c s
     = (RenewRestarted,
        snd (saveToFile e DATA_FILE (s\<lparr>members := (members s)[j := restarted e c (members s ! j)]\<rparr>)))"
  using assms by (auto simp: renewDecision_def Let_def restarted_def)

lemma flip_restarts:
  assumes "is_active (data p) = 0 \<or> (fits_long (expire_day p) \<and> expire_day p < t)"
  shows "is_active (data (expire_flip t p)) = 0 \<or> calcExpireDays (expire_flip t p) < t"
  using assms by (auto simp: expire_flip_def calcExpireDays_flag calcExpireDays_fits)

lemma renewMember_restart:
  assumes f: "first_with_card i (members s) j"
    and p: "is_active (data (members s ! j)) = 0
      \<or> (fits_long (expire_day (members s ! j))
          \<and> expire_day (members s ! j) < dateToDays (current_date_str e))"
  shows "renewMember e (Some i) c s
     = (RenewRestarted,
        snd (saveToFile e DATA_FILE
          ((syncAutoExpire e s)\<lparr>members :=
             (members (syncAutoExpire e s))[j := restarted e c (members s ! j)]\<rparr>)))"
proof -
  let ?s1 = "syncAutoExpire e s"
  let ?t = "dateToDays (current_date_str e)"
  have j: "j < length (members s)" using f by (rule first_with_card_bound)
  have n: "members ?s1 ! j = expire_flip ?t (members s ! j)" using j by (rule sync_nth)
  have "is_active (data (members ?s1 ! j)) = 0 \<or> calcExpireDays (members ?s1 ! j) < ?t"
    unfolding n using p by (rule flip_restarts)
  then have "renewDecision e j c ?s1
     = (RenewRestarted,
        snd (saveToFile e DATA_FILE (?s1\<lparr>members := (members ?s1)[j := restarted e c (members ?s1 ! j)]\<rparr>)))"
    by (rule renewDecision_restart)
  then show ?thesis using f by (simp add: renewMember_found n restarted_flip)
qed

lemma renewDecision_trace:
  assumes j: "j < length (members s)"
  shows "list_all2
     (\<lambda>p p'. stays p p'
        \<or> ((is_active (data p) = 0 \<or> calcExpireDays p < dateToDays (current_date_str e))
            \<and> p' = restarted e c p))
     (members s) (members (snd (renewDecision e j c s)))"
proof -
  let ?p = "members s ! j"
  let ?t = "dateToDays (current_date_str e)"
  let ?R = "\<lambda>p p'. stays p p'
        \<or> ((is_active (data p) = 0 \<or> calcExpireDays p < ?t) \<and> p' = restarted e c p)"
  have refl: "\<And>x. ?R x x" by (simp add: stays_refl)
  consider (restart) "is_active (data ?p) = 0 \<or> calcExpireDays ?p < ?t"
    | (mismatch) "\<not> (is_active (data ?p) = 0 \<or> calcExpireDays ?p < ?t)"
        "choiceType c \<noteq> membership_type (data ?p)"
    | (extend) "\<not> (is_active (data ?p) = 0 \<or> calcExpireDays ?p < ?t)"
        "choiceType c = membership_type (data ?p)"
    by blast
  then show ?thesis
  proof cases
    case restart
    have "?R ?p (restarted e c ?p)" using restart by simp
    then have "list_all2 ?R (members s) ((members s)[j := restarted e c ?p])"
      using j refl by (intro list_all2_same_update) simp_all
    then show ?thesis
      by (simp add: renewDecision_restart [OF restart] saveToFile_globals)
  next
    case mismatch
    then have "renewDecision e j c s = (RenewTypeMismatch, s)"
      by (simp add: renewDecision_def Let_def)
    then show ?thesis using refl by (simp add: list_all2_same)
  next
    case extend
    then have m: "members (snd (renewDecision e j c s))
        = (members s)[j := \<lparr>data = (data ?p)\<lparr>is_active := 1\<rparr>,
                             bonus_days = ladd (bonus_days ?p) (choiceDuration c)\<rparr>]"
      by (simp add: renewDecision_def Let_def saveToFile_globals)
    have "is_active (data ?p) \<noteq> 0" using extend by simp
    then have "?R ?p \<lparr>data = (data ?p)\<lparr>is_active := 1\<rparr>,
                             bonus_days = ladd (bonus_days ?p) (choiceDuration c)\<rparr>"
      by (simp add: stays_def reactivated_def type_changed_def)
    then show ?thesis
      unfolding m using j refl by (intro list_all2_same_update) simp_all
  qed
qed

lemma flip_posture:
  assumes "is_active (data (expire_flip t p)) = 0 \<or> calcExpireDays (expire_flip t p) < t"
    and "long_safe t p"
  shows "Expired_or_Inactive t p"
proof (cases "is_active (data p) = 1 \<and> expire_day p < t")
  case True
  then show ?thesis by (simp add: Expired_or_Inactive_def)
next
  case False
  then have "expire_flip t p = p" using assms(2) by (simp add: expire_flip_fits)
  moreover have "calcExpireDays p = expire_day p"
    using assms(2) by (simp add: long_safe_def calcExpireDays_fits)
  ultimately show ?thesis using assms(1) by (simp add: Expired_or_Inactive_def)
qed

lemma stays_after_flip: "stays (expire_flip t p) p' \<Longrightarrow> stays p p'"
  by (auto simp: stays_def reactivated_def type_changed_def expire_flip_def split: if_splits)

lemma renew_trace_flip:
  assumes "stays (expire_flip (dateToDays (current_date_str e)) p) p'
      \<or> ((is_active (data (expire_flip (dateToDays (current_date_str e)) p)) = 0
            \<or> calcExpireDays (expire_flip (dateToDays (current_date_str e)) p)
                < dateToDays (current_date_str e))
          \<and> p' = restarted e c (expire_flip (dateToDays (current_date_str e)) p))"
  shows "renew_trace e c p p'"
  using assms
proof
  assume "stays (expire_flip (dateToDays (current_date_str e)) p) p'"
  then show ?thesis by (simp add: renew_trace_def stays_after_flip)
next
  assume "(is_active (data (expire_flip (dateToDays (current_date_str e)) p)) = 0
            \<or> calcExpireDays (expire_flip (dateToDays (current_date_str e)) p)
                < dateToDays (current_date_str e))
          \<and> p' = restarted e c (expire_flip (dateToDays (current_date_str e)) p)"
  then show ?thesis using flip_posture [of "dateToDays (current_date_str e)" p]
    by (auto simp: renew_trace_def restarted_flip)
qed

lemma renewMember_trace:
  "list_all2 (renew_trace e c) (members s) (members (snd (renewMember e input c s)))"
proof -
  let ?s1 = "syncAutoExpire e s"
  let ?t = "dateToDays (current_date_str e)"
  have base: "list_all2 (renew_trace e c) (members s) (members ?s1)"
    using stays_all_sync [of s e]
    by (rule list_all2_mono) (simp add: renew_trace_def)
  show ?thesis
  proof (cases input)
    case None
    then show ?thesis using base by (simp add: renewMember_def Let_def)
  next
    case (Some i)
    show ?thesis
    proof (cases "findByCardID i (members ?s1)")
      case None
      then show ?thesis using base Some by (simp add: renewMember_def Let_def)
    next
      case (Some j)
      then have j: "j < length (members ?s1)" using findByCardID_Some by blast
      have r: "renewMember e input c s = renewDecision e j c ?s1"
        using Some \<open>input = Some i\<close> by (simp add: renewMember_def Let_def)
      have "list_all2
         (\<lambda>p p'. stays p p'
            \<or> ((is_active (data p) = 0 \<or> calcExpireDays p < ?t) \<and> p' = restarted e c p))
         (map (expire_flip ?t) (members s)) (members (snd (renewDecision e j c ?s1)))"
        using renewDecision_trace [OF j, of e c] by (simp add: syncAutoExpire_members)
      then have "list_all2
         (\<lambda>p p'. stays (expire_flip ?t p) p'
            \<or> ((is_active (data (expire_flip ?t p)) = 0 \<or> calcExpireDays (expire_flip ?t p) < ?t)
                \<and> p' = restarted e c (expire_flip ?t p)))
         (members s) (members (snd (renewDecision e j c ?s1)))"
        by (simp add: list_all2_map1)
      then show ?thesis
        unfolding r by (rule list_all2_mono) (rule renew_trace_flip)
    qed
  qed
qed

lemma addMember_members:
  "members (snd (addMember e nm gd ag ph c s)) = members s
   \<or> members (snd (addMember e nm gd ag ph c s))
       = members s @ [\<lparr>data = \<lparr>card_id = next_card_id s, name = nm, gender = gd, age = ag,
                               phone = ph, join_date = current_date_str e,
                               membership_type = choiceType c, is_active = 1\<rparr>,
                       bonus_days = 0\<rparr>]"
  by (auto simp: addMember_def Let_def saveToFile_globals appendNode_def createNode_def)

lemma stays_phone:
  "list_all2 stays (members s) (members (snd (updateMemberPhone e input ph s)))"
proof (cases input)
  case None
  then show ?thesis by (simp add: updateMemberPhone_def stays_all_refl)
next
  case (Some i)
  show ?thesis
  proof (cases "findByCardID i (members s)")
    case None
    then show ?thesis using Some by (simp add: updateMemberPhone_def stays_all_refl)
  next
    case (Some j)
    then have j: "j < length (members s)" using findByCardID_Some by blast
    have "stays (members s ! j) ((members s ! j)\<lparr>data := (data (members s ! j))\<lparr>phone := ph\<rparr>\<rparr>)"
      by (simp add: stays_def reactivated_def type_changed_def)
    then show ?thesis
      using Some \<open>input = Some i\<close> j
      by (simp add: updateMemberPhone_def Let_def saveToFile_globals list_all2_same_update
            stays_refl)
  qed
qed

lemma stays_status:
  "list_all2 stays (members s) (members (snd (updateMemberStatus e input s)))"
proof (cases input)
  case None
  then show ?thesis by (simp add: updateMemberStatus_def stays_all_refl)
next
  case (Some i)
  show ?thesis
  proof (cases "findByCardID i (members s)")
    case None
    then show ?thesis using Some by (simp add: updateMemberStatus_def stays_all_refl)
  next
    case (Some j)
    then have j: "j < length (members s)" using findByCardID_Some by blast
    have "stays (members s ! j) ((members s ! j)\<lparr>data := (data (members s ! j))\<lparr>is_active := 0\<rparr>\<rparr>)"
      by (simp add: stays_def reactivated_def type_changed_def)
    then show ?thesis
      using Some \<open>input = Some i\<close> j
      by (simp add: updateMemberStatus_def Let_def saveToFile_globals list_all2_same_update
            stays_refl stays_all_refl)
  qed
qed

lemma stays_unlink:
  "list_all2 stays (take j ms @ drop (Suc j) ms)
     (take j (map (expire_flip t) ms) @ drop (Suc j) (map (expire_flip t) ms))"
  by (intro list_all2_appendI list_all2_takeI list_all2_dropI stays_all_flip)

lemma deleteExpiredMember_members:
  "members (snd (deleteExpiredMember e input s)) = members (syncAutoExpire e s)
   \<or> (\<exists>j. members (snd (deleteExpiredMember e input s))
         = take j (members (syncAutoExpire e s)) @ drop (Suc j) (members (syncAutoExpire e s)))"
  by (auto simp: deleteExpiredMember_def Let_def saveToFile_globals split: option.splits)

lemma stays_delete:
  "\<exists>k. list_all2 stays (take k (members s) @ drop (Suc k) (members s))
         (members (snd (deleteExpiredMember e input s)))"
  using deleteExpiredMember_members [of e input s]
proof
  assume m: "members (snd (deleteExpiredMember e input s)) = members (syncAutoExpire e s)"
  have "list_all2 stays (take (length (members s)) (members s)
      @ drop (Suc (length (members s))) (members s)) (members (syncAutoExpire e s))"
    by (simp add: stays_all_sync)
  then show ?thesis unfolding m by (rule exI)
next
  assume "\<exists>j. members (snd (deleteExpiredMember e input s))
         = take j (members (syncAutoExpire e s)) @ drop (Suc j) (members (syncAutoExpire e s))"
  then obtain j where m: "members (snd (deleteExpiredMember e input s))
         = take j (members (syncAutoExpire e s)) @ drop (Suc j) (members (syncAutoExpire e s))"
    by blast
  have "list_all2 stays (take j (members s) @ drop (Suc j) (members s))
      (members (snd (deleteExpiredMember e input s)))"
    unfolding m by (simp only: syncAutoExpire_members stays_unlink)
  then show ?thesis by (rule exI)
qed

lemma stays_menu:
  "\<not> is_renew call \<Longrightarrow> \<not> is_add call \<Longrightarrow> \<not> is_delete call \<Longrightarrow>
   list_all2 stays (members s) (members (menu_step e call s))"
  by (cases call)
     (simp_all add: showAllMembers_def searchByCardID_def searchByName_def showStatistics_def
        stays_all_sync stays_phone stays_status)

text \<open>
  Claim C4, as the code has it. Let the node a card number denotes be Expired-or-Inactive
  (\<open>is_active = 0\<close>, or expire day before today's ordinal), and when it is so by its expire
  day alone, let the expire day fit into a \<open>long\<close>. Then \<open>renewMember\<close> with any of the three
  choices succeeds: it sets \<open>join_date\<close> to today, \<open>membership_type\<close> to the chosen type,
  \<open>is_active\<close> to 1 and \<open>bonus_days\<close> to 0 in that node, leaves the other nodes as the leading
  synchronization left them, and saves. Under \<open>renewMember\<close> a node is reactivated or
  changes its type only by this transition, which is taken from the Expired-or-Inactive
  posture whenever the expire day and its distance to today fit into a \<open>long\<close>. No other
  operation of the menu reactivates a node or changes a type: \<open>addMember\<close> leaves the list
  as it is or appends one new active node with the next card number,
  \<open>deleteExpiredMember\<close> unlinks at most one node, and the remaining operations keep every
  node in its place.
\<close>

theorem renew_expired_or_inactive:
  "(first_with_card i (members s) j
      \<and> Expired_or_Inactive (dateToDays (current_date_str e)) (members s ! j)
      \<and> (is_active (data (members s ! j)) = 0 \<or> fits_long (expire_day (members s ! j)))
    \<longrightarrow> renewMember e (Some i) c s
          = (RenewRestarted,
             snd (saveToFile e DATA_FILE
               ((syncAutoExpire e s)\<lparr>members := (members (syncAutoExpire e s))[j :=
                  \<lparr>data = (data (members s ! j))\<lparr>join_date := current_date_str e,
                     membership_type := choiceType c, is_active := 1\<rparr>, bonus_days = 0\<rparr>]\<rparr>)))
        \<and> members (snd (renewMember e (Some i) c s))
            = (members (syncAutoExpire e s))[j :=
                 \<lparr>data = (data (members s ! j))\<lparr>join_date := current_date_str e,
                    membership_type := choiceType c, is_active := 1\<rparr>, bonus_days = 0\<rparr>])
   \<and> list_all2
        (\<lambda>p p'. (\<not> reactivated p p' \<and> \<not> type_changed p p')
           \<or> ((long_safe (dateToDays (current_date_str e)) p
                 \<longrightarrow> Expired_or_Inactive (dateToDays (current_date_str e)) p)
               \<and> p' = \<lparr>data = (data p)\<lparr>join_date := current_date_str e,
                          membership_type := choiceType c, is_active := 1\<rparr>, bonus_days = 0\<rparr>))
        (members s) (members (snd (renewMember e input c s)))
   \<and> (members (menu_step e (CallAdd nm gd ag ph ch) s) = members s
      \<or> members (menu_step e (CallAdd nm gd ag ph ch) s)
          = members s @ [\<lparr>data = \<lparr>card_id = next_card_id s, name = nm, gender = gd, age = ag,
                                  phone = ph, join_date = current_date_str e,
                                  membership_type = choiceType ch, is_active = 1\<rparr>,
                          bonus_days = 0\<rparr>])
   \<and> (\<exists>k. list_all2 (\<lambda>p p'. \<not> reactivated p p' \<and> \<not> type_changed p p')
            (take k (members s) @ drop (Suc k) (members s))
            (members (menu_step e (CallDelete input) s)))
   \<and> (\<not> is_renew call \<and> \<not> is_add call \<and> \<not> is_delete call
    \<longrightarrow> list_all2 (\<lambda>p p'. \<not> reactivated p p' \<and> \<not> type_changed p p')
          (members s) (members (menu_step e call s)))"
proof (intro conjI impI)
  assume h: "first_with_card i (members s) j
      \<and> Expired_or_Inactive (dateToDays (current_date_str e)) (members s ! j)
      \<and> (is_active (data (members s ! j)) = 0 \<or> fits_long (expire_day (members s ! j)))"
  then have f: "first_with_card i (members s) j" by simp
  have p: "is_active (data (members s ! j)) = 0
      \<or> (fits_long (expire_day (members s ! j))
          \<and> expire_day (members s ! j) < dateToDays (current_date_str e))"
    using h by (auto simp: Expired_or_Inactive_def)
  note r = renewMember_restart [OF f p, of c, unfolded restarted_def]
  show "renewMember e (Some i) c s
          = (RenewRestarted,
             snd (saveToFile e DATA_FILE
               ((syncAutoExpire e s)\<lparr>members := (members (syncAutoExpire e s))[j :=
                  \<lparr>data = (data (members s ! j))\<lparr>join_date := current_date_str e,
                     membership_type := choiceType c, is_active := 1\<rparr>, bonus_days = 0\<rparr>]\<rparr>)))"
    by (rule r)
  show "members (snd (renewMember e (Some i) c s))
            = (members (syncAutoExpire e s))[j :=
                 \<lparr>data = (data (members s ! j))\<lparr>join_date := current_date_str e,
                    membership_type := choiceType c, is_active := 1\<rparr>, bonus_days = 0\<rparr>]"
    by (simp add: r saveToFile_globals)
next
  show "list_all2
        (\<lambda>p p'. (\<not> reactivated p p' \<and> \<not> type_changed p p')
           \<or> ((long_safe (dateToDays (current_date_str e)) p
                 \<longrightarrow> Expired_or_Inactive (dateToDays (current_date_str e)) p)
               \<and> p' = \<lparr>data = (data p)\<lparr>join_date := current_date_str e,
                          membership_type := choiceType c, is_active := 1\<rparr>, bonus_days = 0\<rparr>))
        (members s) (members (snd (renewMember e input c s)))"
    using renewMember_trace [of e c s input]
    by (simp add: renew_trace_def [abs_def] stays_def restarted_def)
next
  show "members (menu_step e (CallAdd nm gd ag ph ch) s) = members s
      \<or> members (menu_step e (CallAdd nm gd ag ph ch) s)
          = members s @ [\<lparr>data = \<lparr>card_id = next_card_id s, name = nm, gender = gd, age = ag,
                                  phone = ph, join_date = current_date_str e,
                                  membership_type = choiceType ch, is_active = 1\<rparr>,
                          bonus_days = 0\<rparr>]"
    using addMember_members [of e nm gd ag ph ch s] by simp
next
  show "\<exists>k. list_all2 (\<lambda>p p'. \<not> reactivated p p' \<and> \<not> type_changed p p')
            (take k (members s) @ drop (Suc k) (members s))
            (members (menu_step e (CallDelete input) s))"
    using stays_delete [of s e input] by (simp add: stays_def [abs_def])
next
  assume "\<not> is_renew call \<and> \<not> is_add call \<and> \<not> is_delete call"
  then have "list_all2 stays (members s) (members (menu_step e call s))"
    by (intro stays_menu) simp_all
  then show "list_all2 (\<lambda>p p'. \<not> reactivated p p' \<and> \<not> type_changed p p')
          (members s) (members (menu_step e call s))"
    by (simp add: stays_def [abs_def])
qed

text \<open>
  Scenario 4 in the store of three records on 2025-03-01: the inactive card 1003 (third in
  the list) renewed with the yearly type restarts today as a yearly card; the card 1001,
  still flagged active but past its expire day, restarts as a seasonal card; a
  deactivation afterwards keeps every type and reactivates nothing.
\<close>

theorem renew_expired_or_inactive_witness:
  "fst (renewMember (all_ok_env ''2025-03-01'') (Some 1003) Choice3 example_store) = RenewRestarted
   \<and> members (snd (renewMember (all_ok_env ''2025-03-01'') (Some 1003) Choice3 example_store))
     = [scenario_member\<lparr>data := (data scenario_member)\<lparr>is_active := 0\<rparr>\<rparr>, bonus_member,
        \<lparr>data = (data lapsed_member)\<lparr>join_date := ''2025-03-01'', membership_type := type_year,
           is_active := 1\<rparr>, bonus_days = 0\<rparr>]
   \<and> fst (renewMember (all_ok_env ''2025-03-01'') (Some 1001) Choice2 example_store) = RenewRestarted
   \<and> members (snd (renewMember (all_ok_env ''2025-03-01'') (Some 1001) Choice2 example_store))
     = [\<lparr>data = (data scenario_member)\<lparr>join_date := ''2025-03-01'',
           membership_type := type_season, is_active := 1\<rparr>, bonus_days = 0\<rparr>,
        bonus_member, lapsed_member]
   \<and> list_all2 (\<lambda>p p'. \<not> reactivated p p' \<and> \<not> type_changed p p')
        (members example_store)
        (members (menu_step (all_ok_env ''2025-03-01'') (CallUpdateStatus (Some 1002))
           example_store))"
proof -
  let ?e = "all_ok_env ''2025-03-01''"
  have p3: "Expired_or_Inactive (dateToDays (current_date_str ?e)) (members example_store ! 2)"
    "is_active (data (members example_store ! 2)) = 0
      \<or> fits_long (expire_day (members example_store ! 2))"
    by (simp_all add: Expired_or_Inactive_def example_members example_fields)
  have p1: "Expired_or_Inactive (dateToDays (current_date_str ?e)) (members example_store ! 0)"
    "is_active (data (members example_store ! 0)) = 0
      \<or> fits_long (expire_day (members example_store ! 0))"
    by (simp_all add: Expired_or_Inactive_def example_members example_expire env_fields
          scenario_dates fits_long_numeral)
  have w1: "fst (renewMember ?e (Some 1003) Choice3 example_store) = RenewRestarted
   \<and> members (snd (renewMember ?e (Some 1003) Choice3 example_store))
     = [scenario_member\<lparr>data := (data scenario_member)\<lparr>is_active := 0\<rparr>\<rparr>, bonus_member,
        \<lparr>data = (data lapsed_member)\<lparr>join_date := ''2025-03-01'', membership_type := type_year,
           is_active := 1\<rparr>, bonus_days = 0\<rparr>]"
  proof -
    have "fst (renewMember ?e (Some 1003) Choice3 example_store) = RenewRestarted
      \<and> members (snd (renewMember ?e (Some 1003) Choice3 example_store))
            = (members (syncAutoExpire ?e example_store))[2 :=
                 \<lparr>data = (data (members example_store ! 2))\<lparr>join_date := current_date_str ?e,
                    membership_type := choiceType Choice3, is_active := 1\<rparr>, bonus_days = 0\<rparr>]"
      using renew_expired_or_inactive [of 1003 example_store 2 ?e Choice3] example_first(3) p3
      by (simp add: saveToFile_globals)
    then show ?thesis by (simp add: example_sync example_members env_fields)
  qed
  have w2: "fst (renewMember ?e (Some 1001) Choice2 example_store) = RenewRestarted
   \<and> members (snd (renewMember ?e (Some 1001) Choice2 example_store))
     = [\<lparr>data = (data scenario_member)\<lparr>join_date := ''2025-03-01'',
           membership_type := type_season, is_active := 1\<rparr>, bonus_days = 0\<rparr>,
        bonus_member, lapsed_member]"
  proof -
    have "fst (renewMember ?e (Some 1001) Choice2 example_store) = RenewRestarted
      \<and> members (snd (renewMember ?e (Some 1001) Choice2 example_store))
            = (members (syncAutoExpire ?e example_store))[0 :=
                 \<lparr>data = (data (members example_store ! 0))\<lparr>join_date := current_date_str ?e,
                    membership_type := choiceType Choice2, is_active := 1\<rparr>, bonus_days = 0\<rparr>]"
      using renew_expired_or_inactive [of 1001 example_store 0 ?e Choice2] example_first(1) p1
      by (simp add: saveToFile_globals)
    then show ?thesis by (simp add: example_sync example_members env_fields)
  qed
  have w3: "list_all2 (\<lambda>p p'. \<not> reactivated p p' \<and> \<not> type_changed p p')
        (members example_store)
        (members (menu_step ?e (CallUpdateStatus (Some 1002)) example_store))"
    using renew_expired_or_inactive [where s = example_store and e = ?e
        and call = "CallUpdateStatus (Some 1002)"]
    by simp
  show ?thesis using w1 w2 w3 by blast
qed

text \<open>
  A record with \<open>is_active = 1\<close>, join date -999-01-01 and \<open>bonus_days = LONG_MIN\<close>, as
  \<open>loadFromFile\<close> accepts it: its expire day lies far before 2025-03-01, so it is
  Expired-or-Inactive, but the sum wraps around in \<open>long\<close> to a day far after today, and the
  yearly renewal is refused as a change of type.
\<close>

theorem renew_expired_or_inactive_counterexample:
  "parse_line (line_with ''-999-01-01'' ''-9223372036854775808'') = Some underflow_member
   \<and> first_with_card 1001 (members (single_state underflow_member)) 0
   \<and> Expired_or_Inactive (dateToDays ''2025-03-01'') underflow_member
   \<and> renewMember (all_ok_env ''2025-03-01'') (Some 1001) Choice3 (single_state underflow_member)
       = (RenewTypeMismatch, single_state underflow_member)"
proof -
  have f: "join_date (data underflow_member) = ''-999-01-01''"
    "membership_type (data underflow_member) = type_month"
    "is_active (data underflow_member) = 1"
    "bonus_days underflow_member = - 9223372036854775808"
    "card_id (data underflow_member) = 1001"
    by (simp_all add: underflow_member_def scenario_member_def)
  have x: "expire_day underflow_member = - 9223372036855140654"
    by (simp add: expire_day_def f scenario_dates durations)
  have c: "calcExpireDays underflow_member = 9223372036854410962"
    by (simp add: calcExpireDays_wrap x wrap64_def)
  have fl: "expire_flip 739676 underflow_member = underflow_member"
    by (simp add: expire_flip_def f c lsub_def wrap64_def)
  have s: "syncAutoExpire (all_ok_env ''2025-03-01'') (single_state underflow_member)
      = single_state underflow_member"
    by (simp add: syncAutoExpire_def syncLoop_map single_state_def env_fields scenario_dates fl)
  have r: "renewMember (all_ok_env ''2025-03-01'') (Some 1001) Choice3
      (single_state underflow_member) = (RenewTypeMismatch, single_state underflow_member)"
    by (simp add: renewMember_def Let_def s)
       (simp add: single_state_def f renewDecision_def Let_def env_fields scenario_dates c
          type_distinct)
  have e: "Expired_or_Inactive (dateToDays ''2025-03-01'') underflow_member"
    by (simp add: Expired_or_Inactive_def x scenario_dates)
  have k: "first_with_card 1001 (members (single_state underflow_member)) 0"
    by (simp add: first_with_card_def single_state_def f)
  show ?thesis using overflow_line_loads(2) k e r by blast
qed

subsection \<open>Deletion\<close>

lemma deleteExpiredMember_absent:
  "list_all (\<lambda>p. card_id (data p) \<noteq> i) (members s) \<Longrightarrow>
   deleteExpiredMember e (Some i) s = (DeleteNotFound, syncAutoExpire e s)"
  by (simp add: deleteExpiredMember_def Let_def findByCardID_sync findByCardID_absent)

lemma deleteExpiredMember_found:
  "first_with_card i (members s) j \<Longrightarrow>
   deleteExpiredMember e (Some i) s =
     (if is_active (data (members (syncAutoExpire e s) ! j)) = 1
      then (DeleteStillActive, syncAutoExpire e s)
      else (DeleteOK,
            snd (saveToFile e DATA_FILE
              ((syncAutoExpire e s)\<lparr>members :=
                 take j (members (syncAutoExpire e s)) @ drop (Suc j) (members (syncAutoExpire e s)),
                 member_count := member_count s - 1\<rparr>))))"
  by (simp add: deleteExpiredMember_def Let_def findByCardID_sync findByCardID_first
        syncAutoExpire_globals)

lemma flip_not_active:
  assumes "is_active (data p) \<noteq> 1 \<or> (long_safe t p \<and> expire_day p < t)"
  shows "is_active (data (expire_flip t p)) \<noteq> 1"
  using assms
proof
  assume "is_active (data p) \<noteq> 1"
  then show ?thesis by (simp add: expire_flip_def)
next
  assume "long_safe t p \<and> expire_day p < t"
  then show ?thesis by (simp add: expire_flip_fits)
qed

text \<open>
  Claim C9, as the code has it. \<open>deleteExpiredMember\<close> first runs \<open>syncAutoExpire\<close>, then
  searches the list for the first node with the card number. A card number no node carries
  is reported as not found. If the node found is flagged active after the synchronization,
  the deletion is refused, otherwise the node is unlinked, the count goes down by one and
  the list is saved; in each case the other nodes are those of the synchronized store. In
  particular, when the expire day and its distance to today fit into a \<open>long\<close>: an
  Active-Current node (\<open>is_active = 1\<close>, expire day not before today's ordinal) is refused
  and stays as it is, and a node with \<open>is_active = 1\<close> whose expire day has passed is
  unlinked like an inactive one.
\<close>

theorem deleteExpiredMember_gate:
  "(list_all (\<lambda>p. card_id (data p) \<noteq> i) (members s)
    \<longrightarrow> deleteExpiredMember e (Some i) s = (DeleteNotFound, syncAutoExpire e s))
   \<and> (first_with_card i (members s) j
    \<longrightarrow> deleteExpiredMember e (Some i) s =
          (if is_active (data (members (syncAutoExpire e s) ! j)) = 1
           then (DeleteStillActive, syncAutoExpire e s)
           else (DeleteOK,
                 snd (saveToFile e DATA_FILE
                   ((syncAutoExpire e s)\<lparr>members :=
                      take j (members (syncAutoExpire e s))
                        @ drop (Suc j) (members (syncAutoExpire e s)),
                      member_count := member_count s - 1\<rparr>)))))
   \<and> (first_with_card i (members s) j
      \<and> Active_Current (dateToDays (current_date_str e)) (members s ! j)
      \<and> long_safe (dateToDays (current_date_str e)) (members s ! j)
    \<longrightarrow> deleteExpiredMember e (Some i) s = (DeleteStillActive, syncAutoExpire e s)
        \<and> members (syncAutoExpire e s) ! j = members s ! j)
   \<and> (first_with_card i (members s) j
      \<and> (is_active (data (members s ! j)) \<noteq> 1
          \<or> (long_safe (dateToDays (current_date_str e)) (members s ! j)
              \<and> expire_day (members s ! j) < dateToDays (current_date_str e)))
    \<longrightarrow> fst (deleteExpiredMember e (Some i) s) = DeleteOK
        \<and> members (snd (deleteExpiredMember e (Some i) s))
            = take j (members (syncAutoExpire e s)) @ drop (Suc j) (members (syncAutoExpire e s))
        \<and> member_count (snd (deleteExpiredMember e (Some i) s)) = member_count s - 1
        \<and> next_card_id (snd (deleteExpiredMember e (Some i) s)) = next_card_id s)"
proof (intro conjI impI)
  assume "list_all (\<lambda>p. card_id (data p) \<noteq> i) (members s)"
  then show "deleteExpiredMember e (Some i) s = (DeleteNotFound, syncAutoExpire e s)"
    by (rule deleteExpiredMember_absent)
next
  assume "first_with_card i (members s) j"
  then show "deleteExpiredMember e (Some i) s =
          (if is_active (data (members (syncAutoExpire e s) ! j)) = 1
           then (DeleteStillActive, syncAutoExpire e s)
           else (DeleteOK,
                 snd (saveToFile e DATA_FILE
                   ((syncAutoExpire e s)\<lparr>members :=
                      take j (members (syncAutoExpire e s))
                        @ drop (Suc j) (members (syncAutoExpire e s)),
                      member_count := member_count s - 1\<rparr>))))"
    by (rule deleteExpiredMember_found)
next
  assume h: "first_with_card i (members s) j
      \<and> Active_Current (dateToDays (current_date_str e)) (members s ! j)
      \<and> long_safe (dateToDays (current_date_str e)) (members s ! j)"
  then have f: "first_with_card i (members s) j" by simp
  then have j: "j < length (members s)" by (rule first_with_card_bound)
  show n: "members (syncAutoExpire e s) ! j = members s ! j"
    using h j by (simp add: sync_nth expire_flip_active_current)
  show "deleteExpiredMember e (Some i) s = (DeleteStillActive, syncAutoExpire e s)"
    using h by (simp add: deleteExpiredMember_found [OF f] n Active_Current_def)
next
  assume h: "first_with_card i (members s) j
      \<and> (is_active (data (members s ! j)) \<noteq> 1
          \<or> (long_safe (dateToDays (current_date_str e)) (members s ! j)
              \<and> expire_day (members s ! j) < dateToDays (current_date_str e)))"
  then have f: "first_with_card i (members s) j" by simp
  then have j: "j < length (members s)" by (rule first_with_card_bound)
  have "is_active (data (expire_flip (dateToDays (current_date_str e)) (members s ! j))) \<noteq> 1"
    using h by (intro flip_not_active) simp
  then have n: "is_active (data (members (syncAutoExpire e s) ! j)) \<noteq> 1"
    using j by (simp add: sync_nth)
  show "fst (deleteExpiredMember e (Some i) s) = DeleteOK"
    using n by (simp add: deleteExpiredMember_found [OF f])
  show "members (snd (deleteExpiredMember e (Some i) s))
            = take j (members (syncAutoExpire e s)) @ drop (Suc j) (members (syncAutoExpire e s))"
    using n by (simp add: deleteExpiredMember_found [OF f] saveToFile_globals)
  show "member_count (snd (deleteExpiredMember e (Some i) s)) = member_count s - 1"
    using n by (simp add: deleteExpiredMember_found [OF f] saveToFile_globals)
  show "next_card_id (snd (deleteExpiredMember e (Some i) s)) = next_card_id s"
    using n by (simp add: deleteExpiredMember_found [OF f] saveToFile_globals
          syncAutoExpire_globals)
qed

text \<open>
  The store of three records on 2025-02-15. Card 7 is unknown. Card 1002, second in the
  list and Active-Current thanks to its bonus days, is refused. Card 1003, inactive and
  third in the list, is unlinked. Each time the first record, whose time is up, has been
  switched off by the leading synchronization.
\<close>

theorem deleteExpiredMember_gate_witness:
  "deleteExpiredMember (all_ok_env ''2025-02-15'') (Some 7) example_store
     = (DeleteNotFound, syncAutoExpire (all_ok_env ''2025-02-15'') example_store)
   \<and> deleteExpiredMember (all_ok_env ''2025-02-15'') (Some 1002) example_store
     = (DeleteStillActive, syncAutoExpire (all_ok_env ''2025-02-15'') example_store)
   \<and> members (syncAutoExpire (all_ok_env ''2025-02-15'') example_store)
     = [scenario_member\<lparr>data := (data scenario_member)\<lparr>is_active := 0\<rparr>\<rparr>, bonus_member,
        lapsed_member]
   \<and> fst (deleteExpiredMember (all_ok_env ''2025-02-15'') (Some 1003) example_store) = DeleteOK
   \<and> members (snd (deleteExpiredMember (all_ok_env ''2025-02-15'') (Some 1003) example_store))
     = [scenario_member\<lparr>data := (data scenario_member)\<lparr>is_active := 0\<rparr>\<rparr>, bonus_member]
   \<and> member_count (snd (deleteExpiredMember (all_ok_env ''2025-02-15'') (Some 1003)
        example_store)) = 2"
proof -
  let ?e = "all_ok_env ''2025-02-15''"
  have a: "Active_Current (dateToDays (current_date_str ?e)) (members example_store ! 1)"
    by (simp add: Active_Current_def example_members env_fields scenario_dates example_expire
          example_fields)
  have l: "long_safe (dateToDays (current_date_str ?e)) (members example_store ! 1)"
    by (simp add: long_safe_def example_members env_fields scenario_dates example_expire
          fits_long_numeral)
  have n: "is_active (data (members example_store ! 2)) \<noteq> 1"
    by (simp add: example_members example_fields)
  have w1: "deleteExpiredMember ?e (Some 7) example_store
     = (DeleteNotFound, syncAutoExpire ?e example_store)"
    using deleteExpiredMember_gate [of 7 example_store ?e 0] example_first(4) by blast
  have w2: "deleteExpiredMember ?e (Some 1002) example_store
     = (DeleteStillActive, syncAutoExpire ?e example_store)"
    using deleteExpiredMember_gate [of 1002 example_store ?e 1] example_first(2) a l by blast
  have w3: "fst (deleteExpiredMember ?e (Some 1003) example_store) = DeleteOK
     \<and> members (snd (deleteExpiredMember ?e (Some 1003) example_store))
         = take 2 (members (syncAutoExpire ?e example_store))
           @ drop (Suc 2) (members (syncAutoExpire ?e example_store))
     \<and> member_count (snd (deleteExpiredMember ?e (Some 1003) example_store))
         = member_count example_store - 1"
    using deleteExpiredMember_gate [of 1003 example_store ?e 2] example_first(3) n by blast
  show ?thesis
    using w1 w2 w3 by (simp add: example_sync example_members)
qed

text \<open>
  On 2025-02-15 the card 1001 has \<open>is_active = 1\<close> in the store, and its deletion
  succeeds: the leading synchronization clears the flag before the check.
\<close>

theorem deleteExpiredMember_active_counterexample:
  "first_with_card 1001 (members example_store) 0
   \<and> is_active (data (members example_store ! 0)) = 1
   \<and> fst (deleteExpiredMember (all_ok_env ''2025-02-15'') (Some 1001) example_store) = DeleteOK
   \<and> members (snd (deleteExpiredMember (all_ok_env ''2025-02-15'') (Some 1001) example_store))
       = [bonus_member, lapsed_member]"
proof -
  let ?e = "all_ok_env ''2025-02-15''"
  have n: "is_active (data (members (syncAutoExpire ?e example_store) ! 0)) \<noteq> 1"
    by (simp add: example_sync)
  have "fst (deleteExpiredMember ?e (Some 1001) example_store) = DeleteOK"
    "members (snd (deleteExpiredMember ?e (Some 1001) example_store))
       = [bonus_member, lapsed_member]"
    using n
    by (simp_all add: deleteExpiredMember_found [OF example_first(1)] saveToFile_globals
          example_sync)
  moreover have "is_active (data (members example_store ! 0)) = 1"
    by (simp add: example_members example_fields)
  ultimately show ?thesis using example_first(1) by blast
qed

subsection \<open>Loading\<close>

lemma Node_refill: "\<lparr>data = data p, bonus_days = bonus_days p\<rparr> = p"
  by (cases p) simp

lemma max_card_id_Nil: "max_card_id m [] = m"
  by (simp add: max_card_id_def card_ids_def)

lemma max_card_id_Cons:
  "max_card_id m (p # ps) = max_card_id (if card_id (data p) > m then card_id (data p) else m) ps"
proof -
  have f: "finite ((\<lambda>p. card_id (data p)) ` set ps)" by simp
  show ?thesis
    unfolding max_card_id_def card_ids_def
    by (cases "((\<lambda>p. card_id (data p)) ` set ps) = {}")
       (auto simp: Max_insert [OF f] max_def)
qed

lemma valid_records_step_None:
  "fgets 512 inp = Some (chunk, rest) \<Longrightarrow> parse_line (trim_newline (c_str chunk)) = None
   \<Longrightarrow> valid_records inp = valid_records rest"
  by (simp add: valid_records_def file_lines.simps [of inp] map_filter_simps)

lemma valid_records_step_Some:
  "fgets 512 inp = Some (chunk, rest) \<Longrightarrow> parse_line (trim_newline (c_str chunk)) = Some p
   \<Longrightarrow> valid_records inp = p # valid_records rest"
  by (simp add: valid_records_def file_lines.simps [of inp] map_filter_simps)

lemma valid_records_eof: "fgets 512 inp = None \<Longrightarrow> valid_records inp = []"
  by (simp add: valid_records_def file_lines.simps [of inp] map_filter_simps)

lemma loadLoop_closed:
  "loadLoop inp k acc cnt loaded max_id =
     (let ps = take (room k cnt) (valid_records inp)
      in (acc @ ps, cnt + int (length ps), loaded + int (length ps), max_card_id max_id ps))"
proof (induction inp k acc cnt loaded max_id rule: loadLoop.induct)
  case (1 inp k acc cnt loaded max_id)
  show ?case
  proof (cases "fgets 512 inp")
    case None
    then show ?thesis
      by (simp add: loadLoop.simps [of inp] valid_records_eof max_card_id_Nil)
  next
    case (Some cr)
    obtain chunk rest where cr: "cr = (chunk, rest)" by (cases cr)
    note f = Some [unfolded cr]
    show ?thesis
    proof (cases "parse_line (trim_newline (c_str chunk))")
      case None
      have "loadLoop inp k acc cnt loaded max_id = loadLoop rest k acc cnt loaded max_id"
        using f None by (simp add: loadLoop.simps [of inp])
      then show ?thesis
        using "1.IH"(1) [OF f refl None] valid_records_step_None [OF f None] by simp
    next
      case (Some p)
      note v = valid_records_step_Some [OF f Some]
      show ?thesis
      proof (cases "cnt \<ge> MAX_MEMBERS")
        case True
        then have "room k cnt = 0" by (simp add: room_def)
        then show ?thesis
          using f Some True by (simp add: loadLoop.simps [of inp] max_card_id_Nil)
      next
        case False
        show ?thesis
        proof (cases k)
          case 0
          then have "room k cnt = 0" by (simp add: room_def)
          then show ?thesis
            using f Some False 0
            by (simp add: loadLoop.simps [of inp] max_card_id_Nil createNode_def)
        next
          case (Suc k')
          have c: "createNode k (data p) = Some \<lparr>data = data p, bonus_days = 0\<rparr>"
            using Suc by (simp add: createNode_def)
          have r: "room k cnt = Suc (room (k - 1) (cnt + 1))"
            using Suc False by (auto simp: room_def MAX_MEMBERS_def min_def)
          have "loadLoop inp k acc cnt loaded max_id
              = loadLoop rest (k - 1) (acc @ [p]) (cnt + 1) (loaded + 1)
                  (if card_id (data p) > max_id then card_id (data p) else max_id)"
            using f Some False c by (simp add: loadLoop.simps [of inp] Node_refill)
          moreover have "loadLoop rest (k - 1) (acc @ [p]) (cnt + 1) (loaded + 1)
                  (if card_id (data p) > max_id then card_id (data p) else max_id)
              = (let ps = take (room (k - 1) (cnt + 1)) (valid_records rest)
                 in ((acc @ [p]) @ ps, cnt + 1 + int (length ps), loaded + 1 + int (length ps),
                     max_card_id (if card_id (data p) > max_id then card_id (data p) else max_id)
                       ps))"
            using "1.IH"(2) [OF f refl Some False c] by (simp add: Node_refill)
          ultimately show ?thesis
            using v r by (simp add: Let_def max_card_id_Cons)
        qed
      qed
    qed
  qed
qed

lemma room_zero: "room k 0 = min k 100"
  by (simp add: room_def MAX_MEMBERS_def)

lemma loadFromFile_closed:
  assumes "disk s f = Some content"
  shows "loadFromFile e f s =
     (let ps = take (min (mallocs e) 100) (valid_records content)
      in (int (length ps),
          syncAutoExpire e (s\<lparr>members := ps, member_count := int (length ps),
                               next_card_id := wrap32 (max_card_id 1000 ps + 1)\<rparr>)))"
  using assms
  by (simp add: loadFromFile_def loadLoop_closed freeAllMembers_def room_zero Let_def iadd_def)

lemma loadFromFile_members:
  assumes "disk s f = Some content"
  shows "members (snd (loadFromFile e f s)) =
     map (expire_flip (dateToDays (current_date_str e)))
       (take (min (mallocs e) 100) (valid_records content))"
  by (simp add: loadFromFile_closed [OF assms] Let_def syncAutoExpire_members)

lemma loadFromFile_count:
  assumes "disk s f = Some content"
  shows "fst (loadFromFile e f s) = int (length (members (snd (loadFromFile e f s))))"
    and "member_count (snd (loadFromFile e f s)) = int (length (members (snd (loadFromFile e f s))))"
  by (simp_all add: loadFromFile_closed [OF assms] Let_def syncAutoExpire_members
        syncAutoExpire_globals)

lemma card_ids_flip: "card_ids (map (expire_flip t) ps) = card_ids ps"
  by (simp add: card_ids_def image_image expire_flip_card_id)

lemma loadFromFile_next_id:
  assumes "disk s f = Some content"
  shows "next_card_id (snd (loadFromFile e f s)) =
     wrap32 (Max (insert 1000 (card_ids (members (snd (loadFromFile e f s))))) + 1)"
  by (simp add: loadFromFile_closed [OF assms] Let_def syncAutoExpire_members
        syncAutoExpire_globals max_card_id_def card_ids_flip)

lemma loadFromFile_absent: "disk s f = None \<Longrightarrow> loadFromFile e f s = (0, s)"
  by (simp add: loadFromFile_def)


lemma map_filter_append:
  "List.map_filter g (xs @ ys) = List.map_filter g xs @ List.map_filter g ys"
  by (simp add: List.map_filter_def)


lemma atoi_range: "- 2147483648 \<le> atoi t \<and> atoi t \<le> 2147483647"
  unfolding atoi_def by (rule wrap32_range)

lemma atoi_le: "atoi t \<le> 2147483647"
  using atoi_range [of t] by simp

lemma split_fields_card: "split_fields line = Some p \<Longrightarrow> card_id (data p) \<le> 2147483647"
  unfolding split_fields_def next_field_def by (auto simp: atoi_le split: option.splits)

lemma parse_line_card:
  assumes "parse_line line = Some p"
  shows "1 \<le> card_id (data p) \<and> card_id (data p) \<le> 2147483647"
proof -
  have s: "split_fields line = Some p" and c: "line_checks p"
    using assms by (auto simp: parse_line_def split: if_splits option.splits)
  from s have "card_id (data p) \<le> 2147483647" by (rule split_fields_card)
  moreover have "1 \<le> card_id (data p)" using c by (simp add: line_checks_def)
  ultimately show ?thesis by simp
qed

lemma valid_records_card:
  assumes "p \<in> set (valid_records content)"
  shows "1 \<le> card_id (data p) \<and> card_id (data p) \<le> 2147483647"
proof -
  obtain line where "parse_line line = Some p"
    using assms by (auto simp: valid_records_def List.map_filter_def)
  then show ?thesis by (rule parse_line_card)
qed

lemma loaded_card:
  assumes d: "disk s f = Some content" and p: "p \<in> set (members (snd (loadFromFile e f s)))"
  shows "1 \<le> card_id (data p) \<and> card_id (data p) \<le> 2147483647"
proof -
  obtain q where q: "q \<in> set (take (min (mallocs e) 100) (valid_records content))"
    and e: "p = expire_flip (dateToDays (current_date_str e)) q"
    using p unfolding loadFromFile_members [OF d] by auto
  have "q \<in> set (valid_records content)" using q by (rule in_set_takeD)
  then show ?thesis unfolding e expire_flip_card_id by (rule valid_records_card)
qed

lemma loaded_max:
  assumes d: "disk s f = Some content"
  shows "1000 \<le> Max (insert 1000 (card_ids (members (snd (loadFromFile e f s)))))"
    and "Max (insert 1000 (card_ids (members (snd (loadFromFile e f s))))) \<le> 2147483647"
    and "\<forall>p \<in> set (members (snd (loadFromFile e f s))).
           card_id (data p) \<le> Max (insert 1000 (card_ids (members (snd (loadFromFile e f s)))))"
proof -
  let ?ids = "card_ids (members (snd (loadFromFile e f s)))"
  have fin: "finite (insert 1000 ?ids)" by (simp add: card_ids_def)
  show "1000 \<le> Max (insert 1000 ?ids)" using fin by (auto intro: Max_ge)
  have "\<forall>x \<in> insert 1000 ?ids. x \<le> 2147483647"
    using loaded_card [OF d] by (auto simp: card_ids_def)
  then show "Max (insert 1000 ?ids) \<le> 2147483647" using fin by (simp del: Max_insert)
  show "\<forall>p \<in> set (members (snd (loadFromFile e f s))). card_id (data p) \<le> Max (insert 1000 ?ids)"
    using fin by (auto intro!: Max_ge simp: card_ids_def)
qed

subsection \<open>Card numbers after a load\<close>

lemma renewDecision_next: "next_card_id (snd (renewDecision e j c s)) = next_card_id s"
  by (simp add: renewDecision_def Let_def saveToFile_globals)

lemma renewMember_next: "next_card_id (snd (renewMember e input c s)) = next_card_id s"
  by (simp add: renewMember_def Let_def renewDecision_next syncAutoExpire_globals
        split: option.splits)

lemma deleteExpiredMember_next:
  "next_card_id (snd (deleteExpiredMember e input s)) = next_card_id s"
  by (simp add: deleteExpiredMember_def Let_def saveToFile_globals syncAutoExpire_globals
        split: option.splits)

lemma updateMemberPhone_next:
  "next_card_id (snd (updateMemberPhone e input ph s)) = next_card_id s"
  by (simp add: updateMemberPhone_def Let_def saveToFile_globals split: option.splits)

lemma updateMemberStatus_next:
  "next_card_id (snd (updateMemberStatus e input s)) = next_card_id s"
  by (simp add: updateMemberStatus_def Let_def saveToFile_globals split: option.splits)

lemma addMember_next:
  "next_card_id (snd (addMember e nm gd ag ph c s)) = next_card_id s
   \<or> next_card_id (snd (addMember e nm gd ag ph c s)) = wrap32 (next_card_id s + 1)"
  by (simp add: addMember_def Let_def saveToFile_globals appendNode_def iadd_def
        split: option.splits)

lemma addMember_ok:
  assumes "fst (addMember e nm gd ag ph c s) = AddOK"
  shows "members (snd (addMember e nm gd ag ph c s))
       = members s @ [\<lparr>data = \<lparr>card_id = next_card_id s, name = nm, gender = gd, age = ag,
                               phone = ph, join_date = current_date_str e,
                               membership_type = choiceType c, is_active = 1\<rparr>,
                       bonus_days = 0\<rparr>]"
    and "next_card_id (snd (addMember e nm gd ag ph c s)) = wrap32 (next_card_id s + 1)"
  using assms
  by (auto simp: addMember_def Let_def saveToFile_globals appendNode_def createNode_def iadd_def
        split: if_splits option.splits)

lemma menu_step_next:
  "next_card_id (menu_step e call s) = next_card_id s
   \<or> (is_add call \<and> next_card_id (menu_step e call s) = wrap32 (next_card_id s + 1))"
proof (cases call)
  case (CallAdd nm gd ag ph c)
  then show ?thesis using addMember_next [of e nm gd ag ph c s] by auto
qed (simp_all add: showAllMembers_def searchByCardID_def searchByName_def showStatistics_def
      syncAutoExpire_globals renewMember_next deleteExpiredMember_next updateMemberPhone_next
      updateMemberStatus_next)

lemma wrap32_idem: "wrap32 (wrap32 x) = wrap32 x"
  using wrap32_add_left [of x 0] by simp

lemma menu_run_next:
  assumes "wrap32 (next_card_id s) = next_card_id s"
  shows "\<exists>k. k \<le> length calls
     \<and> next_card_id (menu_run calls s) = wrap32 (next_card_id s + int k)"
  using assms
proof (induction calls arbitrary: s)
  case Nil
  then have "0 \<le> length ([] :: (env \<times> menu_call) list)
     \<and> next_card_id (menu_run [] s) = wrap32 (next_card_id s + int 0)" by simp
  then show ?case by (rule exI)
next
  case (Cons ec cs)
  let ?s' = "menu_step (fst ec) (snd ec) s"
  consider (same) "next_card_id ?s' = next_card_id s"
    | (step) "next_card_id ?s' = wrap32 (next_card_id s + 1)"
    using menu_step_next [of "fst ec" "snd ec" s] by blast
  then show ?case
  proof cases
    case same
    then have "wrap32 (next_card_id ?s') = next_card_id ?s'" using Cons.prems by simp
    from Cons.IH [OF this] obtain k where k: "k \<le> length cs"
      "next_card_id (menu_run cs ?s') = wrap32 (next_card_id ?s' + int k)" by blast
    have "k \<le> length (ec # cs)
      \<and> next_card_id (menu_run (ec # cs) s) = wrap32 (next_card_id s + int k)"
      using k same by simp
    then show ?thesis by (rule exI)
  next
    case step
    then have "wrap32 (next_card_id ?s') = next_card_id ?s'" by (simp add: wrap32_idem)
    from Cons.IH [OF this] obtain k where k: "k \<le> length cs"
      "next_card_id (menu_run cs ?s') = wrap32 (next_card_id ?s' + int k)" by blast
    have "wrap32 (next_card_id ?s' + int k) = wrap32 (next_card_id s + 1 + int k)"
      unfolding step by (rule wrap32_add_left)
    then have "Suc k \<le> length (ec # cs)
      \<and> next_card_id (menu_run (ec # cs) s) = wrap32 (next_card_id s + int (Suc k))"
      using k by (simp add: add.assoc)
    then show ?thesis by (rule exI)
  qed
qed

lemma fresh_after_wrap:
  assumes m: "1000 \<le> m" "m \<le> 2147483647" and k: "k < 2147483648"
    and c: "1 \<le> c" "c \<le> m"
  shows "wrap32 (m + 1 + int k) \<noteq> c"
proof (cases "m + 1 + int k \<le> 2147483647")
  case True
  then have "wrap32 (m + 1 + int k) = m + 1 + int k" using m by (intro wrap32_id) simp_all
  then show ?thesis using c by simp
next
  case False
  then have "wrap32 (m + 1 + int k) = m + 1 + int k - 4294967296"
    using m k by (intro wrap32_high) simp_all
  then show ?thesis using m k c by simp
qed

lemma loaded_run_fresh:
  assumes d: "disk s f = Some content" and n: "length calls < 2147483648"
    and p: "p \<in> set (members (snd (loadFromFile e f s)))"
  shows "next_card_id (menu_run calls (snd (loadFromFile e f s))) \<noteq> card_id (data p)"
proof -
  let ?s0 = "snd (loadFromFile e f s)"
  let ?m = "Max (insert 1000 (card_ids (members ?s0)))"
  have n0: "next_card_id ?s0 = wrap32 (?m + 1)" using d by (rule loadFromFile_next_id)
  then have "wrap32 (next_card_id ?s0) = next_card_id ?s0" by (simp add: wrap32_idem)
  from menu_run_next [OF this, of calls] obtain k where k: "k \<le> length calls"
    "next_card_id (menu_run calls ?s0) = wrap32 (next_card_id ?s0 + int k)" by blast
  have "wrap32 (next_card_id ?s0 + int k) = wrap32 (?m + 1 + int k)"
    unfolding n0 by (rule wrap32_add_left)
  moreover have "wrap32 (?m + 1 + int k) \<noteq> card_id (data p)"
  proof (rule fresh_after_wrap)
    show "1000 \<le> ?m" "?m \<le> 2147483647" using loaded_max(1,2) [OF d] by simp_all
    show "k < 2147483648" using k(1) n by simp
    show "1 \<le> card_id (data p)" using loaded_card [OF d p] by simp
    show "card_id (data p) \<le> ?m" using loaded_max(3) [OF d] p by blast
  qed
  ultimately show ?thesis using k(2) by simp
qed

text \<open>
  Claim C7, as the code has it. After a load of an existing file, \<open>next_card_id\<close> is, in
  \<open>int\<close> arithmetic, one more than the largest of 1000 and the card numbers of the loaded
  nodes. Unless that largest number is \<open>INT_MAX\<close>, it is exactly one more, hence larger than
  every loaded card number and never below 1001. A successful \<open>addMember\<close> appends a node
  that carries \<open>next_card_id\<close> and increments the counter in \<open>int\<close>; no other operation of
  the menu changes the counter. So after fewer than \<open>2^31\<close> menu operations following the
  load, the card number a successful \<open>addMember\<close> assigns is none of the loaded ones.
\<close>

theorem loadFromFile_next_card_id:
  "(disk s f = Some content
    \<longrightarrow> next_card_id (snd (loadFromFile e f s))
          = wrap32 (Max (insert 1000 (card_ids (members (snd (loadFromFile e f s))))) + 1)
        \<and> (Max (insert 1000 (card_ids (members (snd (loadFromFile e f s))))) < 2147483647
           \<longrightarrow> next_card_id (snd (loadFromFile e f s))
                 = Max (insert 1000 (card_ids (members (snd (loadFromFile e f s))))) + 1
               \<and> (\<forall>p \<in> set (members (snd (loadFromFile e f s))).
                    card_id (data p) < next_card_id (snd (loadFromFile e f s)))
               \<and> 1000 < next_card_id (snd (loadFromFile e f s))))
   \<and> (fst (addMember e' nm gd ag ph ch t) = AddOK
    \<longrightarrow> members (snd (addMember e' nm gd ag ph ch t))
          = members t @ [\<lparr>data = \<lparr>card_id = next_card_id t, name = nm, gender = gd, age = ag,
                                  phone = ph, join_date = current_date_str e',
                                  membership_type = choiceType ch, is_active = 1\<rparr>,
                          bonus_days = 0\<rparr>]
        \<and> next_card_id (snd (addMember e' nm gd ag ph ch t)) = wrap32 (next_card_id t + 1))
   \<and> (next_card_id (menu_step e' call t) = next_card_id t
      \<or> (is_add call \<and> next_card_id (menu_step e' call t) = wrap32 (next_card_id t + 1)))
   \<and> (disk s f = Some content \<and> length calls < 2147483648
      \<and> fst (addMember e' nm gd ag ph ch (menu_run calls (snd (loadFromFile e f s)))) = AddOK
    \<longrightarrow> card_id (data (last (members (snd (addMember e' nm gd ag ph ch
            (menu_run calls (snd (loadFromFile e f s)))))))) 
          = next_card_id (menu_run calls (snd (loadFromFile e f s)))
        \<and> card_id (data (last (members (snd (addMember e' nm gd ag ph ch
            (menu_run calls (snd (loadFromFile e f s))))))))
          \<notin> card_ids (members (snd (loadFromFile e f s))))"
proof (intro conjI impI)
  assume d: "disk s f = Some content"
  show "next_card_id (snd (loadFromFile e f s))
          = wrap32 (Max (insert 1000 (card_ids (members (snd (loadFromFile e f s))))) + 1)"
    using d by (rule loadFromFile_next_id)
next
  assume d: "disk s f = Some content"
    and m: "Max (insert 1000 (card_ids (members (snd (loadFromFile e f s))))) < 2147483647"
  let ?s' = "snd (loadFromFile e f s)"
  let ?m = "Max (insert 1000 (card_ids (members ?s')))"
  have "wrap32 (?m + 1) = ?m + 1"
    using m loaded_max(1) [OF d, of e] by (intro wrap32_id) simp_all
  then show n: "next_card_id ?s' = ?m + 1" using loadFromFile_next_id [OF d, of e] by simp
  show "\<forall>p \<in> set (members ?s'). card_id (data p) < next_card_id ?s'"
    unfolding n using loaded_max(3) [OF d, of e] by fastforce
  show "1000 < next_card_id ?s'" unfolding n using loaded_max(1) [OF d, of e] by simp
next
  assume a: "fst (addMember e' nm gd ag ph ch t) = AddOK"
  show "members (snd (addMember e' nm gd ag ph ch t))
          = members t @ [\<lparr>data = \<lparr>card_id = next_card_id t, name = nm, gender = gd, age = ag,
                                  phone = ph, join_date = current_date_str e',
                                  membership_type = choiceType ch, is_active = 1\<rparr>,
                          bonus_days = 0\<rparr>]"
    using a by (rule addMember_ok)
  show "next_card_id (snd (addMember e' nm gd ag ph ch t)) = wrap32 (next_card_id t + 1)"
    using a by (rule addMember_ok)
next
  show "next_card_id (menu_step e' call t) = next_card_id t
      \<or> (is_add call \<and> next_card_id (menu_step e' call t) = wrap32 (next_card_id t + 1))"
    by (rule menu_step_next)
next
  assume h: "disk s f = Some content \<and> length calls < 2147483648
      \<and> fst (addMember e' nm gd ag ph ch (menu_run calls (snd (loadFromFile e f s)))) = AddOK"
  let ?s0 = "snd (loadFromFile e f s)"
  let ?t = "menu_run calls ?s0"
  have l: "card_id (data (last (members (snd (addMember e' nm gd ag ph ch ?t)))))
      = next_card_id ?t"
    using h by (simp add: addMember_ok(1))
  show "card_id (data (last (members (snd (addMember e' nm gd ag ph ch ?t)))))
      = next_card_id ?t" by (rule l)
  have "\<forall>p \<in> set (members ?s0). next_card_id ?t \<noteq> card_id (data p)"
    using h loaded_run_fresh [of s f content calls _ e] by blast
  then show "card_id (data (last (members (snd (addMember e' nm gd ag ph ch ?t)))))
      \<notin> card_ids (members ?s0)"
    unfolding l by (auto simp: card_ids_def)
qed

lemma state_with_file_disk: "disk (state_with_file content) DATA_FILE = Some content"
  by (simp add: state_with_file_def initial_state_def)

lemma file_records:
  "valid_records low_id_file = [node_of 5 ''A'' 30]"
  "valid_records high_id_file = [node_of 2000 ''A'' 30]"
  "valid_records max_id_file = [node_of 2147483647 ''A'' 30]"
  "valid_records wide_age_file = [node_of 1001 ''A'' 30]"
  "valid_records age15_file = [node_of 1001 ''A'' 30, node_of 1003 ''C'' 30]"
  "valid_records (line_of ''1002'' ''B'' ''15'' @ [LF]) = []"
  "split_fields (line_of ''1002'' ''B'' ''15'') = Some (node_of 1002 ''B'' 15)"
  "file_lines age15_file
     = [line_of ''1001'' ''A'' ''30'', line_of ''1002'' ''B'' ''15'', line_of ''1003'' ''C'' ''30'']"
  by code_simp+

lemma node_of_flip:
  "expire_flip (dateToDays ''2025-01-15'') (node_of cid nm ag) = node_of cid nm ag"
proof -
  have "expire_day (node_of cid nm ag) = 739647"
    by (simp add: expire_day_def node_of_def scenario_dates durations)
  then have "long_safe (dateToDays ''2025-01-15'') (node_of cid nm ag)"
    "\<not> expire_day (node_of cid nm ag) < dateToDays ''2025-01-15''"
    by (simp_all add: long_safe_def scenario_dates fits_long_numeral)
  then show ?thesis by (simp add: expire_flip_fits)
qed

lemma loaded_examples:
  "members (snd (loadFromFile (all_ok_env ''2025-01-15'') DATA_FILE (state_with_file low_id_file)))
     = [node_of 5 ''A'' 30]"
  "members (snd (loadFromFile (all_ok_env ''2025-01-15'') DATA_FILE (state_with_file high_id_file)))
     = [node_of 2000 ''A'' 30]"
  "members (snd (loadFromFile (all_ok_env ''2025-01-15'') DATA_FILE (state_with_file max_id_file)))
     = [node_of 2147483647 ''A'' 30]"
  by (simp_all add: loadFromFile_members [OF state_with_file_disk] file_records env_fields
        node_of_flip)

lemma node_of_card: "card_id (data (node_of cid nm ag)) = cid"
  by (simp add: node_of_def)

text \<open>
  A file whose only record has card number 2000 sets the counter to 2001, and a new member
  added after a listing gets the number 2001. A file whose only record has card number
  2147483647 sets the counter to -2147483648.
\<close>

theorem loadFromFile_next_card_id_witness:
  "next_card_id (snd (loadFromFile (all_ok_env ''2025-01-15'') DATA_FILE
      (state_with_file high_id_file))) = 2001
   \<and> members (snd (loadFromFile (all_ok_env ''2025-01-15'') DATA_FILE
      (state_with_file high_id_file))) = [node_of 2000 ''A'' 30]
   \<and> map (\<lambda>p. card_id (data p))
       (members (snd (addMember (all_ok_env ''2025-01-15'') ''B'' gender_male 30 ''13800138000''
          Choice1
          (menu_run [(all_ok_env ''2025-01-15'', CallShowAll)]
            (snd (loadFromFile (all_ok_env ''2025-01-15'') DATA_FILE
              (state_with_file high_id_file))))))) = [2000, 2001]
   \<and> card_id (data (last
       (members (snd (addMember (all_ok_env ''2025-01-15'') ''B'' gender_male 30 ''13800138000''
          Choice1
          (menu_run [(all_ok_env ''2025-01-15'', CallShowAll)]
            (snd (loadFromFile (all_ok_env ''2025-01-15'') DATA_FILE
              (state_with_file high_id_file))))))))) \<notin> {2000}
   \<and> next_card_id (snd (loadFromFile (all_ok_env ''2025-01-15'') DATA_FILE
      (state_with_file max_id_file))) = - 2147483648"
proof -
  let ?e = "all_ok_env ''2025-01-15''"
  let ?s0 = "snd (loadFromFile ?e DATA_FILE (state_with_file high_id_file))"
  let ?t = "menu_run [(?e, CallShowAll)] ?s0"
  have w1: "next_card_id ?s0 = 2001"
    using loadFromFile_next_card_id [of "state_with_file high_id_file" DATA_FILE high_id_file ?e]
    by (simp add: state_with_file_disk loaded_examples card_ids_def node_of_card wrap32_def)
  have c: "member_count ?s0 = 1"
    using loadFromFile_count(2) [OF state_with_file_disk, of ?e high_id_file]
    by (simp add: loaded_examples)
  have t: "members ?t = [node_of 2000 ''A'' 30]" "next_card_id ?t = 2001" "member_count ?t = 1"
    by (simp_all add: showAllMembers_def syncAutoExpire_members syncAutoExpire_globals
          loaded_examples env_fields node_of_flip w1 c)
  have ok: "fst (addMember ?e ''B'' gender_male 30 ''13800138000'' Choice1 ?t) = AddOK"
    by (simp add: addMember_def Let_def MAX_MEMBERS_def createNode_def env_fields
          showAllMembers_def syncAutoExpire_globals c)
  have w3: "map (\<lambda>p. card_id (data p))
       (members (snd (addMember ?e ''B'' gender_male 30 ''13800138000'' Choice1 ?t)))
      = [2000, 2001]"
  proof -
    have "members (snd (addMember ?e ''B'' gender_male 30 ''13800138000'' Choice1 ?t))
          = members ?t @ [\<lparr>data = \<lparr>card_id = next_card_id ?t, name = ''B'',
                                  gender = gender_male, age = 30, phone = ''13800138000'',
                                  join_date = current_date_str ?e,
                                  membership_type = choiceType Choice1, is_active = 1\<rparr>,
                          bonus_days = 0\<rparr>]"
      using loadFromFile_next_card_id [of "state_with_file high_id_file" DATA_FILE high_id_file ?e
          ?e "''B''" gender_male 30 "''13800138000''" Choice1 ?t] ok
      by blast
    then show ?thesis unfolding t by (simp add: node_of_card)
  qed
  have w4: "next_card_id (snd (loadFromFile ?e DATA_FILE (state_with_file max_id_file)))
      = - 2147483648"
    using loadFromFile_next_card_id [of "state_with_file max_id_file" DATA_FILE max_id_file ?e]
    by (simp add: state_with_file_disk loaded_examples card_ids_def node_of_card wrap32_def)
  have w5: "card_id (data (last
       (members (snd (addMember ?e ''B'' gender_male 30 ''13800138000'' Choice1 ?t)))))
      \<notin> {2000}"
  proof -
    have "length [(?e, CallShowAll)] < 2147483648" by simp
    then have "card_id (data (last
       (members (snd (addMember ?e ''B'' gender_male 30 ''13800138000'' Choice1 ?t)))))
      \<notin> card_ids (members ?s0)"
      using loadFromFile_next_card_id [where s = "state_with_file high_id_file"
          and f = DATA_FILE and content = high_id_file and e = ?e and e' = ?e and nm = "''B''"
          and gd = gender_male and ag = 30 and ph = "''13800138000''" and ch = Choice1
          and calls = "[(?e, CallShowAll)]"] ok state_with_file_disk [of high_id_file]
      by blast
    then show ?thesis by (simp only: loaded_examples card_ids_def) (simp add: node_of_card)
  qed
  show ?thesis using w1 loaded_examples(2) w3 w5 w4 by blast
qed

text \<open>
  A file whose only record has card number 5 leaves \<open>next_card_id\<close> at 1001, not 6.
\<close>

theorem loadFromFile_low_id_counterexample:
  "map (\<lambda>p. card_id (data p)) (members (snd (loadFromFile (all_ok_env ''2025-01-15'') DATA_FILE
      (state_with_file low_id_file)))) = [5]
   \<and> next_card_id (snd (loadFromFile (all_ok_env ''2025-01-15'') DATA_FILE
      (state_with_file low_id_file))) = 1001"
  using loadFromFile_next_id [OF state_with_file_disk, of "all_ok_env ''2025-01-15''" low_id_file]
  by (simp add: loaded_examples card_ids_def node_of_card wrap32_def)



subsection \<open>Capacity\<close>

lemma takeWhile_until:
  "\<forall>c \<in> set l. P c \<Longrightarrow> \<not> P x \<Longrightarrow> takeWhile P (l @ x # r) = l"
  by (induction l) auto

lemma fgets_line:
  assumes "LF \<notin> set l" "length l < 511"
  shows "fgets 512 (l @ LF # rest) = Some (l @ [LF], rest)"
proof -
  have t: "take 511 (l @ LF # rest) = l @ LF # take (510 - length l) rest"
    using assms(2) by (simp add: take_Cons')
  have w: "takeWhile (\<lambda>c. c \<noteq> LF) (l @ LF # take (510 - length l) rest) = l"
    using assms(1) by (intro takeWhile_until) auto
  have n: "(512::nat) - 1 = 511" by simp
  show ?thesis
    unfolding fgets_def Let_def n t w by simp
qed

lemma file_lines_line:
  assumes "LF \<notin> set l" "length l < 511"
  shows "file_lines (l @ LF # rest) = trim_newline (c_str (l @ [LF])) # file_lines rest"
  using fgets_line [OF assms, of rest]
  by (simp add: file_lines.simps [of "l @ LF # rest"])

lemma trim_c_str_line:
  assumes "LF \<notin> set l" "CR \<notin> set l" "NUL \<notin> set l"
  shows "trim_newline (c_str (l @ [LF])) = l"
proof -
  have "\<forall>c \<in> set (l @ [LF]). c \<noteq> NUL"
    using assms(3) by (auto simp: NUL_def LF_def)
  then have "c_str (l @ [LF]) = l @ [LF]"
    unfolding c_str_def by (simp only: takeWhile_eq_all_conv)
  moreover have "takeWhile (\<lambda>c. c \<noteq> CR \<and> c \<noteq> LF) (l @ LF # []) = l"
    using assms(1,2) by (intro takeWhile_until) auto
  ultimately show ?thesis by (simp add: trim_newline_def)
qed

lemma valid_records_line:
  assumes "LF \<notin> set l" "CR \<notin> set l" "NUL \<notin> set l" "length l < 511"
  shows "valid_records (l @ LF # rest)
    = (case parse_line l of None \<Rightarrow> valid_records rest | Some p \<Rightarrow> p # valid_records rest)"
  by (simp add: valid_records_def file_lines_line [OF assms(1,4)] trim_c_str_line [OF assms(1-3)]
        map_filter_simps split: option.splits)

lemma valid_records_replicate:
  assumes "LF \<notin> set l" "CR \<notin> set l" "NUL \<notin> set l" "length l < 511" "parse_line l = Some p"
  shows "valid_records (concat (replicate n (l @ [LF]))) = replicate n p"
proof (induction n)
  case 0
  have "fgets 512 [] = None" by (simp add: fgets_def)
  then show ?case by (simp add: valid_records_def file_lines.simps [of "[]"] map_filter_simps)
next
  case (Suc n)
  then show ?case
    using valid_records_line [OF assms(1-4), of "concat (replicate n (l @ [LF]))"] assms(5)
    by simp
qed

lemma inv_sync: "store_inv s \<Longrightarrow> store_inv (syncAutoExpire e s)"
  by (simp add: store_inv_def sync_length syncAutoExpire_globals)

lemma inv_save: "store_inv s \<Longrightarrow> store_inv (snd (saveToFile e f s))"
  by (simp add: store_inv_def saveToFile_globals)

lemma inv_members_update:
  "store_inv s \<Longrightarrow> store_inv (s\<lparr>members := (members s)[j := p]\<rparr>)"
  by (simp add: store_inv_def)

lemma inv_add: "store_inv s \<Longrightarrow> store_inv (snd (addMember e nm gd ag ph c s))"
  by (auto simp: addMember_def Let_def createNode_def appendNode_def MAX_MEMBERS_def
        store_inv_def saveToFile_globals)

lemma inv_phone: "store_inv s \<Longrightarrow> store_inv (snd (updateMemberPhone e input ph s))"
  by (auto simp: updateMemberPhone_def Let_def inv_save inv_members_update split: option.splits)

lemma inv_status: "store_inv s \<Longrightarrow> store_inv (snd (updateMemberStatus e input s))"
  by (auto simp: updateMemberStatus_def Let_def inv_save inv_members_update split: option.splits)

lemma inv_renewDecision: "store_inv s \<Longrightarrow> store_inv (snd (renewDecision e j c s))"
  by (auto simp: renewDecision_def Let_def inv_save inv_members_update)

lemma inv_renew: "store_inv s \<Longrightarrow> store_inv (snd (renewMember e input c s))"
  by (auto simp: renewMember_def Let_def inv_sync inv_renewDecision split: option.splits)

lemma inv_unlink:
  assumes "store_inv s" "j < length (members s)"
  shows "store_inv (s\<lparr>members := take j (members s) @ drop (Suc j) (members s),
                      member_count := member_count s - 1\<rparr>)"
  using assms by (auto simp: store_inv_def)

lemma inv_delete:
  assumes "store_inv s"
  shows "store_inv (snd (deleteExpiredMember e input s))"
proof -
  let ?s1 = "syncAutoExpire e s"
  have i: "store_inv ?s1" using assms by (rule inv_sync)
  show ?thesis
  proof (cases input)
    case None
    then show ?thesis using i by (simp add: deleteExpiredMember_def Let_def)
  next
    case (Some c)
    show ?thesis
    proof (cases "findByCardID c (members ?s1)")
      case None
      then show ?thesis using i Some by (simp add: deleteExpiredMember_def Let_def)
    next
      case (Some j)
      then have "j < length (members ?s1)" using findByCardID_Some by blast
      from inv_unlink [OF i this] show ?thesis
        using i Some \<open>input = Some c\<close> by (simp add: deleteExpiredMember_def Let_def inv_save)
    qed
  qed
qed

lemma inv_menu: "store_inv s \<Longrightarrow> store_inv (menu_step e c s)"
  by (cases c)
     (simp_all add: showAllMembers_def searchByCardID_def searchByName_def showStatistics_def
        inv_sync inv_add inv_phone inv_delete inv_renew inv_status)

lemma inv_load: "store_inv s \<Longrightarrow> store_inv (snd (loadFromFile e f s))"
proof (cases "disk s f")
  case None
  assume "store_inv s"
  then show ?thesis using None by (simp add: loadFromFile_absent)
next
  case (Some content)
  have "length (members (snd (loadFromFile e f s))) \<le> 100"
    by (simp add: loadFromFile_members [OF Some])
  then show ?thesis using loadFromFile_count(2) [OF Some, of e] by (simp add: store_inv_def)
qed

lemma inv_initial: "store_inv (initial_state d)"
  by (simp add: store_inv_def initial_state_def)

lemma inv_initTestData: "store_inv (initTestData e s)"
proof -
  have "store_inv (foldl (\<lambda>t m. appendNode \<lparr>data = m, bonus_days = 0\<rparr> t) (freeAllMembers s)
      test_members\<lparr>next_card_id := 1005\<rparr>)"
    by (simp add: store_inv_def test_members_def appendNode_def freeAllMembers_def)
  then have "store_inv (snd (saveToFile e DATA_FILE (syncAutoExpire e
      (foldl (\<lambda>t m. appendNode \<lparr>data = m, bonus_days = 0\<rparr> t) (freeAllMembers s)
      test_members\<lparr>next_card_id := 1005\<rparr>))))"
    by (intro inv_save inv_sync)
  moreover have "store_inv (freeAllMembers s)"
    by (simp add: store_inv_def freeAllMembers_def)
  ultimately show ?thesis by (simp add: initTestData_def Let_def)
qed

lemma inv_startup: "store_inv (startup e e' d)"
proof -
  have "store_inv (snd (loadFromFile e DATA_FILE (initial_state d)))"
    using inv_initial by (rule inv_load)
  then show ?thesis
    by (cases "loadFromFile e DATA_FILE (initial_state d)")
       (simp add: startup_def inv_initTestData)
qed

lemma reachable_inv: "reachable s \<Longrightarrow> store_inv s"
  by (induction rule: reachable.induct) (simp_all add: inv_startup inv_menu)

text \<open>
  Claim C10. Every state the program reaches holds at most 100 nodes, counted by
  \<open>member_count\<close>; \<open>addMember\<close> with the count at \<open>MAX_MEMBERS\<close> reports a full store and
  changes nothing; \<open>loadFromFile\<close> keeps the first 100 valid lines (fewer when \<open>malloc\<close>
  fails earlier) and drops the rest of the file.
\<close>

theorem store_capacity:
  "(reachable s \<longrightarrow> length (members s) \<le> 100 \<and> member_count s = int (length (members s)))
   \<and> MAX_MEMBERS = 100
   \<and> (member_count s \<ge> MAX_MEMBERS \<longrightarrow> addMember e nm gd ag ph c s = (AddFull, s))
   \<and> (disk s f = Some content
    \<longrightarrow> members (snd (loadFromFile e f s))
          = map (expire_flip (dateToDays (current_date_str e)))
              (take (min (mallocs e) 100) (List.map_filter parse_line (file_lines content)))
        \<and> length (members (snd (loadFromFile e f s))) \<le> 100)"
proof (intro conjI impI)
  assume "reachable s"
  then have "store_inv s" by (rule reachable_inv)
  then show "length (members s) \<le> 100" "member_count s = int (length (members s))"
    by (simp_all add: store_inv_def)
next
  show "MAX_MEMBERS = 100" by (simp add: MAX_MEMBERS_def)
next
  assume "member_count s \<ge> MAX_MEMBERS"
  then show "addMember e nm gd ag ph c s = (AddFull, s)" by (simp add: addMember_def)
next
  assume d: "disk s f = Some content"
  show "members (snd (loadFromFile e f s))
          = map (expire_flip (dateToDays (current_date_str e)))
              (take (min (mallocs e) 100) (List.map_filter parse_line (file_lines content)))"
    using loadFromFile_members [OF d] by (simp add: valid_records_def)
  show "length (members (snd (loadFromFile e f s))) \<le> 100"
    by (simp add: loadFromFile_members [OF d])
qed

lemma long_file_records: "valid_records long_file = replicate 101 (node_of 7 ''A'' 30)"
proof -
  have "LF \<notin> set (line_of ''7'' ''A'' ''30'')" "CR \<notin> set (line_of ''7'' ''A'' ''30'')"
    "NUL \<notin> set (line_of ''7'' ''A'' ''30'')" "length (line_of ''7'' ''A'' ''30'') < 511"
    "parse_line (line_of ''7'' ''A'' ''30'') = Some (node_of 7 ''A'' 30)"
    by code_simp+
  then show ?thesis unfolding long_file_def by (rule valid_records_replicate)
qed

theorem store_capacity_witness:
  "length (members (startup (all_ok_env ''2025-01-15'') (all_ok_env ''2025-01-15'')
      (\<lambda>f. None))) \<le> 100
   \<and> addMember (all_ok_env ''2025-01-15'') ''A'' gender_male 30 ''13800138000'' Choice1 full_state
      = (AddFull, full_state)
   \<and> List.map_filter parse_line (file_lines long_file) = replicate 101 (node_of 7 ''A'' 30)
   \<and> members (snd (loadFromFile (all_ok_env ''2025-01-15'') DATA_FILE (state_with_file long_file)))
      = replicate 100 (node_of 7 ''A'' 30)"
proof -
  let ?e = "all_ok_env ''2025-01-15''"
  have r: "reachable (startup ?e ?e (\<lambda>f. None))" by (rule reachable_startup)
  have w1: "length (members (startup ?e ?e (\<lambda>f. None))) \<le> 100"
    using store_capacity [of "startup ?e ?e (\<lambda>f. None)"] r by blast
  have f: "member_count full_state \<ge> MAX_MEMBERS"
    by (simp add: full_state_def MAX_MEMBERS_def)
  have w2: "addMember ?e ''A'' gender_male 30 ''13800138000'' Choice1 full_state
      = (AddFull, full_state)"
    using store_capacity [of full_state ?e "''A''" gender_male 30 "''13800138000''" Choice1] f
    by blast
  have v: "List.map_filter parse_line (file_lines long_file) = replicate 101 (node_of 7 ''A'' 30)"
    using long_file_records by (simp add: valid_records_def)
  have t: "take 100 (replicate 101 (node_of 7 ''A'' 30)) = replicate 100 (node_of 7 ''A'' 30)"
    by simp
  have w3: "members (snd (loadFromFile ?e DATA_FILE (state_with_file long_file)))
      = replicate 100 (node_of 7 ''A'' 30)"
    using store_capacity [of "state_with_file long_file" ?e "''A''" gender_male 30
        "''13800138000''" Choice1 DATA_FILE long_file]
    by (simp add: state_with_file_disk v env_fields node_of_flip t del: take_replicate)
  show ?thesis using w1 w2 v w3 by blast
qed

subsection \<open>Saving and the round trip\<close>

lemma saveToFile_rename_failure:
  assumes "fopen_temp_ok e" "remove_data_ok e" "\<not> rename_ok e" "remove_temp_ok e"
    and "f \<noteq> TEMP_FILE"
  shows "fst (saveToFile e f s) = 0"
    and "disk (snd (saveToFile e f s)) f = None"
    and "disk (snd (saveToFile e f s)) TEMP_FILE = None"
  using assms by (simp_all add: saveToFile_def Let_def c_remove_def c_rename_def)

lemma saveToFile_fopen_failure: "\<not> fopen_temp_ok e \<Longrightarrow> saveToFile e f s = (0, s)"
  by (simp add: saveToFile_def)

lemma saveToFile_success:
  assumes "fopen_temp_ok e" "rename_ok e" "f \<noteq> TEMP_FILE"
  shows "fst (saveToFile e f s) = 1"
    and "disk (snd (saveToFile e f s)) f = Some (concat (map record_line (members s)))"
    and "disk (snd (saveToFile e f s)) TEMP_FILE = None"
  using assms by (simp_all add: saveToFile_def Let_def c_remove_def c_rename_def)

text \<open>
  Claim C1 at a failing rename: \<open>saveToFile\<close> reports failure and removes the staging file,
  but the destination, removed before the rename was tried, is gone as well.
\<close>

theorem saveToFile_rename_fails_loses_destination:
  "disk saving_state DATA_FILE = Some (record_line inactive_member)
   \<and> fst (saveToFile rename_fails_env DATA_FILE saving_state) = 0
   \<and> disk (snd (saveToFile rename_fails_env DATA_FILE saving_state)) TEMP_FILE = None
   \<and> disk (snd (saveToFile rename_fails_env DATA_FILE saving_state)) DATA_FILE = None"
proof -
  have e: "fopen_temp_ok rename_fails_env" "remove_data_ok rename_fails_env"
    "\<not> rename_ok rename_fails_env" "remove_temp_ok rename_fails_env"
    by (simp_all add: rename_fails_env_def all_ok_env_def)
  have n: "DATA_FILE \<noteq> TEMP_FILE" by (simp add: DATA_FILE_def TEMP_FILE_def)
  show ?thesis
    using saveToFile_rename_failure [OF e n, of saving_state]
    by (simp add: saving_state_def)
qed

lemma restart_env_fields:
  "current_date_str restart_env = ''2026-01-10''" "mallocs restart_env = 1000"
  "fopen_temp_ok restart_env" "rename_ok restart_env"
  by (simp_all add: restart_env_def all_ok_env_def)

lemma test_nodes_sync: "syncLoop (dateToDays ''2026-01-10'') test_nodes = test_nodes"
  by code_simp

lemma foldl_appendNode:
  "foldl (\<lambda>t m. appendNode \<lparr>data = m, bonus_days = 0\<rparr> t) s ms
   = s\<lparr>members := members s @ map (\<lambda>m. \<lparr>data = m, bonus_days = 0\<rparr>) ms,
        member_count := member_count s + int (length ms)\<rparr>"
  by (induction ms arbitrary: s) (simp_all add: appendNode_def)

lemma startup_test_data:
  "members (startup restart_env restart_env (\<lambda>f. None)) = test_nodes"
  "member_count (startup restart_env restart_env (\<lambda>f. None)) = 4"
  "next_card_id (startup restart_env restart_env (\<lambda>f. None)) = 1005"
proof -
  have l: "loadFromFile restart_env DATA_FILE (initial_state (\<lambda>f. None))
      = (0, initial_state (\<lambda>f. None))"
    by (simp add: loadFromFile_absent initial_state_def)
  have n: "test_nodes \<noteq> []" "length test_members = 4"
    by (simp_all add: test_nodes_def test_members_def)
  have i: "startup restart_env restart_env (\<lambda>f. None)
      = initTestData restart_env (initial_state (\<lambda>f. None))"
    by (simp add: startup_def l)
  show "members (startup restart_env restart_env (\<lambda>f. None)) = test_nodes"
    using n
    by (simp add: i initTestData_def Let_def restart_env_fields saveToFile_globals
          foldl_appendNode freeAllMembers_def initial_state_def syncAutoExpire_def
          test_nodes_def [symmetric] test_nodes_sync)
  show "member_count (startup restart_env restart_env (\<lambda>f. None)) = 4"
    using n
    by (simp add: i initTestData_def Let_def restart_env_fields saveToFile_globals
          foldl_appendNode freeAllMembers_def initial_state_def syncAutoExpire_globals)
  show "next_card_id (startup restart_env restart_env (\<lambda>f. None)) = 1005"
    using n
    by (simp add: i initTestData_def Let_def restart_env_fields saveToFile_globals
          foldl_appendNode freeAllMembers_def initial_state_def syncAutoExpire_globals)
qed

lemma store_with_bar_name_members: "members store_with_bar_name = test_nodes @ [bar_member]"
  by (simp add: store_with_bar_name_def addMember_def Let_def startup_test_data MAX_MEMBERS_def
        createNode_def restart_env_fields appendNode_def saveToFile_globals bar_member_def)

lemma store_with_bar_name_disk:
  "disk store_with_bar_name DATA_FILE = Some (concat (map record_line (test_nodes @ [bar_member])))"
proof -
  have n: "DATA_FILE \<noteq> TEMP_FILE" by (simp add: DATA_FILE_def TEMP_FILE_def)
  show ?thesis
    using saveToFile_success(2) [OF restart_env_fields(3,4) n]
    by (simp add: store_with_bar_name_def addMember_def Let_def startup_test_data MAX_MEMBERS_def
        createNode_def restart_env_fields appendNode_def bar_member_def)
qed

lemma bar_file_records:
  "valid_records (concat (map record_line (test_nodes @ [bar_member]))) = test_nodes"
  by code_simp

text \<open>
  Claim C6 at a name with the field delimiter: after the start on an empty directory and
  one \<open>addMember\<close> with the name \<open>a|b\<close>, the store has five nodes; saving succeeds, and
  loading the saved file brings back the four others only.
\<close>

theorem roundtrip_loses_name_with_delimiter:
  "reachable store_with_bar_name
   \<and> members store_with_bar_name = test_nodes @ [bar_member]
   \<and> name (data bar_member) = ''a|b''
   \<and> fst (saveToFile restart_env DATA_FILE store_with_bar_name) = 1
   \<and> fst (loadFromFile restart_env DATA_FILE
        (snd (saveToFile restart_env DATA_FILE store_with_bar_name))) = 4
   \<and> members (snd (loadFromFile restart_env DATA_FILE
        (snd (saveToFile restart_env DATA_FILE store_with_bar_name)))) = test_nodes"
proof -
  let ?saved = "snd (saveToFile restart_env DATA_FILE store_with_bar_name)"
  have n: "DATA_FILE \<noteq> TEMP_FILE" by (simp add: DATA_FILE_def TEMP_FILE_def)
  have r: "reachable store_with_bar_name"
    using reachable_step [OF reachable_startup,
        of restart_env "CallAdd ''a|b'' gender_male 30 ''13800138000'' Choice1"
          restart_env restart_env "\<lambda>f. None"]
    by (simp add: store_with_bar_name_def)
  have s1: "fst (saveToFile restart_env DATA_FILE store_with_bar_name) = 1"
    using restart_env_fields(3,4) n by (rule saveToFile_success)
  have d: "disk ?saved DATA_FILE = Some (concat (map record_line (test_nodes @ [bar_member])))"
    using saveToFile_success(2) [OF restart_env_fields(3,4) n, of store_with_bar_name]
    by (simp add: store_with_bar_name_members)
  have l: "length test_nodes = 4" by (simp add: test_nodes_def test_members_def)
  have m: "members (snd (loadFromFile restart_env DATA_FILE ?saved)) = test_nodes"
    using loadFromFile_members [OF d, of restart_env, unfolded bar_file_records] test_nodes_sync
    by (simp add: restart_env_fields l syncLoop_map)
  have c: "fst (loadFromFile restart_env DATA_FILE ?saved) = 4"
    using loadFromFile_count(1) [OF d, of restart_env] by (simp add: m l)
  show ?thesis
    using r s1 m c by (simp add: store_with_bar_name_members bar_member_def)
qed

end
